(* ===== verification/Failures.thy ===== *)
theory Failures
  imports Prelude
begin

text \<open>
  Error values and the reasons an operator sees: \<open>internal/control/failure.go\<close>, the \<open>Error\<close> types
  of the two stores, the connector's \<open>repositoryError\<close> and the configuration's \<open>ValidationError\<close>,
  with \<open>errors.Is\<close> and \<open>errors.As\<close> walking the chain of causes, and contexts as the sequence of
  answers their \<open>Err\<close> method gives.
\<close>

section \<open>Error values\<close>

datatype ctx_err = Canceled | DeadlineExceeded

text \<open>
  \<open>Sentinel\<close> is a package-level error variable (compared by identity), \<open>ErrNew\<close> any other leaf
  made by \<open>errors.New\<close> or \<open>fmt.Errorf\<close> or returned by a library, \<open>WrapE\<close> the \<open>%w\<close> form of
  \<open>fmt.Errorf\<close> with the text before the cause.  A nil error is \<open>None\<close>.
\<close>

datatype gerr =
    ErrNew string
  | Sentinel string
  | CtxError ctx_err
  | ControlFailure string "gerr option"
  | MemoryError string "gerr option"
  | SqliteError string "gerr option"
  | RepositoryError string "gerr option"
  | ValidationError string "gerr option"
  | WrapE string gerr

fun unwrap :: "gerr \<Rightarrow> gerr option" where
  "unwrap (ControlFailure r c) = c"
| "unwrap (MemoryError r c) = c"
| "unwrap (SqliteError r c) = c"
| "unwrap (RepositoryError r c) = c"
| "unwrap (ValidationError r c) = c"
| "unwrap (WrapE t e) = Some e"
| "unwrap e = None"

fun err_size :: "gerr \<Rightarrow> nat" where
  "err_size (ControlFailure r (Some e)) = Suc (err_size e)"
| "err_size (MemoryError r (Some e)) = Suc (err_size e)"
| "err_size (SqliteError r (Some e)) = Suc (err_size e)"
| "err_size (RepositoryError r (Some e)) = Suc (err_size e)"
| "err_size (ValidationError r (Some e)) = Suc (err_size e)"
| "err_size (WrapE t e) = Suc (err_size e)"
| "err_size e = 0"

lemma unwrap_smaller: "unwrap e = Some e' \<Longrightarrow> err_size e' < err_size e"
  by (cases e rule: unwrap.cases) auto

text \<open>\<open>err\<close> and the errors it wraps, outermost first: what \<open>errors.Is\<close> and \<open>errors.As\<close> visit.\<close>

function chain :: "gerr \<Rightarrow> gerr list" where
  "chain e = e # (case unwrap e of None \<Rightarrow> [] | Some e' \<Rightarrow> chain e')"
  by pat_completeness auto
termination
  by (relation "measure err_size") (auto dest: unwrap_smaller)

declare chain.simps [simp del]

lemma chain_simps [simp]:
  "chain (ErrNew t) = [ErrNew t]"
  "chain (Sentinel t) = [Sentinel t]"
  "chain (CtxError x) = [CtxError x]"
  "chain (ControlFailure r c) = ControlFailure r c # (case c of None \<Rightarrow> [] | Some e \<Rightarrow> chain e)"
  "chain (MemoryError r c) = MemoryError r c # (case c of None \<Rightarrow> [] | Some e \<Rightarrow> chain e)"
  "chain (SqliteError r c) = SqliteError r c # (case c of None \<Rightarrow> [] | Some e \<Rightarrow> chain e)"
  "chain (RepositoryError r c) = RepositoryError r c # (case c of None \<Rightarrow> [] | Some e \<Rightarrow> chain e)"
  "chain (ValidationError r c) = ValidationError r c # (case c of None \<Rightarrow> [] | Some e \<Rightarrow> chain e)"
  "chain (WrapE t e) = WrapE t e # chain e"
  by (subst chain.simps, simp)+

definition errors_is :: "gerr \<Rightarrow> gerr \<Rightarrow> bool" where
  "errors_is e target \<longleftrightarrow> target \<in> set (chain e)"

section \<open>Reasons\<close>

text \<open>\<open>(*Failure).Error\<close>, and the \<open>Error\<close> methods of the stores.\<close>

definition Failure_Error :: "string \<Rightarrow> string" where
  "Failure_Error reason = (if reason = '''' then ''task failed'' else reason)"

definition Memory_Error :: "string \<Rightarrow> string" where
  "Memory_Error reason = (if reason = '''' then ''task store is unavailable'' else reason)"

definition Sqlite_Error :: "string \<Rightarrow> string" where
  "Sqlite_Error reason = (if reason = '''' then ''state store is unavailable'' else reason)"

text \<open>The \<open>SafeReason() string\<close> method, of the types that have one.\<close>

fun SafeReason_method :: "gerr \<Rightarrow> string option" where
  "SafeReason_method (ControlFailure r c) = Some (Failure_Error r)"
| "SafeReason_method (MemoryError r c) = Some (Memory_Error r)"
| "SafeReason_method (SqliteError r c) = Some (Sqlite_Error r)"
| "SafeReason_method (RepositoryError r c) = Some r"
| "SafeReason_method e = None"

fun is_failure :: "gerr \<Rightarrow> bool" where
  "is_failure (ControlFailure r c) = True"
| "is_failure e = False"

text \<open>\<open>errors.As(err, &target)\<close>: the first error of the chain of the wanted kind.\<close>

fun first_some :: "('a \<Rightarrow> 'b option) \<Rightarrow> 'a list \<Rightarrow> 'b option" where
  "first_some f [] = None"
| "first_some f (x # xs) = (case f x of None \<Rightarrow> first_some f xs | Some y \<Rightarrow> Some y)"

definition reason_provider :: "gerr \<Rightarrow> string option" where
  "reason_provider e = first_some SafeReason_method (chain e)"

definition as_failure :: "gerr \<Rightarrow> string option" where
  "as_failure e = first_some (\<lambda>x. if is_failure x then SafeReason_method x else None) (chain e)"

text \<open>\<open>control.SafeReason\<close>: the text a command prints for an error.\<close>

definition SafeReason :: "gerr option \<Rightarrow> string" where
  "SafeReason err = (case err of None \<Rightarrow> '''' | Some e \<Rightarrow>
     (case as_failure e of
        Some r \<Rightarrow> r
      | None \<Rightarrow>
          (case reason_provider e of
             Some r \<Rightarrow> if r \<noteq> '''' then r else ''task failed''
           | None \<Rightarrow> ''task failed'')))"

text \<open>\<open>config.SafeReason\<close>.\<close>

fun validation_reason :: "gerr \<Rightarrow> string option" where
  "validation_reason (ValidationError r c) = Some r"
| "validation_reason e = None"

definition config_SafeReason :: "gerr option \<Rightarrow> string" where
  "config_SafeReason err = (case err of None \<Rightarrow> '''' | Some e \<Rightarrow>
     (case first_some validation_reason (chain e) of
        Some r \<Rightarrow> r
      | None \<Rightarrow> ''configuration YAML is invalid''))"

section \<open>Contexts\<close>

text \<open>
  A context is nil or answers each call of \<open>Err\<close>; the argument counts the observations, so a context
  cancelled while an operation runs is one whose later answers differ from the earlier ones.
\<close>

type_synonym gctx = "(nat \<Rightarrow> ctx_err option) option"

text \<open>\<open>contextError\<close> of \<open>internal/control/task.go\<close>, at the \<open>k\<close>-th observation.\<close>

definition contextError :: "gctx \<Rightarrow> nat \<Rightarrow> ctx_err option" where
  "contextError ctx k = (case ctx of None \<Rightarrow> None | Some f \<Rightarrow> f k)"

text \<open>The same context as a callee sees it that starts observing later.\<close>

definition ctx_from :: "nat \<Rightarrow> gctx \<Rightarrow> gctx" where
  "ctx_from k ctx = map_option (\<lambda>f n. f (k + n)) ctx"

definition live :: "gctx \<Rightarrow> bool" where
  "live ctx \<longleftrightarrow> (\<forall>k. contextError ctx k = None)"

lemma contextError_ctx_from [simp]: "contextError (ctx_from k ctx) n = contextError ctx (k + n)"
  by (cases ctx) (simp_all add: contextError_def ctx_from_def)

lemma live_None [simp]: "live None"
  by (simp add: live_def contextError_def)

lemma liveD [simp]: "live ctx \<Longrightarrow> contextError ctx k = None"
  by (simp add: live_def)

lemma live_ctx_from: "live ctx \<Longrightarrow> live (ctx_from k ctx)"
  by (simp add: live_def)

text \<open>\<open>failureFromCause\<close>, whose look at the context is the \<open>k\<close>-th observation.\<close>

definition failureFromCause :: "gctx \<Rightarrow> nat \<Rightarrow> gerr \<Rightarrow> gerr" where
  "failureFromCause ctx k e =
     (case contextError ctx k of
        Some c \<Rightarrow> ControlFailure ''task cancelled'' (Some (CtxError c))
      | None \<Rightarrow>
          (case reason_provider e of
             Some r \<Rightarrow> if r \<noteq> '''' then ControlFailure r (Some e) else ControlFailure ''task failed'' (Some e)
           | None \<Rightarrow> ControlFailure ''task failed'' (Some e)))"

section \<open>Reasons do not depend on causes\<close>

text \<open>
  \<open>redact\<close> replaces the text of every leaf of an error and the text \<open>fmt.Errorf\<close> adds: everything
  that can carry a path, an input, SQL or a response body.
\<close>

fun redact :: "gerr \<Rightarrow> gerr" where
  "redact (ErrNew t) = ErrNew ''''"
| "redact (Sentinel t) = Sentinel t"
| "redact (CtxError c) = CtxError c"
| "redact (ControlFailure r c) = ControlFailure r (map_option redact c)"
| "redact (MemoryError r c) = MemoryError r (map_option redact c)"
| "redact (SqliteError r c) = SqliteError r (map_option redact c)"
| "redact (RepositoryError r c) = RepositoryError r (map_option redact c)"
| "redact (ValidationError r c) = ValidationError r (map_option redact c)"
| "redact (WrapE t e) = WrapE '''' (redact e)"

lemma chain_redact: "chain (redact e) = map redact (chain e)"
  by (induction e rule: redact.induct) (auto split: option.splits)

lemma SafeReason_method_redact: "SafeReason_method (redact e) = SafeReason_method e"
  by (cases e) auto

lemma is_failure_redact: "is_failure (redact e) = is_failure e"
  by (cases e) auto

lemma first_some_map: "(\<And>x. f (g x) = f x) \<Longrightarrow> first_some f (map g xs) = first_some f xs"
  by (induction xs) (auto split: option.splits)

lemma reason_provider_redact: "reason_provider (redact e) = reason_provider e"
  by (simp add: reason_provider_def chain_redact first_some_map SafeReason_method_redact)

lemma as_failure_redact: "as_failure (redact e) = as_failure e"
  by (simp add: as_failure_def chain_redact first_some_map SafeReason_method_redact is_failure_redact)

lemma SafeReason_ControlFailure [simp]: "SafeReason (Some (ControlFailure r c)) = Failure_Error r"
  by (simp add: SafeReason_def as_failure_def)

lemma failureFromCause_is_failure: "is_failure (failureFromCause ctx k e)"
  by (auto simp: failureFromCause_def split: option.splits)

text \<open>
  C20.  The reason an operator sees never depends on the text of an underlying cause: replacing the
  text of every wrapped library error, path, query or response leaves \<open>control.SafeReason\<close>
  unchanged, for any error and also after \<open>failureFromCause\<close> has rewrapped it.
\<close>

theorem SafeReason_hides_causes:
  "SafeReason (Some (redact e)) = SafeReason (Some e) \<and>
   SafeReason (Some (failureFromCause ctx k (redact e))) = SafeReason (Some (failureFromCause ctx k e))"
  by (simp add: SafeReason_def [of "Some e"] SafeReason_def [of "Some (redact e)"]
      as_failure_redact reason_provider_redact failureFromCause_def split: option.split)

end
