(* ===== verification/Utf8_Text.thy ===== *)
theory Utf8_Text
  imports Prelude
begin

text \<open>
  The parts of Go's \<open>unicode/utf8\<close>, \<open>unicode\<close> and \<open>strings\<close> packages that the program's text
  handling rests on: the length of the leading rune of a byte string, \<open>utf8.Valid\<close>, the replacement
  of invalid bytes that JSON encoding performs, and \<open>strings.TrimSpace\<close>.
\<close>

section \<open>Runes\<close>

definition cont_byte :: "char \<Rightarrow> bool" where
  "cont_byte c \<longleftrightarrow> 128 \<le> byte c \<and> byte c \<le> 191"

text \<open>The bounds of the second byte, which exclude overlong forms, surrogates and values above
  \<open>U+10FFFF\<close> (the accept ranges of \<open>unicode/utf8\<close>).\<close>

definition second_byte :: "nat \<Rightarrow> char \<Rightarrow> bool" where
  "second_byte x c \<longleftrightarrow>
     (if x = 224 then 160 else if x = 240 then 144 else 128) \<le> byte c \<and>
     byte c \<le> (if x = 237 then 159 else if x = 244 then 143 else 191)"

text \<open>The number of bytes of the valid encoding at the head of the string, 0 when there is none
  (where \<open>utf8.DecodeRune\<close> returns \<open>RuneError\<close> and a width of 1, or of 0 for no input).\<close>

fun rune_len :: "string \<Rightarrow> nat" where
  "rune_len [] = 0"
| "rune_len (a # s) =
     (let x = byte a in
      if x < 128 then 1
      else if 194 \<le> x \<and> x \<le> 223 then
        (case s of b # _ \<Rightarrow> if cont_byte b then 2 else 0 | _ \<Rightarrow> 0)
      else if 224 \<le> x \<and> x \<le> 239 then
        (case s of b # c # _ \<Rightarrow> if second_byte x b \<and> cont_byte c then 3 else 0 | _ \<Rightarrow> 0)
      else if 240 \<le> x \<and> x \<le> 244 then
        (case s of b # c # d # _ \<Rightarrow>
           if second_byte x b \<and> cont_byte c \<and> cont_byte d then 4 else 0 | _ \<Rightarrow> 0)
      else 0)"

declare rune_len.simps(2) [simp del]

lemma rune_len_le: "rune_len s \<le> length s"
  by (cases s) (auto simp: rune_len.simps Let_def split: list.splits)

lemma rune_len_ascii [simp]: "byte a < 128 \<Longrightarrow> rune_len (a # s) = 1"
  by (simp add: rune_len.simps Let_def)

lemma rune_len_1_ascii: "rune_len (a # s) = Suc 0 \<Longrightarrow> byte a < 128"
  by (auto simp: rune_len.simps Let_def split: list.splits if_splits)

text \<open>The four shapes of an encoded rune.\<close>

lemma rune_len_shapes:
  assumes "0 < rune_len s"
  obtains
    (one) a t where "s = a # t" "rune_len s = 1" "byte a < 128"
  | (two) a b t where "s = a # b # t" "rune_len s = 2" "194 \<le> byte a" "cont_byte b"
  | (three) a b c t where "s = a # b # c # t" "rune_len s = 3" "224 \<le> byte a"
      "second_byte (byte a) b" "cont_byte c"
  | (four) a b c d t where "s = a # b # c # d # t" "rune_len s = 4" "240 \<le> byte a"
      "second_byte (byte a) b" "cont_byte c" "cont_byte d"
  using assms
  by (cases s) (auto simp: rune_len.simps Let_def split: list.splits if_splits)

lemma second_byte_high: "second_byte x c \<Longrightarrow> 128 \<le> byte c"
  by (auto simp: second_byte_def split: if_splits)

lemma cont_byte_high: "cont_byte c \<Longrightarrow> 128 \<le> byte c"
  by (simp add: cont_byte_def)

text \<open>A rune is recognised by its own bytes: what follows does not matter.\<close>

lemma rune_len_append: "0 < rune_len s \<Longrightarrow> rune_len (s @ t) = rune_len s"
  by (cases s) (auto simp: rune_len.simps Let_def split: list.splits if_splits)

lemma rune_len_take: "0 < rune_len s \<Longrightarrow> rune_len (take (rune_len s) s @ t) = rune_len s"
  by (erule rune_len_shapes) (auto simp: rune_len.simps Let_def split: list.splits if_splits)

text \<open>A multi-byte rune holds no ASCII byte.\<close>

lemma rune_len_high:
  assumes "1 < rune_len s" and "c \<in> set (take (rune_len s) s)"
  shows "128 \<le> byte c"
proof -
  have "0 < rune_len s" using assms(1) by simp
  then show ?thesis
    using assms
    by (cases rule: rune_len_shapes) (auto dest: second_byte_high cont_byte_high)
qed

text \<open>An incomplete rune is not completed by an ASCII byte.\<close>

lemma rune_len_incomplete:
  assumes "rune_len (a # s) = 0" and "byte c < 128"
  shows "rune_len (a # s @ c # t) = 0"
proof (rule ccontr)
  define u where "u = a # s"
  define n where "n = rune_len (u @ c # t)"
  assume "rune_len (a # s @ c # t) \<noteq> 0"
  then have pos: "0 < rune_len (u @ c # t)" by (simp add: u_def)
  have "\<not> n \<le> length u"
  proof
    assume le: "n \<le> length u"
    have "rune_len (take n (u @ c # t) @ drop n u) = n"
      using rune_len_take [OF pos, of "drop n u"] by (simp add: n_def)
    with le have "rune_len u = n" by simp
    with assms(1) pos show False by (simp add: u_def n_def)
  qed
  then have "c \<in> set (take n (u @ c # t))" and "1 < n"
    by (auto simp: take_Cons' u_def)
  then have "128 \<le> byte c" unfolding n_def by (rule rune_len_high [rotated])
  with assms(2) show False by simp
qed

section \<open>Validity\<close>

text \<open>\<open>utf8.Valid\<close>.\<close>

fun utf8_valid :: "string \<Rightarrow> bool" where
  "utf8_valid [] = True"
| "utf8_valid (a # s) = (case rune_len (a # s) of 0 \<Rightarrow> False | Suc n \<Rightarrow> utf8_valid (drop n s))"

text \<open>Invalid bytes replaced one by one by the encoding of \<open>U+FFFD\<close>: what converting a string to
  runes and back does.\<close>

definition replacement :: string where
  "replacement = [char_of (239::nat), char_of (191::nat), char_of (189::nat)]"

fun utf8_fix :: "string \<Rightarrow> string" where
  "utf8_fix [] = []"
| "utf8_fix (a # s) =
     (case rune_len (a # s) of
        0 \<Rightarrow> replacement @ utf8_fix s
      | Suc n \<Rightarrow> a # take n s @ utf8_fix (drop n s))"

lemma rune_len_drop_split: "rune_len (a # s) = Suc n \<Longrightarrow> n \<le> length s"
  using rune_len_le [of "a # s"] by simp

lemma utf8_valid_append_rune:
  assumes "rune_len (a # s) = Suc n"
  shows "utf8_valid (a # take n s @ t) = utf8_valid t"
proof -
  have "rune_len (a # take n s @ t) = Suc n"
    using assms rune_len_take [of "a # s" t] by simp
  moreover have "drop n (take n s @ t) = t"
    using rune_len_drop_split [OF assms] by simp
  ultimately show ?thesis by simp
qed

lemma utf8_valid_append: "utf8_valid s \<Longrightarrow> utf8_valid (s @ t) = utf8_valid t"
proof (induction s rule: utf8_valid.induct)
  case 1
  then show ?case by simp
next
  case (2 a s)
  from "2.prems" obtain n where n: "rune_len (a # s) = Suc n" and v: "utf8_valid (drop n s)"
    by (auto split: nat.splits)
  have "a # s @ t = a # take n s @ drop n s @ t" by (simp flip: append_assoc)
  then have "utf8_valid (a # s @ t) = utf8_valid (drop n s @ t)"
    using utf8_valid_append_rune [OF n, of "drop n s @ t"] by (simp only:)
  with "2.IH" [OF n v] show ?case by (simp only: append_Cons)
qed

lemma utf8_valid_ascii_Cons [simp]: "byte c < 128 \<Longrightarrow> utf8_valid (c # s) = utf8_valid s"
  by simp

lemma utf8_fix_ascii_Cons [simp]: "byte c < 128 \<Longrightarrow> utf8_fix (c # s) = c # utf8_fix s"
  by simp

text \<open>An ASCII byte is a boundary between runes.\<close>

lemma utf8_valid_split:
  "byte c < 128 \<Longrightarrow> utf8_valid (s @ c # t) \<longleftrightarrow> utf8_valid s \<and> utf8_valid t"
proof (induction s rule: utf8_valid.induct)
  case 1
  then show ?case by simp
next
  case (2 a s)
  show ?case
  proof (cases "rune_len (a # s)")
    case 0
    then show ?thesis using rune_len_incomplete [OF 0 "2.prems", of t] by simp
  next
    case (Suc n)
    have "rune_len (a # s @ c # t) = Suc n"
      using Suc rune_len_append [of "a # s" "c # t"] by simp
    moreover have "drop n (s @ c # t) = drop n s @ c # t"
      using rune_len_drop_split [OF Suc] by simp
    ultimately show ?thesis using "2.IH" [OF Suc "2.prems"] Suc by simp
  qed
qed

lemma replacement_rune: "rune_len (replacement @ t) = 3"
  by (simp add: replacement_def rune_len.simps byte_def second_byte_def cont_byte_def)

lemma utf8_valid_replacement: "utf8_valid (replacement @ t) = utf8_valid t"
  using replacement_rune [of t] by (simp add: replacement_def numeral_3_eq_3)

lemma utf8_fix_valid [simp]: "utf8_valid (utf8_fix s)"
proof (induction s rule: utf8_fix.induct)
  case 1
  then show ?case by simp
next
  case (2 a s)
  show ?case
  proof (cases "rune_len (a # s)")
    case 0
    with "2.IH"(1) [OF 0] show ?thesis by (simp add: utf8_valid_replacement)
  next
    case (Suc n)
    with "2.IH"(2) [OF Suc] show ?thesis
      using utf8_valid_append_rune [OF Suc, of "utf8_fix (drop n s)"] by simp
  qed
qed

lemma utf8_fix_id: "utf8_valid s \<Longrightarrow> utf8_fix s = s"
  by (induction s rule: utf8_valid.induct) (auto split: nat.splits)

lemma utf8_fix_iff: "utf8_fix s = s \<longleftrightarrow> utf8_valid s"
  using utf8_fix_id utf8_fix_valid by metis

lemma ascii_valid: "(\<And>c. c \<in> set s \<Longrightarrow> byte c < 128) \<Longrightarrow> utf8_valid s"
  by (induction s) auto

section \<open>White space\<close>

text \<open>
  The encodings of the runes that \<open>unicode.IsSpace\<close> accepts.  \<open>strings.TrimSpace\<close> removes leading
  and trailing runes of this set; a string starts (ends) with such a rune exactly when it starts
  (ends) with one of these byte strings, because UTF-8 encodings are prefix- and suffix-free.
\<close>

definition space_runes :: "string list" where
  "space_runes = map (map char_of)
     ([[9], [10], [11], [12], [13], [32], [194, 133], [194, 160], [225, 154, 128],
       [226, 128, 168], [226, 128, 169], [226, 128, 175], [226, 129, 159], [227, 128, 128],
       [226, 128, 128], [226, 128, 129], [226, 128, 130], [226, 128, 131], [226, 128, 132],
       [226, 128, 133], [226, 128, 134], [226, 128, 135], [226, 128, 136], [226, 128, 137],
       [226, 128, 138]] :: nat list list)"

fun strip_one :: "string list \<Rightarrow> string \<Rightarrow> string option" where
  "strip_one [] s = None"
| "strip_one (p # ps) s = (if p \<noteq> [] \<and> prefix p s then Some (drop (length p) s) else strip_one ps s)"

lemma strip_one_shorter: "strip_one ps s = Some t \<Longrightarrow> length t < length s"
proof (induction ps)
  case (Cons p ps)
  then show ?case by (cases p; cases s) (auto split: if_splits)
qed simp

function strip_all :: "string list \<Rightarrow> string \<Rightarrow> string" where
  "strip_all ps s = (case strip_one ps s of None \<Rightarrow> s | Some t \<Rightarrow> strip_all ps t)"
  by pat_completeness auto
termination
  by (relation "measure (\<lambda>(ps, s). length s)") (auto dest: strip_one_shorter)

declare strip_all.simps [simp del]

definition trim_left :: "string \<Rightarrow> string" where
  "trim_left s = strip_all space_runes s"

definition trim_right :: "string \<Rightarrow> string" where
  "trim_right s = rev (strip_all (map rev space_runes) (rev s))"

definition trim_space :: "string \<Rightarrow> string" where
  "trim_space s = trim_right (trim_left s)"

lemma strip_one_suffix: "strip_one ps s = Some t \<Longrightarrow> suffix t s"
  by (induction ps) (auto split: if_splits simp: suffix_drop)

lemma strip_all_suffix: "suffix (strip_all ps s) s"
proof (induction ps s rule: strip_all.induct)
  case (1 ps s)
  show ?case
  proof (cases "strip_one ps s")
    case None
    then show ?thesis by (simp add: strip_all.simps)
  next
    case (Some t)
    with 1 [OF Some] strip_one_suffix [OF Some] show ?thesis
      by (metis strip_all.simps option.simps(5) suffix_order.trans)
  qed
qed

lemma strip_all_stable: "strip_one ps (strip_all ps s) = None"
  by (induction ps s rule: strip_all.induct) (subst strip_all.simps, auto split: option.splits simp: strip_all.simps)

lemma strip_all_fixed: "strip_one ps s = None \<Longrightarrow> strip_all ps s = s"
  by (simp add: strip_all.simps)

lemma strip_all_idem [simp]: "strip_all ps (strip_all ps s) = strip_all ps s"
  by (simp add: strip_all_fixed strip_all_stable)

lemma trim_right_prefix: "prefix (trim_right s) s"
  unfolding trim_right_def using strip_all_suffix [of "map rev space_runes" "rev s"]
  by (metis rev_rev_ident suffix_to_prefix)

lemma trim_left_suffix: "suffix (trim_left s) s"
  by (simp add: trim_left_def strip_all_suffix)

lemma trim_right_idem [simp]: "trim_right (trim_right s) = trim_right s"
  by (simp add: trim_right_def)

lemma trim_space_sublist: "sublist (trim_space s) s"
  unfolding trim_space_def
  using trim_right_prefix [of "trim_left s"] trim_left_suffix [of s]
  by (meson prefix_imp_sublist sublist_order.order.trans suffix_imp_sublist)

lemma trim_space_set: "set (trim_space s) \<subseteq> set s"
  using trim_space_sublist by (rule set_mono_sublist)

lemma trim_space_Nil [simp]: "trim_space [] = []"
  using trim_space_set [of "[]"] by simp

text \<open>Removing a prefix of the input never turns a head that is no space into one: stripping the
  right end leaves the left end stripped.\<close>

lemma strip_one_prefix_None:
  "strip_one ps s = None \<Longrightarrow> prefix t s \<Longrightarrow> strip_one ps t = None"
  by (induction ps) (auto split: if_splits intro: prefix_order.trans)

theorem trim_space_idem [simp]: "trim_space (trim_space s) = trim_space s"
proof -
  have "strip_one space_runes (trim_right (trim_left s)) = None"
    by (rule strip_one_prefix_None [OF _ trim_right_prefix])
      (simp add: trim_left_def strip_all_stable)
  then show ?thesis
    by (simp add: trim_space_def trim_left_def [of "trim_right _"] strip_all_fixed)
qed

lemma strip_one_None_iff: "strip_one ps s = None \<longleftrightarrow> (\<forall>p \<in> set ps. p \<noteq> [] \<longrightarrow> \<not> prefix p s)"
  by (induction ps) auto

text \<open>A string without white space bytes at its ends is already trimmed.  Any byte of a white space
  rune is an ASCII space or at least 128.\<close>

lemma space_runes_heads:
  "p \<in> set space_runes \<Longrightarrow> p \<noteq> [] \<and> (128 \<le> byte (hd p) \<or> byte (hd p) \<in> {9,10,11,12,13,32})
     \<and> (128 \<le> byte (last p) \<or> byte (last p) \<in> {9,10,11,12,13,32})"
  by (auto simp: space_runes_def byte_def)

lemma trim_space_no_space:
  assumes "\<And>c. c \<in> set s \<Longrightarrow> byte c < 128 \<and> byte c \<notin> {9,10,11,12,13,32}"
  shows "trim_space s = s"
proof -
  have left: "strip_one space_runes s = None"
    unfolding strip_one_None_iff
  proof (intro ballI impI notI)
    fix p assume p: "p \<in> set space_runes" "p \<noteq> []" "prefix p s"
    then have "hd p \<in> set s" by (metis hd_in_set prefix_def set_append UnI1)
    with assms space_runes_heads [OF p(1)] show False by fastforce
  qed
  have right: "strip_one (map rev space_runes) (rev s) = None"
    unfolding strip_one_None_iff
  proof (intro ballI impI notI)
    fix q assume q: "q \<in> set (map rev space_runes)" "q \<noteq> []" "prefix q (rev s)"
    then obtain p where p: "p \<in> set space_runes" "q = rev p" by auto
    with q have "suffix p s" by (simp add: suffix_to_prefix)
    moreover have "p \<noteq> []" using q p by auto
    ultimately have "last p \<in> set s" by (metis last_in_set suffix_def set_append UnI2)
    with assms space_runes_heads [OF p(1)] show False by fastforce
  qed
  show ?thesis
    by (simp add: trim_space_def trim_left_def trim_right_def strip_all_fixed left right)
qed

end
