(* ===== verification/Regex.thy ===== *)
theory Regex
  imports Utf8_Text
begin

text \<open>
  The fragment of Go's \<open>regexp\<close> syntax the program uses: byte classes, sequences, alternatives,
  \<open>*\<close>, \<open>+\<close>, \<open>?\<close> and counted repetition, with \<open>^...$\<close> anchoring a pattern to the whole string.
  \<open>rx_lang\<close> is the meaning of a pattern, \<open>rx_match\<close> an executable matcher by derivatives, and
  \<open>rx_match_iff\<close> says they agree.  All classes in the program's patterns are ASCII, so matching
  bytes is matching runes.
\<close>

section \<open>Patterns and their language\<close>

datatype rx =
    RNone
  | REps
  | RCls "(char \<times> char) list"
  | RSeq rx rx
  | RAlt rx rx
  | RStar rx
  | RRep nat nat rx

definition in_class :: "(char \<times> char) list \<Rightarrow> char \<Rightarrow> bool" where
  "in_class rs c = list_ex (\<lambda>(lo, hi). byte lo \<le> byte c \<and> byte c \<le> byte hi) rs"

fun rx_lang :: "rx \<Rightarrow> string \<Rightarrow> bool" where
  "rx_lang RNone s = False"
| "rx_lang REps s = (s = [])"
| "rx_lang (RCls rs) s = (\<exists>c. s = [c] \<and> in_class rs c)"
| "rx_lang (RSeq r q) s = (\<exists>u v. s = u @ v \<and> rx_lang r u \<and> rx_lang q v)"
| "rx_lang (RAlt r q) s = (rx_lang r s \<or> rx_lang q s)"
| "rx_lang (RStar r) s = (\<exists>ws. s = concat ws \<and> (\<forall>w \<in> set ws. rx_lang r w))"
| "rx_lang (RRep m n r) s =
     (\<exists>ws. s = concat ws \<and> m \<le> length ws \<and> length ws \<le> n \<and> (\<forall>w \<in> set ws. rx_lang r w))"

text \<open>Notation of the patterns: a literal string, \<open>r+\<close>, \<open>r?\<close>.\<close>

definition RLit :: "string \<Rightarrow> rx" where
  "RLit s = foldr (\<lambda>c r. RSeq (RCls [(c, c)]) r) s REps"

definition RPlus :: "rx \<Rightarrow> rx" where
  "RPlus r = RSeq r (RStar r)"

definition ROpt :: "rx \<Rightarrow> rx" where
  "ROpt r = RAlt REps r"

section \<open>The matcher\<close>

fun nullable :: "rx \<Rightarrow> bool" where
  "nullable RNone = False"
| "nullable REps = True"
| "nullable (RCls rs) = False"
| "nullable (RSeq r q) = (nullable r \<and> nullable q)"
| "nullable (RAlt r q) = (nullable r \<or> nullable q)"
| "nullable (RStar r) = True"
| "nullable (RRep m n r) = (m \<le> n \<and> (m = 0 \<or> nullable r))"

fun rderiv :: "char \<Rightarrow> rx \<Rightarrow> rx" where
  "rderiv c RNone = RNone"
| "rderiv c REps = RNone"
| "rderiv c (RCls rs) = (if in_class rs c then REps else RNone)"
| "rderiv c (RSeq r q) =
     (if nullable r then RAlt (RSeq (rderiv c r) q) (rderiv c q) else RSeq (rderiv c r) q)"
| "rderiv c (RAlt r q) = RAlt (rderiv c r) (rderiv c q)"
| "rderiv c (RStar r) = RSeq (rderiv c r) (RStar r)"
| "rderiv c (RRep m n r) =
     (if n = 0 then RNone else RSeq (rderiv c r) (RRep (m - 1) (n - 1) r))"

fun rx_match :: "rx \<Rightarrow> string \<Rightarrow> bool" where
  "rx_match r [] = nullable r"
| "rx_match r (c # s) = rx_match (rderiv c r) s"

lemma nullable_iff: "nullable r \<longleftrightarrow> rx_lang r []"
proof (induction r)
  case (RStar r)
  show ?case by (auto intro: exI [of _ "[]"])
next
  case (RRep m n r)
  show ?case
  proof
    assume "nullable (RRep m n r)"
    with RRep show "rx_lang (RRep m n r) []"
      by (auto intro: exI [of _ "replicate m []"] exI [of _ "[]"])
  next
    assume "rx_lang (RRep m n r) []"
    then obtain ws where ws: "m \<le> length ws" "length ws \<le> n"
        "\<forall>w \<in> set ws. w = []" "\<forall>w \<in> set ws. rx_lang r w"
      by auto
    then show "nullable (RRep m n r)"
      using RRep by (cases ws) auto
  qed
qed auto

text \<open>The first character of a concatenation comes from the first nonempty part; the empty parts
  before it can be moved behind it.\<close>

lemma concat_Cons_split:
  assumes "concat ws = c # s"
  obtains us u vs where "ws = us @ (c # u) # vs" "\<forall>w \<in> set us. w = []" "s = u @ concat vs"
  using assms
proof (induction ws arbitrary: thesis)
  case (Cons w ws)
  show ?case
  proof (cases w)
    case Nil
    with Cons.prems(2) obtain us u vs where
      "ws = us @ (c # u) # vs" "\<forall>w \<in> set us. w = []" "s = u @ concat vs"
      using Cons.IH by auto
    with Nil Cons.prems(1) [of "[] # us" u vs] show ?thesis by auto
  next
    case (Cons x u)
    with Cons.prems(2) Cons.prems(1) [of "[]" u ws] show ?thesis by auto
  qed
qed simp

lemma concat_empties: "\<forall>w \<in> set us. w = [] \<Longrightarrow> concat us = []"
  by auto

lemma parts_Cons_iff:
  "(\<exists>ws. c # s = concat ws \<and> P (length ws) \<and> (\<forall>w \<in> set ws. L w)) \<longleftrightarrow>
   (\<exists>u ws. s = u @ concat ws \<and> P (Suc (length ws)) \<and> L (c # u) \<and> (\<forall>w \<in> set ws. L w))"
  (is "?l \<longleftrightarrow> ?r")
proof
  assume ?l
  then obtain ws where ws: "concat ws = c # s" "P (length ws)" "\<forall>w \<in> set ws. L w" by metis
  from ws(1) obtain us u vs where
    split: "ws = us @ (c # u) # vs" "\<forall>w \<in> set us. w = []" "s = u @ concat vs"
    by (rule concat_Cons_split)
  have "s = u @ concat (us @ vs)"
    using split(2,3) by (simp add: concat_empties)
  with ws split(1) show ?r
    by (intro exI [of _ u] exI [of _ "us @ vs"]) auto
next
  assume ?r
  then obtain u ws where "s = u @ concat ws" "P (Suc (length ws))" "L (c # u)" "\<forall>w \<in> set ws. L w"
    by auto
  then show ?l by (intro exI [of _ "(c # u) # ws"]) auto
qed

lemma rderiv_iff: "rx_lang (rderiv c r) s \<longleftrightarrow> rx_lang r (c # s)"
proof (induction r arbitrary: s)
  case (RSeq r q)
  have "rx_lang (RSeq r q) (c # s) \<longleftrightarrow>
      (\<exists>u v. s = u @ v \<and> rx_lang r (c # u) \<and> rx_lang q v) \<or> (rx_lang r [] \<and> rx_lang q (c # s))"
    by (auto simp: Cons_eq_append_conv)
  with RSeq show ?case by (auto simp: nullable_iff)
next
  case (RStar r)
  show ?case
    using parts_Cons_iff [of c s "\<lambda>_. True" "rx_lang r"] by (auto simp: RStar)
next
  case (RRep m n r)
  show ?case
    using parts_Cons_iff [of c s "\<lambda>k. m \<le> k \<and> k \<le> n" "rx_lang r"]
    by (cases n) (auto simp: RRep le_diff_conv conj_assoc)
qed auto

theorem rx_match_iff: "rx_match r s \<longleftrightarrow> rx_lang r s"
  by (induction s arbitrary: r) (simp_all add: nullable_iff rderiv_iff)

section \<open>Reading patterns\<close>

text \<open>The closed forms that the proofs and evaluations use.\<close>

named_theorems rx_lang_simps \<open>closed forms of pattern languages\<close>

lemma rx_lang_class_seq [rx_lang_simps]:
  "rx_lang (RSeq (RCls rs) r) s \<longleftrightarrow> (\<exists>c t. s = c # t \<and> in_class rs c \<and> rx_lang r t)"
proof
  assume "\<exists>c t. s = c # t \<and> in_class rs c \<and> rx_lang r t"
  then obtain c t where "s = [c] @ t" "in_class rs c" "rx_lang r t" by auto
  then show "rx_lang (RSeq (RCls rs) r) s"
    unfolding rx_lang.simps by blast
qed auto

lemma rx_lang_RLit [rx_lang_simps]: "rx_lang (RLit t) s \<longleftrightarrow> s = t"
proof (induction t arbitrary: s)
  case Nil
  then show ?case by (simp add: RLit_def)
next
  case (Cons c t)
  have "rx_lang (RLit (c # t)) s \<longleftrightarrow> (\<exists>d v. s = d # v \<and> d = c \<and> rx_lang (RLit t) v)"
    by (auto simp: RLit_def in_class_def rx_lang_class_seq simp del: rx_lang.simps)
  with Cons show ?case by auto
qed

lemma concat_singletons:
  "(\<exists>ws. s = concat ws \<and> P (length ws) \<and> (\<forall>w \<in> set ws. \<exists>c. w = [c] \<and> Q c)) \<longleftrightarrow>
   P (length s) \<and> (\<forall>c \<in> set s. Q c)" (is "?l \<longleftrightarrow> ?r")
proof
  assume ?l
  then obtain ws where ws: "s = concat ws" "P (length ws)" "\<forall>w \<in> set ws. \<exists>c. w = [c] \<and> Q c"
    by auto
  from ws(3) have "length (concat ws) = length ws \<and> (\<forall>c \<in> set (concat ws). Q c)"
    by (induction ws) auto
  with ws show ?r by simp
next
  assume ?r
  then show ?l by (intro exI [of _ "map (\<lambda>c. [c]) s"]) auto
qed

lemma rx_lang_star_class [rx_lang_simps]:
  "rx_lang (RStar (RCls rs)) s \<longleftrightarrow> (\<forall>c \<in> set s. in_class rs c)"
  using concat_singletons [of s "\<lambda>_. True" "in_class rs"] by simp

lemma rx_lang_rep_class [rx_lang_simps]:
  "rx_lang (RRep m n (RCls rs)) s \<longleftrightarrow>
     m \<le> length s \<and> length s \<le> n \<and> (\<forall>c \<in> set s. in_class rs c)"
  using concat_singletons [of s "\<lambda>k. m \<le> k \<and> k \<le> n" "in_class rs"] by (simp add: conj_assoc)

lemma rx_lang_lit_seq [rx_lang_simps]:
  "rx_lang (RSeq (RLit t) r) s \<longleftrightarrow> (\<exists>v. s = t @ v \<and> rx_lang r v)"
  by (auto simp: rx_lang_RLit)

end
