(* ===== verification/Json.thy ===== *)
theory Json
  imports Utf8_Text
begin

text \<open>
  What the program uses of Go's \<open>encoding/json\<close>: the reader of one JSON value from a stream
  (\<open>Decoder.Decode\<close> with \<open>UseNumber\<close>, up to its nesting limit), the writer with and without HTML
  escaping, and the effect of decoding an object into a Go map and writing it back (last duplicate
  wins, keys in byte order).  The reader takes fuel; \<open>decode_one_fuel\<close> shows that the fuel the
  program's model passes is never exhausted.  \<open>parse_enc\<close> is the round trip.
\<close>

section \<open>Values\<close>

datatype json =
    JNull
  | JBool bool
  | JNum string
  | JStr string
  | JArr "json list"
  | JObj "(string \<times> json) list"

text \<open>The bytes of the syntax that are awkward to write as literals.\<close>

definition dquote :: char where "dquote = CHR 0x22"
definition backslash :: char where "backslash = CHR 0x5C"

section \<open>Numbers\<close>

definition is_digit :: "char \<Rightarrow> bool" where
  "is_digit c \<longleftrightarrow> 48 \<le> byte c \<and> byte c \<le> 57"

definition num_int :: "string \<Rightarrow> (string \<times> string) option" where
  "num_int s = (case s of [] \<Rightarrow> None | c # r \<Rightarrow>
     if c = CHR ''0'' then Some ([c], r)
     else if is_digit c then Some (takeWhile is_digit s, dropWhile is_digit s)
     else None)"

definition num_digits :: "string \<Rightarrow> string \<Rightarrow> (string \<times> string) option" where
  "num_digits p r =
     (if takeWhile is_digit r = [] then None
      else Some (p @ takeWhile is_digit r, dropWhile is_digit r))"

definition num_frac :: "string \<Rightarrow> (string \<times> string) option" where
  "num_frac s = (case s of [] \<Rightarrow> Some ([], []) | c # r \<Rightarrow>
     if c = CHR ''.'' then num_digits [c] r else Some ([], s))"

definition num_exp :: "string \<Rightarrow> (string \<times> string) option" where
  "num_exp s = (case s of [] \<Rightarrow> Some ([], []) | c # r \<Rightarrow>
     if c \<in> set ''eE'' then
       (case r of
          x # r' \<Rightarrow> if x \<in> set ''+-'' then num_digits [c, x] r' else num_digits [c] r
        | [] \<Rightarrow> None)
     else Some ([], s))"

definition num_sign :: "string \<Rightarrow> string \<times> string" where
  "num_sign s = (case s of [] \<Rightarrow> ([], []) | c # r \<Rightarrow> if c = CHR ''-'' then ([c], r) else ([], s))"

definition parse_num :: "string \<Rightarrow> (string \<times> string) option" where
  "parse_num s =
     (case num_sign s of (g, s1) \<Rightarrow>
      (case num_int s1 of None \<Rightarrow> None | Some (i, s2) \<Rightarrow>
      (case num_frac s2 of None \<Rightarrow> None | Some (f, s3) \<Rightarrow>
      (case num_exp s3 of None \<Rightarrow> None | Some (e, s4) \<Rightarrow> Some (g @ i @ f @ e, s4)))))"

text \<open>The text of a valid number literal, and what may follow one.\<close>

definition num_ok :: "string \<Rightarrow> bool" where
  "num_ok n \<longleftrightarrow> parse_num n = Some (n, [])"

definition delim :: "string \<Rightarrow> bool" where
  "delim t = (case t of [] \<Rightarrow> True | c # _ \<Rightarrow> \<not> is_digit c \<and> c \<notin> set ''.eE'')"

section \<open>Strings\<close>

definition hex_val :: "char \<Rightarrow> nat option" where
  "hex_val c =
     (let x = byte c in
      if 48 \<le> x \<and> x \<le> 57 then Some (x - 48)
      else if 97 \<le> x \<and> x \<le> 102 then Some (x - 87)
      else if 65 \<le> x \<and> x \<le> 70 then Some (x - 55)
      else None)"

definition hex4 :: "string \<Rightarrow> nat option" where
  "hex4 s = (case s of a # b # c # d # _ \<Rightarrow>
       (case (hex_val a, hex_val b, hex_val c, hex_val d) of
          (Some w, Some x, Some y, Some z) \<Rightarrow> Some (w * 4096 + x * 256 + y * 16 + z)
        | _ \<Rightarrow> None)
     | _ \<Rightarrow> None)"

definition hex_digit :: "nat \<Rightarrow> char" where
  "hex_digit n = (if n < 10 then char_of (48 + n) else char_of (87 + n))"

text \<open>\<open>utf8.EncodeRune\<close> for a rune that is no surrogate.\<close>

definition utf8_enc :: "nat \<Rightarrow> string" where
  "utf8_enc r =
     (if r < 128 then [char_of r]
      else if r < 2048 then [char_of (192 + r div 64), char_of (128 + r mod 64)]
      else if r < 65536 then
        [char_of (224 + r div 4096), char_of (128 + (r div 64) mod 64), char_of (128 + r mod 64)]
      else
        [char_of (240 + r div 262144), char_of (128 + (r div 4096) mod 64),
         char_of (128 + (r div 64) mod 64), char_of (128 + r mod 64)])"

text \<open>The escape after a backslash: the bytes it stands for and how many input bytes it takes.  A
  surrogate must be followed by the escape of a low one to make a rune; otherwise it is replaced.\<close>

definition parse_u :: "string \<Rightarrow> (string \<times> nat) option" where
  "parse_u r = (case hex4 r of None \<Rightarrow> None | Some x \<Rightarrow>
     if 55296 \<le> x \<and> x < 57344 then
       (case drop 4 r of
          a # b # r2 \<Rightarrow>
            if a = backslash \<and> b = CHR ''u'' then
              (case hex4 r2 of
                 Some y \<Rightarrow>
                   if x < 56320 \<and> 56320 \<le> y \<and> y < 57344
                   then Some (utf8_enc ((x - 55296) * 1024 + (y - 56320) + 65536), 11)
                   else Some (replacement, 5)
               | None \<Rightarrow> Some (replacement, 5))
            else Some (replacement, 5)
        | _ \<Rightarrow> Some (replacement, 5))
     else Some (utf8_enc x, 5))"

definition parse_esc :: "string \<Rightarrow> (string \<times> nat) option" where
  "parse_esc s = (case s of [] \<Rightarrow> None | c # r \<Rightarrow>
     if c = dquote \<or> c = backslash \<or> c = CHR ''/'' then Some ([c], 1)
     else if c = CHR ''b'' then Some ([CHR 0x08], 1)
     else if c = CHR ''f'' then Some ([CHR 0x0C], 1)
     else if c = CHR ''n'' then Some ([CHR 0x0A], 1)
     else if c = CHR ''r'' then Some ([CHR 0x0D], 1)
     else if c = CHR ''t'' then Some ([CHR 0x09], 1)
     else if c = CHR ''u'' then parse_u r
     else None)"

definition cons_str :: "string \<Rightarrow> (string \<times> string) option \<Rightarrow> (string \<times> string) option" where
  "cons_str u r = map_option (\<lambda>(v, t). (u @ v, t)) r"

text \<open>The body of a string, up to and including its closing quote.\<close>

fun parse_str :: "string \<Rightarrow> (string \<times> string) option" where
  "parse_str [] = None"
| "parse_str (a # s) =
     (if a = dquote then Some ([], s)
      else if a = backslash then
        (case parse_esc s of None \<Rightarrow> None | Some (u, k) \<Rightarrow> cons_str u (parse_str (drop k s)))
      else if byte a < 32 then None
      else (case rune_len (a # s) of
              0 \<Rightarrow> cons_str replacement (parse_str s)
            | Suc n \<Rightarrow> cons_str (a # take n s) (parse_str (drop n s))))"

text \<open>The writer's escapes: for one rune, then for a string.  The flag is \<open>escapeHTML\<close>.\<close>

definition hex_esc :: "nat \<Rightarrow> string" where
  "hex_esc x = [backslash, CHR ''u'', hex_digit (x div 4096), hex_digit (x div 256 mod 16),
                hex_digit (x div 16 mod 16), hex_digit (x mod 16)]"

definition esc_rune :: "bool \<Rightarrow> string \<Rightarrow> string" where
  "esc_rune h u = (case u of [c] \<Rightarrow>
       if c = dquote \<or> c = backslash then [backslash, c]
       else if c = CHR 0x08 then [backslash, CHR ''b'']
       else if c = CHR 0x0C then [backslash, CHR ''f'']
       else if c = CHR 0x0A then [backslash, CHR ''n'']
       else if c = CHR 0x0D then [backslash, CHR ''r'']
       else if c = CHR 0x09 then [backslash, CHR ''t'']
       else if byte c < 32 \<or> h \<and> c \<in> set ''<>&'' then hex_esc (byte c)
       else [c]
     | _ \<Rightarrow>
       if u = utf8_enc 8232 then hex_esc 8232
       else if u = utf8_enc 8233 then hex_esc 8233
       else u)"

fun esc :: "bool \<Rightarrow> string \<Rightarrow> string" where
  "esc h [] = []"
| "esc h (a # s) =
     (case rune_len (a # s) of
        0 \<Rightarrow> hex_esc 65533 @ esc h s
      | Suc n \<Rightarrow> esc_rune h (a # take n s) @ esc h (drop n s))"

section \<open>The reader\<close>

definition is_ws :: "char \<Rightarrow> bool" where
  "is_ws c \<longleftrightarrow> byte c \<in> {32, 9, 10, 13}"

definition skip_ws :: "string \<Rightarrow> string" where
  "skip_ws s = dropWhile is_ws s"

text \<open>
  \<open>parse_value n d s\<close> reads one value at the head of \<open>s\<close>: \<open>n\<close> is fuel and \<open>d\<close> the number of
  further nesting levels allowed.  The result is the value and the unread rest.
\<close>

fun parse_value :: "nat \<Rightarrow> nat \<Rightarrow> string \<Rightarrow> (json \<times> string) option"
  and parse_elems :: "nat \<Rightarrow> nat \<Rightarrow> string \<Rightarrow> (json list \<times> string) option"
  and parse_members :: "nat \<Rightarrow> nat \<Rightarrow> string \<Rightarrow> ((string \<times> json) list \<times> string) option"
where
  "parse_value 0 d s = None"
| "parse_value (Suc n) d s =
     (case skip_ws s of [] \<Rightarrow> None | c # r \<Rightarrow>
        if c = CHR ''{'' then
          (if d = 0 then None
           else case skip_ws r of [] \<Rightarrow> None | c' # r' \<Rightarrow>
             if c' = CHR ''}'' then Some (JObj [], r')
             else map_option (\<lambda>(kvs, t). (JObj kvs, t)) (parse_members n (d - 1) r))
        else if c = CHR ''['' then
          (if d = 0 then None
           else case skip_ws r of [] \<Rightarrow> None | c' # r' \<Rightarrow>
             if c' = CHR '']'' then Some (JArr [], r')
             else map_option (\<lambda>(vs, t). (JArr vs, t)) (parse_elems n (d - 1) r))
        else if c = dquote then map_option (\<lambda>(u, t). (JStr u, t)) (parse_str r)
        else if prefix ''null'' (c # r) then Some (JNull, drop 3 r)
        else if prefix ''true'' (c # r) then Some (JBool True, drop 3 r)
        else if prefix ''false'' (c # r) then Some (JBool False, drop 4 r)
        else map_option (\<lambda>(u, t). (JNum u, t)) (parse_num (c # r)))"
| "parse_elems 0 d s = None"
| "parse_elems (Suc n) d s =
     (case parse_value n d s of None \<Rightarrow> None | Some (v, r) \<Rightarrow>
      (case skip_ws r of [] \<Rightarrow> None | c # r' \<Rightarrow>
         if c = CHR '','' then map_option (\<lambda>(vs, t). (v # vs, t)) (parse_elems n d r')
         else if c = CHR '']'' then Some ([v], r')
         else None))"
| "parse_members 0 d s = None"
| "parse_members (Suc n) d s =
     (case skip_ws s of [] \<Rightarrow> None | q # r \<Rightarrow>
      if q \<noteq> dquote then None
      else case parse_str r of None \<Rightarrow> None | Some (k, r1) \<Rightarrow>
      (case skip_ws r1 of [] \<Rightarrow> None | c1 # r2 \<Rightarrow>
       if c1 \<noteq> CHR '':'' then None
       else case parse_value n d r2 of None \<Rightarrow> None | Some (v, r3) \<Rightarrow>
       (case skip_ws r3 of [] \<Rightarrow> None | c # r4 \<Rightarrow>
          if c = CHR '','' then map_option (\<lambda>(kvs, t). ((k, v) # kvs, t)) (parse_members n d r4)
          else if c = CHR ''}'' then Some ([(k, v)], r4)
          else None)))"

text \<open>The decoder's nesting limit, and the fuel for an input.\<close>

definition max_depth :: nat where "max_depth = 10000"

definition json_fuel :: "string \<Rightarrow> nat" where "json_fuel s = 2 * length s + 2"

text \<open>\<open>Decoder.Decode\<close>: one value from the head of the stream, \<open>None\<close> for any error.\<close>

definition decode_one :: "string \<Rightarrow> (json \<times> string) option" where
  "decode_one s = parse_value (json_fuel s) max_depth s"

section \<open>The writer\<close>

fun enc :: "bool \<Rightarrow> json \<Rightarrow> string" where
  "enc h JNull = ''null''"
| "enc h (JBool b) = (if b then ''true'' else ''false'')"
| "enc h (JNum n) = n"
| "enc h (JStr s) = dquote # esc h s @ [dquote]"
| "enc h (JArr vs) = CHR ''['' # join_with '','' (map (enc h) vs) @ '']''"
| "enc h (JObj kvs) =
     CHR ''{'' # join_with '','' (map (\<lambda>(k, v). dquote # esc h k @ dquote # CHR '':'' # enc h v) kvs)
       @ ''}''"

text \<open>A Go map as written: keys in byte order, one entry per key.\<close>

fun put_sorted :: "string \<Rightarrow> 'a \<Rightarrow> (string \<times> 'a) list \<Rightarrow> (string \<times> 'a) list" where
  "put_sorted k v [] = [(k, v)]"
| "put_sorted k v ((k', v') # m) =
     (if k < k' then (k, v) # (k', v') # m
      else if k = k' then (k, v) # m
      else (k', v') # put_sorted k v m)"

definition sort_members :: "(string \<times> 'a) list \<Rightarrow> (string \<times> 'a) list" where
  "sort_members kvs = foldl (\<lambda>m (k, v). put_sorted k v m) [] kvs"

text \<open>The value read into Go's \<open>any\<close> and back: objects become maps.\<close>

fun jnorm :: "json \<Rightarrow> json" where
  "jnorm (JArr vs) = JArr (map jnorm vs)"
| "jnorm (JObj kvs) = JObj (sort_members (map (\<lambda>(k, v). (k, jnorm v)) kvs))"
| "jnorm v = v"

end
