(* ===== verification/Json_Text.thy ===== *)
theory Json_Text
  imports Json
begin

text \<open>
  Lemmas about the lexical layer of \<open>encoding/json\<close>: a number literal read from any input is read
  back from its own text, and a string written by the encoder is read back up to the replacement of
  invalid UTF-8.
\<close>

section \<open>Numbers\<close>

definition starts_in :: "(char \<Rightarrow> bool) \<Rightarrow> string \<Rightarrow> bool" where
  "starts_in P t = (case t of [] \<Rightarrow> False | c # _ \<Rightarrow> P c)"

lemma starts_in_simps [simp]:
  "starts_in P [] = False"
  "starts_in P (c # t) = P c"
  by (simp_all add: starts_in_def)

lemma starts_in_mono: "starts_in P t \<Longrightarrow> (\<And>c. P c \<Longrightarrow> Q c) \<Longrightarrow> starts_in Q t"
  by (cases t) auto

lemma digit_facts [simp]:
  "\<not> is_digit (CHR ''-'')" "\<not> is_digit (CHR ''+'')" "\<not> is_digit (CHR ''.'')"
  "\<not> is_digit (CHR ''e'')" "\<not> is_digit (CHR ''E'')" "is_digit (CHR ''0'')"
  by (simp_all add: is_digit_def byte_def)

lemma takeWhile_digits_append:
  "\<not> starts_in is_digit t \<Longrightarrow> takeWhile is_digit (takeWhile is_digit r @ t) = takeWhile is_digit r"
  by (induction r) (auto simp: starts_in_def split: list.splits)

lemma dropWhile_digits_append:
  "\<not> starts_in is_digit t \<Longrightarrow> dropWhile is_digit (takeWhile is_digit r @ t) = t"
  by (induction r) (auto simp: starts_in_def split: list.splits)

lemmas digits_append = takeWhile_digits_append dropWhile_digits_append

lemma num_digits_restart:
  assumes "num_digits p r = Some (u, s)"
  obtains v where "u = p @ v" "r = v @ s"
    "\<And>t. \<not> starts_in is_digit t \<Longrightarrow> num_digits p (v @ t) = Some (u, t)"
proof
  let ?v = "takeWhile is_digit r"
  show "u = p @ ?v" "r = ?v @ s" using assms by (auto simp: num_digits_def split: if_splits)
  show "num_digits p (?v @ t) = Some (u, t)" if "\<not> starts_in is_digit t" for t
    using assms digits_append [OF that, of r] by (auto simp: num_digits_def split: if_splits)
qed

lemma num_sign_restart:
  assumes "num_sign s = (g, r)"
  shows "s = g @ r" "\<not> starts_in (\<lambda>c. c = CHR ''-'') t \<Longrightarrow> num_sign (g @ t) = (g, t)"
  using assms by (cases s; cases t; auto simp: num_sign_def split: if_splits)+

lemma num_int_restart:
  assumes "num_int s = Some (i, r)"
  shows "s = i @ r" "starts_in is_digit (i @ t)"
    "\<not> starts_in is_digit t \<Longrightarrow> num_int (i @ t) = Some (i, t)"
proof -
  obtain c s' where s: "s = c # s'" using assms by (cases s) (auto simp: num_int_def)
  show "s = i @ r" "starts_in is_digit (i @ t)"
    using assms s by (auto simp: num_int_def split: if_splits)
  assume t: "\<not> starts_in is_digit t"
  show "num_int (i @ t) = Some (i, t)"
  proof (cases "c = CHR ''0''")
    case True
    with assms s show ?thesis by (auto simp: num_int_def)
  next
    case False
    with assms s have "is_digit c" "i = c # takeWhile is_digit s'"
      by (auto simp: num_int_def split: if_splits)
    with False show ?thesis using digits_append [OF t, of s'] by (simp add: num_int_def)
  qed
qed

lemma num_frac_cases:
  assumes "num_frac s = Some (f, r)"
  obtains (none) "f = []" "r = s"
  | (some) v where "f = CHR ''.'' # v" "s = f @ r"
      "\<And>t. \<not> starts_in is_digit t \<Longrightarrow> num_frac (f @ t) = Some (f, t)"
proof (cases "starts_in (\<lambda>c. c = CHR ''.'') s")
  case False
  with assms show ?thesis by (intro none) (auto simp: num_frac_def starts_in_def split: list.splits)
next
  case True
  then obtain s' where s: "s = CHR ''.'' # s'" by (auto simp: starts_in_def split: list.splits)
  with assms have "num_digits ''.'' s' = Some (f, r)" by (simp add: num_frac_def)
  then obtain v where v: "f = ''.'' @ v" "s' = v @ r"
    "\<And>t. \<not> starts_in is_digit t \<Longrightarrow> num_digits ''.'' (v @ t) = Some (f, t)"
    by (rule num_digits_restart) blast
  show ?thesis
  proof (rule some)
    show "f = CHR ''.'' # v" "s = f @ r" using v(1,2) s by simp_all
    show "num_frac (f @ t) = Some (f, t)" if "\<not> starts_in is_digit t" for t
      using v(3) [OF that] v(1) by (simp add: num_frac_def)
  qed
qed

lemma num_exp_cases:
  assumes "num_exp s = Some (e, r)"
  obtains (none) "e = []" "r = s"
  | (some) c v where "e = c # v" "c \<in> set ''eE''" "s = e @ r"
      "\<And>t. \<not> starts_in is_digit t \<Longrightarrow> num_exp (e @ t) = Some (e, t)"
proof (cases "starts_in (\<lambda>c. c \<in> set ''eE'') s")
  case False
  with assms show ?thesis by (intro none) (auto simp: num_exp_def starts_in_def split: list.splits)
next
  case True
  then obtain c s' where s: "s = c # s'" and c: "c \<in> set ''eE''"
    by (auto simp: starts_in_def split: list.splits)
  with assms obtain x s'' where s': "s' = x # s''"
    by (cases s') (auto simp: num_exp_def)
  define p q where "p = (if x \<in> set ''+-'' then [c, x] else [c])"
    and "q = (if x \<in> set ''+-'' then s'' else s')"
  have pq: "num_digits p q = Some (e, r)" "s = p @ q"
    using assms s s' c by (auto simp: num_exp_def p_def q_def split: if_splits)
  from pq(1) obtain v where v: "e = p @ v" "q = v @ r"
    "\<And>t. \<not> starts_in is_digit t \<Longrightarrow> num_digits p (v @ t) = Some (e, t)"
    by (rule num_digits_restart) blast
  show ?thesis
  proof (rule some)
    show "e = c # (tl p @ v)" "c \<in> set ''eE''" "s = e @ r" using v pq c by (auto simp: p_def)
    show "num_exp (e @ t) = Some (e, t)" if t: "\<not> starts_in is_digit t" for t
    proof (cases "x \<in> set ''+-''")
      case True
      with v(3) [OF t] v(1) c show ?thesis by (auto simp: num_exp_def p_def)
    next
      case False
      have "v \<noteq> []" using pq(1) v(1) by (auto simp: num_digits_def split: if_splits)
      with v(2) False s' have "v = x # tl v" by (cases v) (auto simp: q_def)
      with False v(3) [OF t] v(1) c show ?thesis
        by (cases v) (auto simp: num_exp_def p_def)
    qed
  qed
qed

lemma num_frac_stop: "\<not> starts_in (\<lambda>c. is_digit c \<or> c = CHR ''.'') t \<Longrightarrow> num_frac t = Some ([], t)"
  by (cases t) (auto simp: num_frac_def)

lemma num_exp_stop: "\<not> starts_in (\<lambda>c. c \<in> set ''.eE'') t \<Longrightarrow> num_exp t = Some ([], t)"
  by (cases t) (auto simp: num_exp_def)

theorem parse_num_restart:
  assumes "parse_num s = Some (n, r)"
  shows "s = n @ r" "starts_in (\<lambda>c. is_digit c \<or> c = CHR ''-'') n"
    "delim t \<Longrightarrow> parse_num (n @ t) = Some (n, t)"
proof -
  obtain g s1 i s2 f s3 e where parts:
    "num_sign s = (g, s1)" "num_int s1 = Some (i, s2)" "num_frac s2 = Some (f, s3)"
    "num_exp s3 = Some (e, r)" "n = g @ i @ f @ e"
    using assms by (auto simp: parse_num_def split: prod.splits option.splits)
  have split_s: "s2 = f @ s3"
    using parts(3) by (cases rule: num_frac_cases) simp_all
  have split_s': "s3 = e @ r"
    using parts(4) by (cases rule: num_exp_cases) simp_all
  show "s = n @ r"
    using num_sign_restart(1) [OF parts(1)] num_int_restart(1) [OF parts(2)] split_s split_s' parts(5) by simp
  have "g = [] \<or> g = ''-''"
    using parts(1) by (auto simp: num_sign_def split: list.splits if_splits)
  then show "starts_in (\<lambda>c. is_digit c \<or> c = CHR ''-'') n"
    using starts_in_mono [OF num_int_restart(2) [OF parts(2), of "f @ e"]] parts(5) by auto
  assume t: "delim t"
  then have t': "\<not> starts_in is_digit t" "\<not> starts_in (\<lambda>c. c \<in> set ''.eE'') t"
    by (auto simp: delim_def starts_in_def split: list.splits)
  have e: "num_exp (e @ t) = Some (e, t)"
    using parts(4) t' by (cases rule: num_exp_cases) (simp_all add: num_exp_stop)
  have et: "\<not> starts_in (\<lambda>c. is_digit c \<or> c = CHR ''.'') (e @ t)"
    using parts(4)
  proof (cases rule: num_exp_cases)
    case none
    with t' show ?thesis by (cases t) auto
  next
    case (some c v)
    from some(2) have "\<not> is_digit c \<and> c \<noteq> CHR ''.''" by auto
    with some(1) show ?thesis by simp
  qed
  then have et': "\<not> starts_in is_digit (e @ t)"
    by (rule contrapos_nn) (erule starts_in_mono, simp)
  have f: "num_frac (f @ e @ t) = Some (f, e @ t)"
    using parts(3) et et' by (cases rule: num_frac_cases) (simp_all add: num_frac_stop)
  have fet: "\<not> starts_in is_digit (f @ e @ t)"
    using parts(3) et' by (cases rule: num_frac_cases) simp_all
  have i: "num_int (i @ f @ e @ t) = Some (i, f @ e @ t)"
    by (rule num_int_restart(3) [OF parts(2) fet])
  have "\<not> starts_in (\<lambda>c. c = CHR ''-'') (i @ f @ e @ t)"
    using num_int_restart(2) [OF parts(2), of "f @ e @ t"] by (cases "i @ f @ e @ t") auto
  then have "num_sign (g @ i @ f @ e @ t) = (g, i @ f @ e @ t)"
    by (rule num_sign_restart(2) [OF parts(1)])
  with i f e show "parse_num (n @ t) = Some (n, t)"
    by (simp add: parse_num_def parts(5))
qed

lemma parse_num_ok: "parse_num s = Some (n, r) \<Longrightarrow> num_ok n"
  using parse_num_restart(3) [of s n r "[]"] by (simp add: num_ok_def delim_def)

lemma num_ok_parse: "num_ok n \<Longrightarrow> delim t \<Longrightarrow> parse_num (n @ t) = Some (n, t)"
  unfolding num_ok_def by (rule parse_num_restart(3))

lemma num_ok_head:
  assumes "num_ok n"
  shows "\<exists>c m. n = c # m \<and> (is_digit c \<or> c = CHR ''-'')"
proof -
  have "starts_in (\<lambda>c. is_digit c \<or> c = CHR ''-'') n"
    using assms unfolding num_ok_def by (rule parse_num_restart(2))
  then show ?thesis by (cases n) auto
qed

section \<open>Strings\<close>

lemma hex_val_digit: "n < 16 \<Longrightarrow> hex_val (hex_digit n) = Some n"
  by (auto simp: hex_val_def hex_digit_def byte_def Let_def)

lemma hex4_esc:
  assumes "x < 65536"
  shows "hex4 (drop 2 (hex_esc x) @ t) = Some x"
proof -
  have "x div 16 = x div 256 * 16 + x div 16 mod 16" "x div 256 = x div 4096 * 16 + x div 256 mod 16"
    "x = x div 16 * 16 + x mod 16"
    using div_mult_mod_eq [of "x div 16" 16] div_mult_mod_eq [of "x div 256" 16]
      div_mult_mod_eq [of x 16]
    by (simp_all flip: div_mult2_eq)
  then have "x div 4096 * 4096 + x div 256 mod 16 * 256 + x div 16 mod 16 * 16 + x mod 16 = x"
    by linarith
  moreover have "x div 4096 < 16" using assms by simp
  ultimately show ?thesis
    by (simp add: hex4_def hex_esc_def hex_val_digit)
qed

text \<open>Any non-surrogate code point below 65536 written as an escape is read as its encoding.\<close>

lemma parse_esc_hex:
  assumes "x < 65536" and "x < 55296 \<or> 57344 \<le> x"
  shows "parse_esc (tl (hex_esc x) @ t) = Some (utf8_enc x, 5)"
proof -
  have "\<not> (55296 \<le> x \<and> x < 57344)" using assms(2) by linarith
  then have "parse_u (drop 2 (hex_esc x) @ t) = Some (utf8_enc x, 5)"
    unfolding parse_u_def hex4_esc [OF assms(1)] by (simp only: option.case if_False)
  then show ?thesis
    by (simp add: parse_esc_def hex_esc_def dquote_def backslash_def)
qed

lemma parse_str_escape:
  "parse_esc s = Some (u, k) \<Longrightarrow> parse_str (backslash # s) = cons_str u (parse_str (drop k s))"
  by (simp add: dquote_def backslash_def)

lemma parse_str_hex:
  assumes "x < 65536" and "x < 55296 \<or> 57344 \<le> x"
  shows "parse_str (hex_esc x @ t) = cons_str (utf8_enc x) (parse_str t)"
  using parse_str_escape [OF parse_esc_hex [OF assms, of t]] by (simp add: hex_esc_def)

text \<open>One rune written and read back.\<close>

lemma parse_str_plain:
  assumes "rune_len (a # s) = Suc n" "a \<noteq> dquote" "a \<noteq> backslash" "32 \<le> byte a"
  shows "parse_str (a # take n s @ t) = cons_str (a # take n s) (parse_str t)"
proof -
  have "rune_len (a # take n s @ t) = Suc n"
    using assms(1) rune_len_take [of "a # s" t] by simp
  moreover have "take n (take n s @ t) = take n s" "drop n (take n s @ t) = t"
    using rune_len_drop_split [OF assms(1)] by simp_all
  moreover have "parse_str (a # u) = (case rune_len (a # u) of
      0 \<Rightarrow> cons_str replacement (parse_str u)
    | Suc n \<Rightarrow> cons_str (a # take n u) (parse_str (drop n u)))" for u
    using assms(2-4) by simp
  ultimately show ?thesis by (simp only: nat.case)
qed

lemma parse_str_one:
  assumes "byte c < 128"
  shows "parse_str (esc_rune h [c] @ t) = cons_str [c] (parse_str t)"
proof -
  have enc_c: "utf8_enc (byte c) = [c]" using assms by (simp add: utf8_enc_def byte_def)
  have "c \<in> {dquote, backslash, CHR 0x08, CHR 0x0C, CHR 0x0A, CHR 0x0D, CHR 0x09} \<or>
    esc_rune h [c] = hex_esc (byte c) \<or>
    esc_rune h [c] = [c] \<and> c \<noteq> dquote \<and> c \<noteq> backslash \<and> 32 \<le> byte c"
    by (auto simp: esc_rune_def)
  then consider (short) "c \<in> {dquote, backslash, CHR 0x08, CHR 0x0C, CHR 0x0A, CHR 0x0D, CHR 0x09}"
    | (hex) "esc_rune h [c] = hex_esc (byte c)"
    | (plain) "esc_rune h [c] = [c]" "c \<noteq> dquote" "c \<noteq> backslash" "32 \<le> byte c"
    by blast
  then show ?thesis
  proof cases
    case short
    then show ?thesis
      by (auto simp: esc_rune_def parse_esc_def dquote_def backslash_def)
  next
    case hex
    then show ?thesis using parse_str_hex [of "byte c" t] assms by (simp add: enc_c)
  next
    case plain
    then show ?thesis using parse_str_plain [of c "[]" 0 t] assms by simp
  qed
qed

lemma cons_str_append: "cons_str u (cons_str v r) = cons_str (u @ v) r"
  by (cases r) (auto simp: cons_str_def)

lemma replacement_enc: "utf8_enc 65533 = replacement"
  by (simp add: utf8_enc_def replacement_def)

lemma parse_str_rune:
  assumes "rune_len (a # s) = Suc n"
  shows "parse_str (esc_rune h (a # take n s) @ t) = cons_str (a # take n s) (parse_str t)"
proof (cases n)
  case 0
  then have "byte a < 128" using assms rune_len_1_ascii by simp
  with 0 show ?thesis using parse_str_one by simp
next
  case (Suc m)
  let ?u = "a # take n s"
  have "1 < rune_len (a # s)" using assms Suc by simp
  then have high: "128 \<le> byte a"
    using rune_len_high [of "a # s" a] assms by simp
  have two: "take n s \<noteq> []" using rune_len_drop_split [OF assms] Suc by (cases s) auto
  show ?thesis
  proof (cases "?u \<in> {utf8_enc 8232, utf8_enc 8233}")
    case True
    then have "esc_rune h ?u = hex_esc (if ?u = utf8_enc 8232 then 8232 else 8233)"
      using two by (cases "take n s") (auto simp: esc_rune_def utf8_enc_def)
    then show ?thesis
      using True parse_str_hex [of 8232 t] parse_str_hex [of 8233 t] by auto
  next
    case False
    then have "esc_rune h ?u = ?u" using two by (cases "take n s") (auto simp: esc_rune_def)
    moreover have "a \<noteq> dquote" "a \<noteq> backslash" using high by (auto simp: dquote_def backslash_def byte_def)
    ultimately show ?thesis using parse_str_plain [OF assms, of t] high by simp
  qed
qed

text \<open>Round trip of strings: what is read back is what was written, with invalid bytes replaced.\<close>

theorem parse_esc_string: "parse_str (esc h s @ dquote # t) = Some (utf8_fix s, t)"
proof (induction h s rule: esc.induct)
  case (1 h)
  then show ?case by simp
next
  case (2 h a s)
  show ?case
  proof (cases "rune_len (a # s)")
    case 0
    with "2.IH"(1) [OF 0] show ?thesis
      using parse_str_hex [of 65533 "esc h s @ dquote # t"]
      by (simp add: replacement_enc cons_str_def)
  next
    case (Suc n)
    with "2.IH"(2) [OF Suc] show ?thesis
      using parse_str_rune [OF Suc, of h "esc h (drop n s) @ dquote # t"]
      by (simp add: cons_str_def)
  qed
qed

end
