(* ===== verification/Json_Roundtrip.thy ===== *)
theory Json_Roundtrip
  imports Json_Reader
begin

text \<open>
  The two facts about \<open>encoding/json\<close> the snapshot code rests on: the model's fuel is irrelevant
  (\<open>reader_fuel\<close>), and a written value is read back up to UTF-8 repair (\<open>parse_enc\<close>).  Then the
  normal form of values that pass through Go maps: sorting members is idempotent and keeps
  well-formedness and depth.
\<close>

section \<open>Fuel\<close>

text \<open>Each reader agrees with itself at another fuel when the readers it calls do.\<close>

lemma parse_value_cong:
  assumes "\<And>r d'. length r < length s \<Longrightarrow> parse_elems n d' r = parse_elems m d' r"
    and "\<And>r d'. length r < length s \<Longrightarrow> parse_members n d' r = parse_members m d' r"
  shows "parse_value (Suc n) d s = parse_value (Suc m) d s"
proof (cases "skip_ws s")
  case (Cons c r)
  with assms skip_ws_Cons_length [OF Cons] show ?thesis by (simp split: list.split)
qed simp

lemma parse_elems_cong:
  assumes "parse_value n d s = parse_value m d s"
    and "\<And>r. length r < length s \<Longrightarrow> parse_elems n d r = parse_elems m d r"
  shows "parse_elems (Suc n) d s = parse_elems (Suc m) d s"
proof (cases "parse_value m d s")
  case (Some p)
  obtain w r where p: "p = (w, r)" by (cases p)
  with Some have "length r < length s" using reader_facts(1) by blast
  then have "parse_elems n d r' = parse_elems m d r'" if "skip_ws r = c # r'" for c r'
    using skip_ws_Cons_length [OF that] by (intro assms(2)) simp
  with assms(1) Some p show ?thesis by (simp split: list.split)
qed (simp add: assms(1))

text \<open>A member's key, and what follows its colon.\<close>

definition member_key :: "string \<Rightarrow> (string \<times> string) option" where
  "member_key s = (case skip_ws s of
     q # r \<Rightarrow> if q = dquote then
        (case parse_str r of
           Some (k, r1) \<Rightarrow> (case skip_ws r1 of c # r2 \<Rightarrow> if c = CHR '':'' then Some (k, r2) else None | [] \<Rightarrow> None)
         | None \<Rightarrow> None)
      else None
   | [] \<Rightarrow> None)"

lemma member_key_shorter:
  assumes "member_key s = Some (k, r)"
  shows "length r < length s"
proof -
  obtain q r1 where "skip_ws s = dquote # q" and "parse_str q = Some (k, r1)" and "skip_ws r1 = CHR '':'' # r"
    using assms by (auto simp: member_key_def split: list.splits option.splits if_splits)
  from skip_ws_Cons_length [OF this(1)] parse_str_facts [OF this(2)] skip_ws_Cons_length [OF this(3)]
  show ?thesis by simp
qed

lemma parse_members_key:
  "parse_members (Suc n) d s = (case member_key s of
     Some (k, r) \<Rightarrow> (case parse_value n d r of
        Some (v, t) \<Rightarrow> (case skip_ws t of
           c # t' \<Rightarrow> if c = CHR '','' then map_option (\<lambda>(kvs, t). ((k, v) # kvs, t)) (parse_members n d t')
                     else if c = CHR ''}'' then Some ([(k, v)], t') else None
         | [] \<Rightarrow> None)
      | None \<Rightarrow> None)
   | None \<Rightarrow> None)"
proof (cases "skip_ws s")
  case (Cons q r)
  then show ?thesis
    by (cases "parse_str r") (auto simp: member_key_def simp del: parse_value.simps split: list.split)
qed (simp add: member_key_def)

lemma parse_members_cong:
  assumes "\<And>r. length r < length s \<Longrightarrow> parse_value n d r = parse_value m d r"
    and "\<And>r. length r < length s \<Longrightarrow> parse_members n d r = parse_members m d r"
  shows "parse_members (Suc n) d s = parse_members (Suc m) d s"
proof (cases "member_key s")
  case (Some p)
  obtain k r where p: "p = (k, r)" by (cases p)
  note short = member_key_shorter [OF Some [unfolded p]]
  show ?thesis
  proof (cases "parse_value m d r")
    case w: (Some q)
    obtain v t where q: "q = (v, t)" by (cases q)
    with w have "length t < length s" using reader_facts(1) [of m d r v t] short by simp
    then have "parse_members n d t' = parse_members m d t'" if "skip_ws t = c # t'" for c t'
      using skip_ws_Cons_length [OF that] by (intro assms(2)) simp
    with assms(1) [OF short] Some p w q show ?thesis by (simp add: parse_members_key split: list.split del: parse_members.simps)
  qed (simp add: parse_members_key Some p assms(1) [OF short] del: parse_members.simps)
qed (simp add: parse_members_key del: parse_members.simps)

lemma reader_fuel:
  "2 * length s + 1 \<le> n \<Longrightarrow> 2 * length s + 1 \<le> m \<Longrightarrow> parse_value n d s = parse_value m d s"
  "2 * length s + 2 \<le> n \<Longrightarrow> 2 * length s + 2 \<le> m \<Longrightarrow> parse_elems n d s = parse_elems m d s"
  "2 * length s + 2 \<le> n \<Longrightarrow> 2 * length s + 2 \<le> m \<Longrightarrow> parse_members n d s = parse_members m d s"
proof (induction n arbitrary: m d s)
  case (Suc n)
  {
    case 1
    then obtain m' where m: "m = Suc m'" by (cases m) auto
    show ?case unfolding m by (rule parse_value_cong; rule Suc.IH) (use 1 m in simp_all)
  next
    case 2
    then obtain m' where m: "m = Suc m'" by (cases m) auto
    show ?case unfolding m by (rule parse_elems_cong; rule Suc.IH) (use 2 m in simp_all)
  next
    case 3
    then obtain m' where m: "m = Suc m'" by (cases m) auto
    show ?case unfolding m by (rule parse_members_cong; rule Suc.IH) (use 3 m in simp_all)
  }
qed simp_all

text \<open>The fuel the model passes is enough: any larger amount gives the same answer.\<close>

theorem decode_one_fuel: "json_fuel s \<le> n \<Longrightarrow> parse_value n max_depth s = decode_one s"
  unfolding decode_one_def json_fuel_def by (rule reader_fuel(1)) simp_all

section \<open>Round trip\<close>

text \<open>What the reader makes of a written value: the invalid bytes of its strings replaced.\<close>

fun jfix :: "json \<Rightarrow> json" where
  "jfix (JStr s) = JStr (utf8_fix s)"
| "jfix (JArr vs) = JArr (map jfix vs)"
| "jfix (JObj kvs) = JObj (map (\<lambda>(k, v). (utf8_fix k, jfix v)) kvs)"
| "jfix v = v"

fun nums_ok :: "json \<Rightarrow> bool" where
  "nums_ok (JNum n) = num_ok n"
| "nums_ok (JArr vs) = (\<forall>v \<in> set vs. nums_ok v)"
| "nums_ok (JObj kvs) = (\<forall>(k, v) \<in> set kvs. nums_ok v)"
| "nums_ok v = True"

lemma is_ws_simps [simp]:
  "\<not> is_ws dquote" "\<not> is_ws (CHR ''{'')" "\<not> is_ws (CHR ''['')" "\<not> is_ws (CHR ''}'')"
  "\<not> is_ws (CHR '']'')" "\<not> is_ws (CHR '','')" "\<not> is_ws (CHR '':'')" "\<not> is_ws (CHR ''n'')"
  "\<not> is_ws (CHR ''t'')" "\<not> is_ws (CHR ''f'')" "\<not> is_ws (CHR ''-'')"
  by (simp_all add: is_ws_def dquote_def byte_def)

lemma digit_not_ws [simp]: "is_digit c \<Longrightarrow> \<not> is_ws c"
  by (auto simp: is_digit_def is_ws_def)

lemma skip_ws_simps [simp]:
  "skip_ws [] = []"
  "\<not> is_ws c \<Longrightarrow> skip_ws (c # s) = c # s"
  by (simp_all add: skip_ws_def)

lemma delim_simps [simp]:
  "delim []" "delim (CHR '','' # t)" "delim (CHR '']'' # t)" "delim (CHR ''}'' # t)"
  by (simp_all add: delim_def is_digit_def byte_def)

section \<open>Laid out containers\<close>

text \<open>
  The compact and the indented writer lay containers out alike: \<open>w\<close> writes the values, \<open>g\<close> is the white space
  after an opening bracket and a comma, \<open>e\<close> the one before the closing bracket.
\<close>

abbreviation blank :: "string \<Rightarrow> bool" where
  "blank u \<equiv> list_all is_ws u"

lemma skip_ws_blank [simp]: "blank u \<Longrightarrow> skip_ws (u @ s) = skip_ws s"
  by (induction u) (simp_all add: skip_ws_def)

lemma delim_blank [simp]:
  assumes "blank u" and "delim s"
  shows "delim (u @ s)"
proof (cases u)
  case (Cons c r)
  with assms(1) have "is_ws c" by simp
  moreover from this have "\<not> is_digit c" using digit_not_ws by blast
  ultimately show ?thesis using Cons by (auto simp: delim_def is_ws_def byte_def)
qed (simp add: assms(2))

lemma parse_value_skip: "skip_ws s = skip_ws t \<Longrightarrow> parse_value n d s = parse_value n d t"
  by (cases n) simp_all

lemma parse_elems_skip: "skip_ws s = skip_ws t \<Longrightarrow> parse_elems n d s = parse_elems n d t"
  by (cases n) (simp_all add: parse_value_skip [of s t])

lemma parse_members_skip: "skip_ws s = skip_ws t \<Longrightarrow> parse_members n d s = parse_members n d t"
  by (cases n) simp_all

lemma parse_blank [simp]:
  assumes "blank u"
  shows "parse_value n d (u @ s) = parse_value n d s" "parse_elems n d (u @ s) = parse_elems n d s"
    "parse_members n d (u @ s) = parse_members n d s"
  using assms by (auto intro: parse_value_skip parse_elems_skip parse_members_skip)

text \<open>A value written by \<open>w\<close> is read back wherever it may end.\<close>

definition reads :: "nat \<Rightarrow> (json \<Rightarrow> string) \<Rightarrow> json \<Rightarrow> bool" where
  "reads d w v \<longleftrightarrow> (\<forall>n t. delim t \<longrightarrow> 2 * length (w v @ t) + 1 \<le> n \<longrightarrow>
     parse_value n d (w v @ t) = Some (jfix v, t))"

lemma readsD:
  "reads d w v \<Longrightarrow> delim t \<Longrightarrow> 2 * length (w v @ t) + 1 \<le> n \<Longrightarrow>
     parse_value n d (w v @ t) = Some (jfix v, t)"
  by (simp add: reads_def)

lemma parse_elems_written:
  assumes "vs \<noteq> []" and "\<forall>v \<in> set vs. reads d w v" and "blank g" and "blank e"
    and "2 * length (join_with (CHR '','' # g) (map w vs) @ e @ CHR '']'' # t) + 2 \<le> n"
  shows "parse_elems n d (join_with (CHR '','' # g) (map w vs) @ e @ CHR '']'' # t) = Some (map jfix vs, t)"
  using assms(1,2,5)
proof (induction vs arbitrary: n)
  case (Cons v vs)
  then obtain n' where n: "n = Suc n'" by (cases n) auto
  from Cons.prems have v: "reads d w v" by simp
  show ?case
  proof (cases "vs = []")
    case True
    have "parse_value n' d (w v @ e @ CHR '']'' # t) = Some (jfix v, e @ CHR '']'' # t)"
      using Cons.prems(3) True n assms(4) by (intro readsD [OF v]) simp_all
    then show ?thesis using assms(4) by (simp add: n True)
  next
    case False
    let ?r = "join_with (CHR '','' # g) (map w vs) @ e @ CHR '']'' # t"
    have "parse_value n' d (w v @ CHR '','' # g @ ?r) = Some (jfix v, CHR '','' # g @ ?r)"
      using Cons.prems(3) False n by (intro readsD [OF v]) (simp_all add: join_with_Cons)
    moreover have "parse_elems n' d ?r = Some (map jfix vs, t)"
      using Cons.prems False n by (intro Cons.IH) (simp_all add: join_with_Cons)
    ultimately show ?thesis using False assms(3) by (simp add: n join_with_Cons)
  qed
qed simp

definition written_member :: "bool \<Rightarrow> string \<Rightarrow> (json \<Rightarrow> string) \<Rightarrow> string \<times> json \<Rightarrow> string" where
  "written_member h g w = (\<lambda>(k, v). dquote # esc h k @ dquote # CHR '':'' # g @ w v)"

lemma parse_members_step:
  assumes "parse_value n d (w v @ t) = Some (jfix v, t)" and "blank g" and "skip_ws t = c # r"
  shows "parse_members (Suc n) d (written_member h g w (k, v) @ t) =
    (if c = CHR '','' then map_option (\<lambda>(kvs, t). ((utf8_fix k, jfix v) # kvs, t)) (parse_members n d r)
     else if c = CHR ''}'' then Some ([(utf8_fix k, jfix v)], r) else None)"
  using assms parse_esc_string [of h k "CHR '':'' # g @ w v @ t"]
  by (simp add: written_member_def)

lemma parse_members_written:
  assumes "kvs \<noteq> []" and "\<forall>(k, v) \<in> set kvs. reads d w v" and "blank g" and "blank e" and "blank g'"
    and "2 * length (join_with (CHR '','' # g) (map (written_member h g' w) kvs) @ e @ CHR ''}'' # t) + 2 \<le> n"
  shows "parse_members n d (join_with (CHR '','' # g) (map (written_member h g' w) kvs) @ e @ CHR ''}'' # t) =
    Some (map (\<lambda>(k, v). (utf8_fix k, jfix v)) kvs, t)"
  using assms(1,2,6)
proof (induction kvs arbitrary: n)
  case (Cons kv kvs)
  obtain k v where kv: "kv = (k, v)" by (cases kv)
  from Cons.prems obtain n' where n: "n = Suc n'" by (cases n) auto
  from Cons.prems kv have v: "reads d w v" by simp
  show ?case
  proof (cases "kvs = []")
    case True
    have "parse_value n' d (w v @ e @ CHR ''}'' # t) = Some (jfix v, e @ CHR ''}'' # t)"
      using Cons.prems(3) True n kv assms(4) by (intro readsD [OF v]) (simp_all add: written_member_def)
    then show ?thesis
      using True assms(4,5) parse_members_step [of n' d w v "e @ CHR ''}'' # t" g' _ _ h k] by (simp add: n kv)
  next
    case False
    let ?r = "join_with (CHR '','' # g) (map (written_member h g' w) kvs) @ e @ CHR ''}'' # t"
    have "parse_value n' d (w v @ CHR '','' # g @ ?r) = Some (jfix v, CHR '','' # g @ ?r)"
      using Cons.prems(3) False n kv by (intro readsD [OF v]) (simp_all add: join_with_Cons written_member_def)
    moreover have "parse_members n' d ?r = Some (map (\<lambda>(k, v). (utf8_fix k, jfix v)) kvs, t)"
      using Cons.prems False n by (intro Cons.IH) (simp_all add: join_with_Cons)
    ultimately show ?thesis
      using False assms(3) parse_members_step [of n' d w v "CHR '','' # g @ ?r" g' _ _ h k] assms(5)
      by (simp add: n kv join_with_Cons)
  qed
qed simp

text \<open>An array and an object, empty or not.\<close>

lemma parse_array_written:
  assumes "0 < d" and "\<forall>v \<in> set vs. reads (d - 1) w v \<and> (\<exists>c s. w v = c # s \<and> \<not> is_ws c \<and> c \<noteq> CHR '']'')"
    and "blank g" and "blank e"
    and "2 * length (CHR ''['' # g @ join_with (CHR '','' # g) (map w vs) @ e @ CHR '']'' # t) + 1 \<le> n"
  shows "parse_value n d (CHR ''['' # g @ join_with (CHR '','' # g) (map w vs) @ e @ CHR '']'' # t) =
    Some (JArr (map jfix vs), t)"
proof -
  let ?s = "join_with (CHR '','' # g) (map w vs) @ e @ CHR '']'' # t"
  obtain n' where n: "n = Suc n'" using assms(5) by (cases n) auto
  show ?thesis
  proof (cases vs)
    case Nil
    with assms show ?thesis by (simp add: n)
  next
    case (Cons v vs')
    have "parse_elems n' (d - 1) ?s = Some (map jfix vs, t)"
      using assms Cons n by (intro parse_elems_written) auto
    moreover obtain c r where "?s = c # r" "\<not> is_ws c" "c \<noteq> CHR '']''"
      using assms(2) Cons by (cases vs') (auto simp: join_with_Cons)
    ultimately show ?thesis using assms(1,3) by (simp add: n)
  qed
qed

lemma parse_object_written:
  assumes "0 < d" and "\<forall>(k, v) \<in> set kvs. reads (d - 1) w v" and "blank g" and "blank e" and "blank g'"
    and "2 * length (CHR ''{'' # g @ join_with (CHR '','' # g) (map (written_member h g' w) kvs) @ e @ CHR ''}'' # t) + 1 \<le> n"
  shows "parse_value n d (CHR ''{'' # g @ join_with (CHR '','' # g) (map (written_member h g' w) kvs) @ e @ CHR ''}'' # t) =
    Some (JObj (map (\<lambda>(k, v). (utf8_fix k, jfix v)) kvs), t)"
proof -
  let ?s = "join_with (CHR '','' # g) (map (written_member h g' w) kvs) @ e @ CHR ''}'' # t"
  obtain n' where n: "n = Suc n'" using assms(6) by (cases n) auto
  show ?thesis
  proof (cases kvs)
    case Nil
    with assms show ?thesis by (simp add: n)
  next
    case (Cons kv kvs')
    have "parse_members n' (d - 1) ?s = Some (map (\<lambda>(k, v). (utf8_fix k, jfix v)) kvs, t)"
      using assms Cons n by (intro parse_members_written) auto
    moreover obtain r where "?s = dquote # r"
      using Cons by (cases kvs'; cases kv) (auto simp: join_with_Cons written_member_def)
    moreover have "dquote \<noteq> CHR ''}''" by (simp add: dquote_def)
    ultimately show ?thesis using assms(1,3) by (simp add: n)
  qed
qed

section \<open>The compact writer\<close>

lemma enc_head:
  assumes "nums_ok v"
  shows "\<exists>c s. enc h v = c # s \<and> \<not> is_ws c \<and> c \<noteq> CHR '']'' \<and> c \<noteq> CHR ''}''"
proof (cases v)
  case (JNum n)
  with assms have "num_ok n" by simp
  then obtain c m where "n = c # m" "is_digit c \<or> c = CHR ''-''"
    using num_ok_head [of n] by blast
  moreover have "\<not> is_digit (CHR '']'')" "\<not> is_digit (CHR ''}'')"
    by (simp_all add: is_digit_def byte_def)
  ultimately show ?thesis using JNum by auto
qed (auto simp: dquote_def [THEN arg_cong, of "\<lambda>c. c \<noteq> CHR ''}''"] dquote_def [THEN arg_cong, of "\<lambda>c. c \<noteq> CHR '']''"])

definition enc_member :: "bool \<Rightarrow> string \<times> json \<Rightarrow> string" where
  "enc_member h = (\<lambda>(k, v). dquote # esc h k @ dquote # CHR '':'' # enc h v)"

lemma enc_member_written: "enc_member h = written_member h [] (enc h)"
  by (simp add: enc_member_def written_member_def)

text \<open>The round trip, for both settings of \<open>escapeHTML\<close>.\<close>

lemma enc_obj: "enc h (JObj kvs) = CHR ''{'' # join_with '','' (map (enc_member h) kvs) @ ''}''"
  by (simp add: enc_member_def)

declare enc.simps(6) [simp del]

lemma lit_prefix [simp]:
  "prefix ''null'' (''null'' @ t)" "prefix ''true'' (''true'' @ t)" "prefix ''false'' (''false'' @ t)"
  by (rule prefixI, rule refl)+

theorem parse_enc:
  "nums_ok v \<Longrightarrow> json_depth v \<le> d \<Longrightarrow> delim t \<Longrightarrow> 2 * length (enc h v @ t) + 1 \<le> n \<Longrightarrow>
     parse_value n d (enc h v @ t) = Some (jfix v, t)"
proof (induction v arbitrary: n d t)
  case (JNum m)
  then obtain n' where n: "n = Suc n'" by (cases n) auto
  from JNum have ok: "num_ok m" by simp
  then obtain c r where m: "m = c # r" "is_digit c \<or> c = CHR ''-''" using num_ok_head [of m] by blast
  have "\<not> is_digit dquote" "\<not> is_digit (CHR ''{'')" "\<not> is_digit (CHR ''['')" "\<not> is_digit (CHR ''n'')"
    "\<not> is_digit (CHR ''t'')" "\<not> is_digit (CHR ''f'')"
    by (simp_all add: is_digit_def byte_def dquote_def)
  then have c: "c \<notin> {dquote, CHR ''{'', CHR ''['', CHR ''n'', CHR ''t'', CHR ''f''}"
    using m(2) by (auto simp: dquote_def)
  have "\<not> is_ws c" using m(2) by auto
  with c m(1) num_ok_parse [OF ok JNum.prems(3)] show ?case by (auto simp: n)
next
  case (JStr s)
  then obtain n' where n: "n = Suc n'" by (cases n) auto
  have "dquote \<notin> {CHR ''{'', CHR ''[''}" by (simp add: dquote_def)
  then show ?case using parse_esc_string [of h s t] by (simp add: n)
next
  case (JArr vs)
  from JArr.prems(2) have d: "0 < d" "\<forall>v \<in> set vs. json_depth v \<le> d - 1" by (simp_all add: json_depth_le)
  have "\<forall>v \<in> set vs. reads (d - 1) (enc h) v" using JArr.IH JArr.prems(1) d(2) by (simp add: reads_def)
  then show ?case
    using parse_array_written [of d vs "enc h" "[]" "[]" t n] enc_head [of _ h] JArr.prems(1,4) d(1) by fastforce
next
  case (JObj kvs)
  from JObj.prems(2) have d: "0 < d" "\<forall>(k, v) \<in> set kvs. json_depth v \<le> d - 1" by (simp_all add: json_depth_le)
  have "reads (d - 1) (enc h) v" if "(k, v) \<in> set kvs" for k v
    using JObj.IH [OF that, of v] JObj.prems(1) d(2) that by (force simp: reads_def snds.simps)
  then have "\<forall>(k, v) \<in> set kvs. reads (d - 1) (enc h) v" by blast
  then show ?case
    using parse_object_written [of d kvs "enc h" "[]" "[]" "[]" h t n] JObj.prems(4) d(1)
    by (simp add: enc_obj enc_member_written)
next
  case JNull
  then obtain n' where n: "n = Suc n'" by (cases n) auto
  show ?case by (simp add: n dquote_def)
next
  case (JBool b)
  then obtain n' where n: "n = Suc n'" by (cases n) auto
  show ?case by (simp add: n dquote_def)
qed

section \<open>Normal form\<close>

abbreviation keys_sorted :: "(string \<times> 'a) list \<Rightarrow> bool" where
  "keys_sorted m \<equiv> sorted_wrt (<) (map fst m)"

lemma put_sorted_keys: "fst ` set (put_sorted k v m) = insert k (fst ` set m)"
  by (induction k v m rule: put_sorted.induct) (simp_all add: insert_commute split: if_split)

lemma put_sorted_set: "set (put_sorted k v m) \<subseteq> insert (k, v) (set m)"
  by (induction k v m rule: put_sorted.induct) (auto split: if_splits)

lemma put_sorted_sorted: "keys_sorted m \<Longrightarrow> keys_sorted (put_sorted k v m)"
proof (induction m)
  case (Cons p m)
  obtain k' v' where p: "p = (k', v')" by (cases p)
  with Cons.prems have lt: "\<forall>x \<in> fst ` set m. k' < x" by auto
  show ?case
  proof (cases "k < k' \<or> k = k'")
    case True
    with lt Cons.prems p show ?thesis by auto
  next
    case False
    with lt have "\<forall>x \<in> fst ` set (put_sorted k v m). k' < x" by (auto simp: put_sorted_keys)
    with False Cons p show ?thesis by auto
  qed
qed simp

lemma put_sorted_last:
  "\<forall>x \<in> fst ` set m. x < k \<Longrightarrow> put_sorted k v m = m @ [(k, v)]"
  by (induction k v m rule: put_sorted.induct) (auto dest: order.asym)

lemma put_sorted_map_of: "keys_sorted m \<Longrightarrow> map_of (put_sorted k v m) = (map_of m)(k \<mapsto> v)"
proof (induction m)
  case (Cons p m)
  obtain k' v' where p: "p = (k', v')" by (cases p)
  then have "map_of m k' = None" using Cons.prems by (auto simp: map_of_eq_None_iff)
  with Cons p show ?case by (auto simp: fun_eq_iff)
qed simp

lemma sort_members_snoc: "sort_members (m @ [(k, v)]) = put_sorted k v (sort_members m)"
  by (simp add: sort_members_def)

lemma sort_members_sorted: "keys_sorted (sort_members m)"
  by (induction m rule: rev_induct) (auto simp: sort_members_snoc put_sorted_sorted sort_members_def [of "[]"])

lemma sort_members_set: "set (sort_members m) \<subseteq> set m"
proof (induction m rule: rev_induct)
  case (snoc p m)
  then show ?case using put_sorted_set by (cases p) (fastforce simp: sort_members_snoc)
qed (simp add: sort_members_def)

lemma sort_members_keys: "fst ` set (sort_members m) = fst ` set m"
proof (induction m rule: rev_induct)
  case (snoc p m)
  then show ?case by (cases p) (simp add: sort_members_snoc put_sorted_keys)
qed (simp add: sort_members_def)

lemma sort_members_id: "keys_sorted m \<Longrightarrow> sort_members m = m"
proof (induction m rule: rev_induct)
  case (snoc p m)
  obtain k v where p: "p = (k, v)" by (cases p)
  from snoc.prems have "keys_sorted m" and "\<forall>x \<in> fst ` set m. x < k"
    by (auto simp: sorted_wrt_append p)
  with snoc.IH show ?case by (simp add: p sort_members_snoc put_sorted_last)
qed (simp add: sort_members_def)

text \<open>Of several members with one key the last is kept.\<close>

lemma sort_members_map_of: "map_of (sort_members m) = map_of (rev m)"
proof (induction m rule: rev_induct)
  case (snoc p m)
  then show ?case
    by (cases p) (simp add: sort_members_snoc put_sorted_map_of sort_members_sorted)
qed (simp add: sort_members_def)

lemma jnorm_canon: "jnorm (jnorm v) = jnorm v"
proof (induction v)
  case (JObj kvs)
  let ?m = "map (\<lambda>(k, v). (k, jnorm v)) kvs"
  have "(case p of (k, v) \<Rightarrow> (k, jnorm v)) = p" if "p \<in> set (sort_members ?m)" for p
  proof -
    have "p \<in> set ?m" using that sort_members_set by blast
    then obtain k v where "(k, v) \<in> set kvs" "p = (k, jnorm v)" by auto
    with JObj.IH [of "(k, v)" v] show ?thesis by (simp add: snds.simps)
  qed
  then have "map (\<lambda>(k, v). (k, jnorm v)) (sort_members ?m) = sort_members ?m"
    by (simp add: map_idI)
  then show ?case by (simp add: sort_members_id sort_members_sorted)
qed simp_all

lemma jnorm_wf: "json_wf v \<Longrightarrow> json_wf (jnorm v)"
proof (induction v)
  case (JObj kvs)
  have "utf8_valid k \<and> json_wf w" if "(k, w) \<in> set (sort_members (map (\<lambda>(k, v). (k, jnorm v)) kvs))" for k w
  proof -
    have "(k, w) \<in> set (map (\<lambda>(k, v). (k, jnorm v)) kvs)"
      using that sort_members_set [of "map (\<lambda>(k, v). (k, jnorm v)) kvs"] by (rule subsetD [rotated])
    then obtain v where "(k, v) \<in> set kvs" "w = jnorm v" by auto
    with JObj.IH [of "(k, v)" v] JObj.prems show ?thesis by (auto simp: snds.simps)
  qed
  then show ?case by auto
qed auto

lemma jnorm_depth: "json_depth v \<le> n \<Longrightarrow> json_depth (jnorm v) \<le> n"
proof (induction v arbitrary: n)
  case (JArr vs)
  then show ?case by (auto simp: json_depth_le)
next
  case (JObj kvs)
  have "json_depth w \<le> n - 1" if "(k, w) \<in> set (sort_members (map (\<lambda>(k, v). (k, jnorm v)) kvs))" for k w
  proof -
    have "(k, w) \<in> set (map (\<lambda>(k, v). (k, jnorm v)) kvs)"
      using that sort_members_set [of "map (\<lambda>(k, v). (k, jnorm v)) kvs"] by (rule subsetD [rotated])
    then obtain v where "(k, v) \<in> set kvs" "w = jnorm v" by auto
    with JObj.IH [of "(k, v)" v "n - 1"] JObj.prems show ?thesis by (auto simp: snds.simps json_depth_le)
  qed
  with JObj.prems show ?case by (auto simp: json_depth_le)
qed simp_all

lemma json_wf_nums: "json_wf v \<Longrightarrow> nums_ok v"
  by (induction v) (auto simp: snds.simps)

lemma json_wf_fix: "json_wf v \<Longrightarrow> jfix v = v"
proof (induction v)
  case (JArr vs)
  then show ?case by (simp add: map_idI)
next
  case (JObj kvs)
  then show ?case by (auto simp: utf8_fix_id snds.simps intro!: map_idI)
qed (simp_all add: utf8_fix_id)

text \<open>A well-formed value within the nesting limit is read back exactly from what was written.\<close>

theorem decode_enc:
  assumes "json_wf v" and "json_depth v \<le> max_depth" and "delim t"
  shows "decode_one (enc h v @ t) = Some (v, t)"
  unfolding decode_one_def
  using parse_enc [OF json_wf_nums [OF assms(1)] assms(2,3), of h "json_fuel (enc h v @ t)"]
    json_wf_fix [OF assms(1)]
  by (simp add: json_fuel_def del: parse_value.simps)

end
