(* ===== verification/Go_Time.thy ===== *)
theory Go_Time
  imports Prelude
begin

text \<open>
  What the program uses of Go's \<open>time\<close> package: instants with a location and an optional monotonic
  reading, \<open>IsZero\<close>, \<open>Equal\<close>, \<open>UTC\<close>, the RFC 3339 text with nanoseconds that the SQLite store writes
  (\<open>formatTime\<close>) and reads (\<open>parseStoredTime\<close>), over the proleptic Gregorian calendar.  The round trip
  holds for the years 0 to 9999 (\<open>parse_format\<close>).
\<close>

section \<open>Instants\<close>

datatype location = UTC | LocalZone | FixedZone int

text \<open>\<open>t_sec\<close> counts seconds from 0001-01-01T00:00:00Z; \<open>t_nsec\<close> is below \<open>10^9\<close>.\<close>

record gotime =
  t_sec :: int
  t_nsec :: nat
  t_loc :: location
  t_mono :: "int option"

definition time_wf :: "gotime \<Rightarrow> bool" where
  "time_wf t \<longleftrightarrow> t_nsec t < 1000000000"

definition time_IsZero :: "gotime \<Rightarrow> bool" where
  "time_IsZero t \<longleftrightarrow> t_sec t = 0 \<and> t_nsec t = 0"

definition time_UTC :: "gotime \<Rightarrow> gotime" where
  "time_UTC t = t\<lparr>t_loc := UTC, t_mono := None\<rparr>"

definition time_Equal :: "gotime \<Rightarrow> gotime \<Rightarrow> bool" where
  "time_Equal t u =
     (case (t_mono t, t_mono u) of
        (Some a, Some b) \<Rightarrow> a = b
      | _ \<Rightarrow> t_sec t = t_sec u \<and> t_nsec t = t_nsec u)"

definition zero_time :: gotime where
  "zero_time = \<lparr>t_sec = 0, t_nsec = 0, t_loc = UTC, t_mono = None\<rparr>"

section \<open>Calendar\<close>

definition leap :: "int \<Rightarrow> bool" where
  "leap y \<longleftrightarrow> y mod 4 = 0 \<and> (y mod 100 \<noteq> 0 \<or> y mod 400 = 0)"

definition month_lens :: "int \<Rightarrow> int list" where
  "month_lens y = [31, if leap y then 29 else 28, 31, 30, 31, 30, 31, 31, 30, 31, 30, 31]"

text \<open>Days from 0001-01-01 to the first day of a year, and to a date.\<close>

definition days_before_year :: "int \<Rightarrow> int" where
  "days_before_year y = 365 * (y - 1) + (y - 1) div 4 - (y - 1) div 100 + (y - 1) div 400"

definition days_of_date :: "int \<Rightarrow> nat \<Rightarrow> int \<Rightarrow> int" where
  "days_of_date y m d = days_before_year y + sum_list (take (m - 1) (month_lens y)) + (d - 1)"

text \<open>Year and day of the year of a day number, through cycles of 400, 100, 4 and 1 years.\<close>

definition year_day :: "int \<Rightarrow> int \<times> int" where
  "year_day n =
     (let a = n div 146097; r = n mod 146097;
          c = min 3 (r div 36524); r2 = r - 36524 * c;
          b = r2 div 1461; r3 = r2 mod 1461;
          e = min 3 (r3 div 365)
      in (400 * a + 100 * c + 4 * b + e + 1, r3 - 365 * e))"

fun find_month :: "nat \<Rightarrow> int list \<Rightarrow> int \<Rightarrow> nat \<times> int" where
  "find_month m [] d = (m, d + 1)"
| "find_month m (l # ls) d = (if d < l then (m, d + 1) else find_month (m + 1) ls (d - l))"

definition date_of_days :: "int \<Rightarrow> int \<times> nat \<times> int" where
  "date_of_days n = (case year_day n of (y, d) \<Rightarrow> (y, find_month 1 (month_lens y) d))"

text \<open>Division with the quotient capped at 3: the remainder is below the divisor, or one more than
  that when the capped quotient is 3.\<close>

lemma capped_div:
  fixes r k :: int
  assumes "0 \<le> r" "r < 4 * k + 1" "0 < k" "c = min 3 (r div k)"
  shows "0 \<le> c" "c \<le> 3" "0 \<le> r - k * c" "r - k * c < (if c = 3 then k + 1 else k)"
proof -
  have q: "r = k * (r div k) + r mod k" "0 \<le> r mod k" "r mod k < k" "0 \<le> r div k"
    using assms(1,3) by (simp_all add: pos_imp_zdiv_nonneg_iff)
  show "0 \<le> c" "c \<le> 3" using q(4) assms(4) by simp_all
  show "0 \<le> r - k * c" "r - k * c < (if c = 3 then k + 1 else k)"
  proof -
    have "0 \<le> r - k * c \<and> r - k * c < (if c = 3 then k + 1 else k)"
    proof (cases "r div k \<le> 3")
      case True
      then have "c = r div k" using assms(4) by simp
      then have "r - k * c = r mod k" by (simp add: minus_mult_div_eq_mod)
      with q(2,3) show ?thesis by simp
    next
      case False
      then have c: "c = 3" using assms(4) by simp
      from False have "k * 4 \<le> k * (r div k)" using assms(3) by simp
      with q(1,2) assms(2,3) have "0 \<le> r - k * 3 \<and> r - k * 3 < k + 1" by linarith
      with c show ?thesis by simp
    qed
    then show "0 \<le> r - k * c" "r - k * c < (if c = 3 then k + 1 else k)" by simp_all
  qed
qed

lemma year_day_facts:
  assumes "year_day n = (y, d)"
  shows "days_before_year y + d = n" "0 \<le> d" "d < sum_list (month_lens y)"
proof -
  define a r where "a = n div 146097" and "r = n mod 146097"
  define c r2 where "c = min 3 (r div 36524)" and "r2 = r - 36524 * c"
  define b r3 where "b = r2 div 1461" and "r3 = r2 mod 1461"
  define e where "e = min 3 (r3 div 365)"
  have y: "y = 400 * a + 100 * c + 4 * b + e + 1" and d: "d = r3 - 365 * e"
    using assms unfolding year_day_def Let_def a_def r_def c_def r2_def b_def r3_def e_def
    by (simp_all only: prod.inject)
  have n: "n = 146097 * a + r" "0 \<le> r" "r < 146097"
    unfolding a_def r_def by (rule mult_div_mod_eq [symmetric], rule pos_mod_sign, simp, rule pos_mod_bound, simp)
  have c': "0 \<le> c" "c \<le> 3" "0 \<le> r2" "r2 < (if c = 3 then 36524 + 1 else 36524)"
    unfolding r2_def by (rule capped_div [OF n(2) _ _ c_def]; use n(3) in simp)+
  have b: "r2 = 1461 * b + r3" "0 \<le> r3" "r3 < 1461"
    unfolding b_def r3_def by (rule mult_div_mod_eq [symmetric], rule pos_mod_sign, simp, rule pos_mod_bound, simp)
  have "r2 < 36525" using c'(4) by (simp split: if_splits)
  with c'(3) b have b': "0 \<le> b" "b \<le> 24" by linarith+
  have e': "0 \<le> e" "e \<le> 3" "0 \<le> d" "d < (if e = 3 then 365 + 1 else 365)"
    unfolding d by (rule capped_div [OF b(2) _ _ e_def]; use b(3) in simp)+
  show "0 \<le> d" by (rule e'(3))
  have q: "(y - 1) div 4 = 100 * a + 25 * c + b" "(y - 1) div 100 = 4 * a + c" "(y - 1) div 400 = a"
    using c'(1,2) b' e'(1,2) unfolding y by linarith+
  show "days_before_year y + d = n"
    unfolding days_before_year_def q using n(1) r2_def b(1) d y by (simp add: algebra_simps)
  show "d < sum_list (month_lens y)"
  proof (cases "d = 365")
    case False
    with e'(4) show ?thesis by (auto simp: month_lens_def split: if_splits)
  next
    case True
    with e'(4) d have e3: "e = 3" and r3': "r3 = 1460" by (auto split: if_splits)
    have y': "y = 100 * (4 * a + c) + 4 * (b + 1)" using y e3 by simp
    have "leap y"
    proof (cases "b = 24")
      case b24: True
      with r3' b(1) c'(4) have "c = 3" by (auto split: if_splits)
      with b24 y' have "y = 400 * (a + 1)" by simp
      then show ?thesis by (simp add: leap_def)
    next
      case False
      with b' have "0 < 4 * (b + 1)" "4 * (b + 1) < 100" by simp_all
      then have "y mod 100 = 4 * (b + 1)" unfolding y' by (simp only: mod_mult_self4 mod_pos_pos_trivial less_imp_le)
      moreover have "y mod 4 = 0" unfolding y' by presburger
      ultimately show ?thesis using b' by (simp add: leap_def)
    qed
    with True show ?thesis by (simp add: month_lens_def)
  qed
qed

lemma find_month_facts:
  "find_month m ls d = (m', d') \<Longrightarrow> 0 \<le> d \<Longrightarrow> d < sum_list ls \<Longrightarrow>
     m \<le> m' \<and> m' < m + length ls \<and> 1 \<le> d' \<and> d' \<le> ls ! (m' - m) \<and>
     sum_list (take (m' - m) ls) + (d' - 1) = d"
proof (induction m ls d rule: find_month.induct)
  case (2 m l ls d)
  show ?case
  proof (cases "d < l")
    case True
    with "2.prems" show ?thesis by auto
  next
    case False
    with "2.prems" have "find_month (m + 1) ls (d - l) = (m', d')" "0 \<le> d - l" "d - l < sum_list ls"
      by auto
    note IH = "2.IH" [OF False this]
    then obtain k where k: "m' - m = Suc k" "m' - (m + 1) = k" by (cases "m' - m") auto
    from IH have "sum_list (take k ls) + (d' - 1) = d - l" unfolding k(2) by blast
    then have "sum_list (take (m' - m) (l # ls)) + (d' - 1) = d" by (simp add: k)
    with IH k show ?thesis by auto
  qed
qed simp

text \<open>Every day number is the number of its date, and the date is valid.\<close>

lemma date_of_days_facts:
  assumes "date_of_days n = (y, m, d)"
  shows "1 \<le> m" "m \<le> 12" "1 \<le> d" "d \<le> month_lens y ! (m - 1)" "days_of_date y m d = n"
    "days_before_year y \<le> n"
proof -
  obtain k where yd: "year_day n = (y, k)" and md: "find_month 1 (month_lens y) k = (m, d)"
    using assms by (auto simp: date_of_days_def split: prod.splits)
  note yf = year_day_facts [OF yd]
  note f = yf find_month_facts [OF md yf(2,3)]
  have "length (month_lens y) = 12" by (simp add: month_lens_def)
  with f show "1 \<le> m" "m \<le> 12" "1 \<le> d" "d \<le> month_lens y ! (m - 1)" by simp_all
  show "days_of_date y m d = n" unfolding days_of_date_def using f by linarith
  show "days_before_year y \<le> n" using yf by linarith
qed

lemma days_before_year_Suc: "days_before_year y < days_before_year (y + 1)"
proof -
  have "y div 100 \<le> (y - 1) div 100 + 1" "(y - 1) div 4 \<le> y div 4" "(y - 1) div 400 \<le> y div 400"
    by linarith+
  then show ?thesis unfolding days_before_year_def by simp
qed

lemma days_before_year_mono: "x \<le> y \<Longrightarrow> days_before_year x \<le> days_before_year y"
proof (induction y rule: int_ge_induct)
  case (step y)
  show ?case by (rule order_trans [OF step.IH less_imp_le [OF days_before_year_Suc]])
qed simp

lemma div_pred:
  fixes y k :: int
  assumes "0 < k"
  shows "(y - 1) div k = y div k - (if y mod k = 0 then 1 else 0)"
proof (cases "y mod k = 0")
  case True
  then have "y - 1 = k * (y div k - 1) + (k - 1)"
    using mult_div_mod_eq [of k y] by (simp add: right_diff_distrib)
  then have "(y - 1) div k = y div k - 1" by (rule int_div_pos_eq) (use assms in simp_all)
  with True show ?thesis by simp
next
  case False
  have "0 \<le> y mod k" "y mod k < k" using assms by simp_all
  with False have "0 \<le> y mod k - 1" "y mod k - 1 < k" by linarith+
  moreover have "y - 1 = k * (y div k) + (y mod k - 1)" using mult_div_mod_eq [of k y] by linarith
  ultimately have "(y - 1) div k = y div k" by (metis int_div_pos_eq)
  with False show ?thesis by simp
qed

lemma days_before_next_year: "sum_list (month_lens y) = days_before_year (y + 1) - days_before_year y"
proof -
  have "y mod 100 = 0" if "y mod 400 = 0" using that by presburger
  moreover have "y mod 4 = 0" if "y mod 100 = 0" using that by presburger
  ultimately show ?thesis
    by (cases "y mod 4 = 0"; cases "y mod 100 = 0"; cases "y mod 400 = 0")
      (simp_all add: month_lens_def leap_def days_before_year_def div_pred)
qed

text \<open>The year of a day number between 0000-01-01 and 9999-12-31.\<close>

definition min_days :: int where "min_days = days_before_year 0"
definition max_days :: int where "max_days = days_before_year 10000"

lemma date_of_days_year:
  assumes "date_of_days n = (y, m, d)" and "min_days \<le> n" "n < max_days"
  shows "0 \<le> y" "y < 10000"
proof -
  obtain k where yd: "year_day n = (y, k)"
    using assms(1) by (auto simp: date_of_days_def split: prod.splits)
  note f = year_day_facts [OF yd]
  show "y < 10000"
  proof (rule ccontr)
    assume "\<not> y < 10000"
    then have "max_days \<le> days_before_year y" unfolding max_days_def by (intro days_before_year_mono) simp
    with f assms(3) show False by linarith
  qed
  show "0 \<le> y"
  proof (rule ccontr)
    assume "\<not> 0 \<le> y"
    then have "days_before_year (y + 1) \<le> min_days" unfolding min_days_def by (intro days_before_year_mono) simp
    with f days_before_next_year [of y] assms(2) show False by linarith
  qed
qed

section \<open>RFC 3339\<close>

text \<open>Zero-padded decimal fields.\<close>

definition pad2 :: "nat \<Rightarrow> string" where
  "pad2 n = [digit (n div 10), digit (n mod 10)]"

definition pad4 :: "nat \<Rightarrow> string" where
  "pad4 n =
     (if n < 10000 then [digit (n div 1000), digit (n div 100 mod 10), digit (n div 10 mod 10), digit (n mod 10)]
      else dec_nat n)"

definition format_year :: "int \<Rightarrow> string" where
  "format_year y = (if y < 0 then CHR ''-'' # pad4 (nat (- y)) else pad4 (nat y))"

text \<open>The fraction: a dot and nine digits without trailing zeros, nothing when it is zero.\<close>

fun digits_msb :: "nat \<Rightarrow> nat \<Rightarrow> string" where
  "digits_msb 0 n = []"
| "digits_msb (Suc k) n = digit (n div 10 ^ k mod 10) # digits_msb k n"

definition trim_zeros :: "string \<Rightarrow> string" where
  "trim_zeros s = rev (dropWhile (\<lambda>c. c = CHR ''0'') (rev s))"

definition format_fraction :: "nat \<Rightarrow> string" where
  "format_fraction n =
     (let ds = trim_zeros (digits_msb 9 n) in if ds = [] then [] else CHR ''.'' # ds)"

text \<open>\<open>formatTime\<close>: \<open>value.UTC().Format(time.RFC3339Nano)\<close>.\<close>

definition formatTime :: "gotime \<Rightarrow> string" where
  "formatTime t =
     (let secs = nat (t_sec t mod 86400) in
      case date_of_days (t_sec t div 86400) of (y, m, d) \<Rightarrow>
        format_year y @ ''-'' @ pad2 m @ ''-'' @ pad2 (nat d) @ ''T'' @
        pad2 (secs div 3600) @ '':'' @ pad2 (secs div 60 mod 60) @ '':'' @ pad2 (secs mod 60) @
        format_fraction (t_nsec t) @ ''Z'')"

definition digit_val :: "char \<Rightarrow> nat option" where
  "digit_val c = (if 48 \<le> byte c \<and> byte c \<le> 57 then Some (byte c - 48) else None)"

text \<open>\<open>getnum\<close> of package \<open>time\<close>: two digits, or one where the field is not fixed.\<close>

definition getnum :: "bool \<Rightarrow> string \<Rightarrow> (nat \<times> string) option" where
  "getnum fixed s = (case s of [] \<Rightarrow> None | a # r \<Rightarrow>
     (case digit_val a of None \<Rightarrow> None | Some x \<Rightarrow>
      (case r of
         b # r' \<Rightarrow> (case digit_val b of Some y \<Rightarrow> Some (10 * x + y, r')
                    | None \<Rightarrow> if fixed then None else Some (x, r))
       | [] \<Rightarrow> if fixed then None else Some (x, r))))"

definition getyear :: "string \<Rightarrow> (nat \<times> string) option" where
  "getyear s =
     (case getnum True s of None \<Rightarrow> None | Some (a, r) \<Rightarrow>
      (case getnum True r of None \<Rightarrow> None | Some (b, r') \<Rightarrow> Some (100 * a + b, r')))"

definition skip_char :: "char \<Rightarrow> string \<Rightarrow> string option" where
  "skip_char c s = (case s of [] \<Rightarrow> None | x # r \<Rightarrow> if x = c then Some r else None)"

fun digits_val :: "nat \<Rightarrow> string \<Rightarrow> nat" where
  "digits_val a [] = a"
| "digits_val a (c # s) = digits_val (10 * a + (byte c - 48)) s"

definition is_dec :: "char \<Rightarrow> bool" where
  "is_dec c \<longleftrightarrow> 48 \<le> byte c \<and> byte c \<le> 57"

text \<open>\<open>parseNanoseconds\<close>: digits past the ninth are dropped, fewer are scaled up.\<close>

definition getfraction :: "string \<Rightarrow> nat \<times> string" where
  "getfraction s = (case s of
       c # r \<Rightarrow>
         if c \<in> set ''.,'' \<and> takeWhile is_dec r \<noteq> [] then
           (let ds = take 9 (takeWhile is_dec r)
            in (digits_val 0 ds * 10 ^ (9 - length ds), dropWhile is_dec r))
         else (0, s)
     | [] \<Rightarrow> (0, []))"

definition in_range :: "nat \<Rightarrow> nat \<Rightarrow> nat \<Rightarrow> bool" where
  "in_range lo hi x \<longleftrightarrow> lo \<le> x \<and> x \<le> hi"

definition make_time :: "nat \<Rightarrow> nat \<Rightarrow> nat \<Rightarrow> nat \<Rightarrow> nat \<Rightarrow> nat \<Rightarrow> nat \<Rightarrow> gotime" where
  "make_time y m d hh mm ss ns =
     \<lparr>t_sec = days_of_date (int y) m (int d) * 86400 + int (hh * 3600 + mm * 60 + ss),
      t_nsec = ns, t_loc = UTC, t_mono = None\<rparr>"

text \<open>
  \<open>parseStoredTime\<close>: \<open>time.Parse(time.RFC3339Nano, value)\<close> and the requirement that the location be
  UTC.  Only the \<open>Z\<close> zone gives \<open>time.UTC\<close>: a numeric offset gives \<open>time.Local\<close> or a fixed zone,
  which the caller rejects as well, so both are \<open>None\<close>.
\<close>

definition parseStoredTime :: "string \<Rightarrow> gotime option" where
  "parseStoredTime s =
     Option.bind (getyear s) (\<lambda>(y, s). Option.bind (skip_char CHR ''-'' s) (\<lambda>s.
     Option.bind (getnum True s) (\<lambda>(m, s). Option.bind (skip_char CHR ''-'' s) (\<lambda>s.
     Option.bind (getnum True s) (\<lambda>(d, s). Option.bind (skip_char CHR ''T'' s) (\<lambda>s.
     Option.bind (getnum False s) (\<lambda>(hh, s). Option.bind (skip_char CHR '':'' s) (\<lambda>s.
     Option.bind (getnum True s) (\<lambda>(mm, s). Option.bind (skip_char CHR '':'' s) (\<lambda>s.
     Option.bind (getnum True s) (\<lambda>(ss, s). case getfraction s of (ns, s) \<Rightarrow>
       (if s = ''Z'' \<and> in_range 1 12 m \<and> in_range 1 (nat (month_lens (int y) ! (m - 1))) d \<and>
           hh < 24 \<and> mm < 60 \<and> ss < 60
        then Some (make_time y m d hh mm ss ns) else None))))))))))))"

section \<open>The round trip\<close>

lemma byte_digit: "n < 10 \<Longrightarrow> byte (digit n) = 48 + n"
  by (simp add: byte_def digit_def)

lemma digit_val_digit [simp]: "n < 10 \<Longrightarrow> digit_val (digit n) = Some n"
  by (simp add: digit_val_def byte_digit)

lemma is_dec_digit [simp]: "n < 10 \<Longrightarrow> is_dec (digit n)"
  by (simp add: is_dec_def byte_digit)

lemma getnum_pad2: "n < 100 \<Longrightarrow> getnum f (pad2 n @ s) = Some (n, s)"
  by (simp add: getnum_def pad2_def)

lemma div_mod_10: "n mod 100 div 10 = n div 10 mod (10 :: nat)"
proof -
  have "n mod 100 = 10 * (n div 10 mod 10) + n mod 10" using mod_mult2_eq [of n 10 10] by simp
  then show ?thesis by (metis add.commute add_cancel_left_left div_mult_self4 mod_div_trivial zero_neq_numeral)
qed

lemma pad4_pad2: "n < 10000 \<Longrightarrow> pad4 n = pad2 (n div 100) @ pad2 (n mod 100)"
proof -
  have "n div 100 div 10 = n div 1000" by (simp add: div_mult2_eq [symmetric])
  moreover have "n mod 100 div 10 = n div 10 mod 10" by (rule div_mod_10)
  moreover have "n mod 100 mod 10 = n mod 10" by (simp add: mod_mod_cancel)
  ultimately show "n < 10000 \<Longrightarrow> ?thesis" by (simp only: pad4_def pad2_def if_True append.simps)
qed

lemma getyear_format: "0 \<le> y \<Longrightarrow> y < 10000 \<Longrightarrow> getyear (format_year y @ s) = Some (nat y, s)"
  by (simp add: format_year_def getyear_def pad4_pad2 getnum_pad2 split: option.splits)

lemma skip_char_simps [simp]: "skip_char c (c # s) = Some s"
  by (simp add: skip_char_def)

lemma digits_val_append: "digits_val a (u @ v) = digits_val (digits_val a u) v"
  by (induction u arbitrary: a) auto

lemma digits_val_zeros: "digits_val a (replicate j CHR ''0'') = a * 10 ^ j"
  by (induction j arbitrary: a) (auto simp: byte_def)

lemma digits_msb_val: "digits_val a (digits_msb k n) = a * 10 ^ k + n mod 10 ^ k"
proof (induction k arbitrary: a)
  case (Suc k)
  have "n mod (10 ^ k * 10) = 10 ^ k * (n div 10 ^ k mod 10) + n mod 10 ^ k"
    by (rule mod_mult2_eq)
  then show ?case by (simp add: Suc.IH byte_digit algebra_simps)
qed simp

lemma digits_msb_dec: "length (digits_msb k n) = k" "set (digits_msb k n) \<subseteq> {c. is_dec c}"
  by (induction k) auto

lemma trim_zeros_split: "\<exists>j. ds = trim_zeros ds @ replicate j CHR ''0''"
proof -
  have "takeWhile (\<lambda>c. c = CHR ''0'') (rev ds) = replicate (length (takeWhile (\<lambda>c. c = CHR ''0'') (rev ds))) CHR ''0''"
    by (rule replicate_eqI [THEN sym, THEN sym]) (auto dest: set_takeWhileD)
  then have "ds = trim_zeros ds @ rev (replicate (length (takeWhile (\<lambda>c. c = CHR ''0'') (rev ds))) CHR ''0'')"
    unfolding trim_zeros_def rev_append [symmetric] by (metis rev_rev_ident takeWhile_dropWhile_id)
  then show ?thesis by (metis rev_replicate)
qed

lemma getfraction_format:
  assumes "n < 1000000000"
  shows "getfraction (format_fraction n @ ''Z'') = (n, ''Z'')"
proof -
  define ds w where "ds = digits_msb 9 n" and "w = trim_zeros ds"
  obtain j where j: "ds = w @ replicate j CHR ''0''" using trim_zeros_split [of ds] w_def by blast
  have "digits_val 0 ds = n" using assms by (simp add: ds_def digits_msb_val)
  then have val: "digits_val 0 w * 10 ^ j = n" by (simp add: j digits_val_append digits_val_zeros)
  have len: "length w + j = 9" using digits_msb_dec(1) [of 9 n] j ds_def by (metis length_append length_replicate)
  have dec: "c \<in> set w \<Longrightarrow> is_dec c" for c using digits_msb_dec(2) [of 9 n] j ds_def by auto
  have z: "\<not> is_dec CHR ''Z''" by (simp add: is_dec_def byte_def)
  show ?thesis
  proof (cases "w = []")
    case True
    then have "format_fraction n = []" by (simp add: format_fraction_def flip: ds_def w_def)
    then show ?thesis using val True by (simp add: getfraction_def)
  next
    case False
    have "takeWhile is_dec (w @ ''Z'') = w" "dropWhile is_dec (w @ ''Z'') = ''Z''"
      using dec z by (simp_all add: takeWhile_append2 dropWhile_append2)
    moreover have "9 - length w = j" using len by simp
    ultimately show ?thesis using False val len
      by (simp add: getfraction_def format_fraction_def Let_def flip: ds_def w_def)
  qed
qed

lemma days_of_date_int: "1 \<le> d \<Longrightarrow> days_of_date y m (int (nat d)) = days_of_date y m d"
  by simp

lemma month_len_bounds: "1 \<le> m \<Longrightarrow> m \<le> 12 \<Longrightarrow> month_lens y ! (m - 1) \<le> 31"
proof -
  assume "1 \<le> m" "m \<le> 12"
  then have "m - 1 < length (month_lens y)" by (simp add: month_lens_def)
  then have "month_lens y ! (m - 1) \<in> set (month_lens y)" by (rule nth_mem)
  then show ?thesis by (auto simp: month_lens_def split: if_splits)
qed

lemma clock_fields:
  fixes s :: nat
  assumes "s < 86400"
  shows "s div 3600 < 24" "s div 60 mod 60 < 60" "s mod 60 < 60"
    "s div 3600 * 3600 + s div 60 mod 60 * 60 + s mod 60 = s"
proof -
  have "s div 3600 = s div 60 div 60" by (simp add: div_mult2_eq [symmetric])
  with div_mult_mod_eq [of "s div 60" 60] have "s div 3600 * 3600 + s div 60 mod 60 * 60 = s div 60 * 60"
    by linarith
  then show "s div 3600 * 3600 + s div 60 mod 60 * 60 + s mod 60 = s" by simp
  show "s div 3600 < 24" using assms by simp
qed simp_all

definition storable :: "gotime \<Rightarrow> bool" where
  "storable t \<longleftrightarrow> time_wf t \<and> min_days \<le> t_sec t div 86400 \<and> t_sec t div 86400 < max_days"

lemma parse_format:
  assumes "storable t"
  shows "parseStoredTime (formatTime t) = Some (time_UTC t)"
proof -
  obtain y m d where date: "date_of_days (t_sec t div 86400) = (y, m, d)" by (metis prod_cases3)
  note f = date_of_days_facts [OF date]
  have y: "0 \<le> y" "y < 10000"
    using date_of_days_year [OF date] assms by (simp_all add: storable_def)
  define secs where "secs = nat (t_sec t mod 86400)"
  have secs: "secs < 86400" "int secs = t_sec t mod 86400" by (simp_all add: secs_def)
  have d: "nat d < 100" "m < 100" "in_range 1 12 m" "in_range 1 (nat (month_lens y ! (m - 1))) (nat d)"
    using f(1-4) month_len_bounds [of m y] by (auto simp: in_range_def)
  note hms = clock_fields [OF secs(1)]
  have "make_time (nat y) m (nat d) (secs div 3600) (secs div 60 mod 60) (secs mod 60) (t_nsec t) = time_UTC t"
  proof -
    have "t_sec t div 86400 * 86400 + t_sec t mod 86400 = t_sec t" by simp
    then have "days_of_date y m d * 86400 + int secs = t_sec t" using secs f(5) by simp
    moreover have "int (nat d) = d" using f(3) by simp
    ultimately show ?thesis using y unfolding make_time_def hms(4) by (simp add: time_UTC_def)
  qed
  moreover have "t_nsec t < 1000000000" using assms by (simp add: storable_def time_wf_def)
  ultimately show ?thesis
    using y d hms getfraction_format [of "t_nsec t"]
    by (simp add: formatTime_def parseStoredTime_def date getyear_format getnum_pad2 Let_def flip: secs_def)
qed

end
