(* ===== verification/Domain.thy ===== *)
theory Domain
  imports Failures Regex Json_Roundtrip Go_Time
begin

text \<open>
  The data of the program, \<open>internal/domain/task.go\<close>: identifiers with their grammar, the manual
  input envelope, repository configuration and policy, drafts, tasks and history.  Snapshots and
  the manual input are in \<open>Snapshots\<close> and \<open>Manual_Input\<close>.
\<close>

section \<open>Identifiers\<close>

type_synonym task_id = string
type_synonym resource_id = string
type_synonym task_status = string
type_synonym resource_kind = string
type_synonym policy_decision = string

definition TaskSourceManual :: string where "TaskSourceManual = ''manual''"
definition HistoryReasonManualSubmission :: string where
  "HistoryReasonManualSubmission = ''manual_submission''"
definition TaskStatusPending :: task_status where "TaskStatusPending = ''pending''"
definition ResourceKindRepository :: resource_kind where "ResourceKindRepository = ''repository''"
definition PolicyAllow :: policy_decision where "PolicyAllow = ''allow''"
definition PolicyDeny :: policy_decision where "PolicyDeny = ''deny''"

text \<open>The class \<open>[A-Z2-7]\<close> and the two patterns.\<close>

definition base32_class :: rx where
  "base32_class = RCls [(CHR ''A'', CHR ''Z''), (CHR ''2'', CHR ''7'')]"

definition taskIDPattern :: rx where
  "taskIDPattern = RSeq (RLit ''task_'') (RRep 26 128 base32_class)"

definition resourceIDPattern :: rx where
  "resourceIDPattern = RSeq (RLit ''resource_'') (RRep 26 128 base32_class)"

text \<open>\<open>NewID\<close>: the argument \<open>text\<close> is the result of \<open>rand.Text()\<close>.\<close>

definition NewID :: "string \<Rightarrow> string \<Rightarrow> string" where
  "NewID text pre = pre @ text"

definition ParseTaskID :: "string \<Rightarrow> gerr + task_id" where
  "ParseTaskID v = (if \<not> rx_match taskIDPattern v then Inl (ErrNew ''invalid task ID'') else Inr v)"

definition ParseResourceID :: "string \<Rightarrow> gerr + resource_id" where
  "ParseResourceID v =
     (if \<not> rx_match resourceIDPattern v then Inl (ErrNew ''invalid resource ID'') else Inr v)"

definition base32 :: "char \<Rightarrow> bool" where
  "base32 c \<longleftrightarrow> 65 \<le> byte c \<and> byte c \<le> 90 \<or> 50 \<le> byte c \<and> byte c \<le> 55"

definition id_body :: "string \<Rightarrow> bool" where
  "id_body b \<longleftrightarrow> 26 \<le> length b \<and> length b \<le> 128 \<and> (\<forall>c \<in> set b. base32 c)"

lemma base32_class_iff: "rx_lang (RRep 26 128 base32_class) s \<longleftrightarrow> id_body s"
  by (simp add: base32_class_def rx_lang_simps id_body_def base32_def in_class_def byte_def
      del: rx_lang.simps)

lemma taskIDPattern_iff: "rx_match taskIDPattern v \<longleftrightarrow> (\<exists>b. v = ''task_'' @ b \<and> id_body b)"
  unfolding rx_match_iff taskIDPattern_def by (simp add: rx_lang_lit_seq base32_class_iff del: rx_lang.simps)

lemma resourceIDPattern_iff:
  "rx_match resourceIDPattern v \<longleftrightarrow> (\<exists>b. v = ''resource_'' @ b \<and> id_body b)"
  unfolding rx_match_iff resourceIDPattern_def
  by (simp add: rx_lang_lit_seq base32_class_iff del: rx_lang.simps)

lemma ParseTaskID_ok [result_simps]:
  "ParseTaskID v = Inr i \<longleftrightarrow> i = v \<and> (\<exists>b. v = ''task_'' @ b \<and> id_body b)"
  by (auto simp: ParseTaskID_def taskIDPattern_iff)

lemma ParseResourceID_ok [result_simps]:
  "ParseResourceID v = Inr i \<longleftrightarrow> i = v \<and> (\<exists>b. v = ''resource_'' @ b \<and> id_body b)"
  by (auto simp: ParseResourceID_def resourceIDPattern_iff)

lemma base32_ascii: "base32 c \<Longrightarrow> byte c < 128"
  by (auto simp: base32_def)

lemma id_body_valid_utf8: "id_body b \<Longrightarrow> utf8_valid b"
  by (rule ascii_valid) (simp add: id_body_def base32_ascii)

lemma ascii_append_valid: "(\<And>c. c \<in> set s \<Longrightarrow> byte c < 128) \<Longrightarrow> utf8_valid (s @ b) = utf8_valid b"
  by (rule utf8_valid_append) (rule ascii_valid)

lemma task_id_valid_utf8: "ParseTaskID v = Inr i \<Longrightarrow> utf8_valid v"
  by (auto simp: result_simps id_body_valid_utf8 byte_def
      ascii_append_valid [of "''task_''", simplified append.simps])

lemma resource_id_valid_utf8: "ParseResourceID v = Inr i \<Longrightarrow> utf8_valid v"
  by (auto simp: result_simps id_body_valid_utf8 byte_def
      ascii_append_valid [of "''resource_''", simplified append.simps])

text \<open>No identifier is both: the two grammars are disjoint.\<close>

lemma id_grammars_disjoint: "ParseTaskID v = Inr i \<Longrightarrow> ParseResourceID v \<noteq> Inr j"
  by (auto simp: result_simps)

section \<open>Records\<close>

record TaskInput =
  ti_version :: int
  ti_source :: string
  ti_instructions :: string

record AgentConfiguration =
  ac_instructions :: "string slice"

record PolicyRequest =
  pr_actions :: "policy_decision gomap"
  pr_protected_paths :: "string slice"

record ValidationCommand =
  vc_name :: string
  vc_run :: string
  vc_timeout :: string

record ValidationConfiguration =
  vd_required :: "ValidationCommand slice"

record RepositoryConfiguration =
  rc_version :: int
  rc_agent :: AgentConfiguration
  rc_policy :: PolicyRequest
  rc_validation :: ValidationConfiguration

record EffectivePolicy =
  ep_version :: int
  ep_default_action :: policy_decision
  ep_actions :: "policy_decision gomap"
  ep_protected_paths :: "string slice"

record RepositoryMaterial =
  rm_external_ref :: string
  rm_external_identity :: string
  rm_revision :: string
  rm_configuration :: RepositoryConfiguration

record ResourceSnapshot =
  rs_id :: resource_id
  rs_name :: string
  rs_kind :: resource_kind
  rs_connector :: string
  rs_revision :: string

text \<open>A snapshot is its canonical bytes; the zero value has none.\<close>

type_synonym snapshot = string

record ResourceDraft =
  rd_candidate_id :: resource_id
  rd_name :: string
  rd_kind :: resource_kind
  rd_connector :: string
  rd_external_ref :: string
  rd_external_identity :: string
  rd_revision :: string
  rd_configuration :: snapshot
  rd_requested_policy :: snapshot

record TaskHistoryEntry =
  he_sequence :: int
  he_status :: task_status
  he_occurred_at :: gotime
  he_reason :: string

record TaskDraft =
  td_id :: task_id
  td_status :: task_status
  td_resource :: ResourceDraft
  td_input :: snapshot
  td_configuration :: snapshot
  td_policy :: snapshot
  td_created_at :: gotime
  td_initial_history :: TaskHistoryEntry

record Task =
  tk_id :: task_id
  tk_status :: task_status
  tk_created_at :: gotime
  tk_resource :: ResourceSnapshot
  tk_input :: snapshot
  tk_configuration :: snapshot
  tk_policy :: snapshot

end
