(* ===== verification/Snapshots.thy ===== *)
theory Snapshots
  imports Domain
begin

text \<open>
  Canonical JSON snapshots of \<open>internal/domain/task.go\<close>, and the JSON trees that \<open>json.Marshal\<close>
  makes of the program's structs.  A snapshot's bytes are a fixed point of \<open>canonicalJSON\<close>, so
  copying one through \<open>ParseSnapshot\<close> never fails and never changes it (\<open>canonicalJSON_idem\<close>);
  \<open>NewSnapshot_tree\<close> says what the snapshot of a value is.
\<close>

section \<open>Operations\<close>

definition maxSnapshotSize :: nat where "maxSnapshotSize = 16 * 1024 * 1024"

text \<open>Any error of the JSON decoder; the text of the library's errors is not modelled.\<close>

definition json_error :: gerr where "json_error = ErrNew ''invalid JSON''"

definition canonicalJSON :: "string \<Rightarrow> gerr + string" where
  "canonicalJSON data =
     (if data = [] then Inl (ErrNew ''empty JSON snapshot'')
      else case decode_one data of
        None \<Rightarrow> Inl json_error
      | Some (v, r) \<Rightarrow>
          if skip_ws r \<noteq> [] then
            (case decode_one r of
               Some _ \<Rightarrow> Inl (ErrNew ''snapshot contains multiple JSON values'')
             | None \<Rightarrow> Inl json_error)
          else
            (let canonical = enc False (jnorm v)
             in if length canonical > maxSnapshotSize then Inl (ErrNew ''snapshot exceeds 16 MiB'')
                else Inr canonical))"

definition ParseSnapshot :: "string \<Rightarrow> gerr + snapshot" where
  "ParseSnapshot data = canonicalJSON data"

text \<open>\<open>NewSnapshot\<close> of a value whose JSON tree is \<open>v\<close>: \<open>json.Marshal\<close> escapes HTML.\<close>

definition NewSnapshot :: "json \<Rightarrow> gerr + snapshot" where
  "NewSnapshot v = ParseSnapshot (enc True v)"

text \<open>\<open>Snapshot.Bytes\<close> copies the bytes; values are not shared in the model.\<close>

definition Snapshot_Bytes :: "snapshot \<Rightarrow> string" where
  "Snapshot_Bytes s = s"

definition Snapshot_MarshalJSON :: "snapshot \<Rightarrow> gerr + string" where
  "Snapshot_MarshalJSON s = (if length s = 0 then Inl (ErrNew ''empty snapshot'') else Inr (Snapshot_Bytes s))"

section \<open>Canonical bytes\<close>

text \<open>\<open>canonical s\<close>: the bytes a nonzero \<open>Snapshot\<close> can hold.\<close>

definition canonical :: "snapshot \<Rightarrow> bool" where
  "canonical s \<longleftrightarrow> (\<exists>data. canonicalJSON data = Inr s)"

lemma decode_one_facts: "decode_one s = Some (v, r) \<Longrightarrow> json_wf v \<and> json_depth v \<le> max_depth"
  unfolding decode_one_def by (drule reader_facts(1)) simp

lemma enc_nonempty [simp]: "nums_ok v \<Longrightarrow> enc h v \<noteq> []"
  using enc_head [of v h] by auto

lemma canonicalJSON_ok:
  "canonicalJSON data = Inr s \<longleftrightarrow>
     (\<exists>v r. decode_one data = Some (v, r) \<and> skip_ws r = [] \<and> s = enc False (jnorm v) \<and>
        length s \<le> maxSnapshotSize)"
  (is "?l \<longleftrightarrow> ?r")
proof
  show "?l \<Longrightarrow> ?r"
    by (auto simp: canonicalJSON_def Let_def split: if_splits option.splits)
next
  assume ?r
  moreover have "decode_one [] = None" by (simp add: decode_one_def json_fuel_def)
  ultimately show ?l by (auto simp: canonicalJSON_def Let_def)
qed

lemma canonicalJSON_enc:
  assumes "json_wf v" and "json_depth v \<le> max_depth"
  shows "canonicalJSON (enc h v) =
    (if length (enc False (jnorm v)) \<le> maxSnapshotSize then Inr (enc False (jnorm v))
     else Inl (ErrNew ''snapshot exceeds 16 MiB''))"
  using decode_enc [OF assms, of "[]" h] json_wf_nums [OF assms(1)]
  by (simp add: canonicalJSON_def Let_def)

lemma canonicalJSON_idem:
  assumes "canonicalJSON data = Inr s"
  shows "canonicalJSON s = Inr s"
proof -
  obtain v r where v: "decode_one data = Some (v, r)" "s = enc False (jnorm v)" "length s \<le> maxSnapshotSize"
    using assms by (auto simp: canonicalJSON_ok)
  have "json_wf (jnorm v)" "json_depth (jnorm v) \<le> max_depth"
    using decode_one_facts [OF v(1)] by (simp_all add: jnorm_wf jnorm_depth)
  from canonicalJSON_enc [OF this, of False] v(2,3) show ?thesis
    by (simp add: jnorm_canon)
qed

lemma canonical_iff: "canonical s \<longleftrightarrow> ParseSnapshot s = Inr s"
  by (auto simp: canonical_def ParseSnapshot_def intro: canonicalJSON_idem)

lemma canonical_nonempty: "canonical s \<Longrightarrow> s \<noteq> []"
  by (auto simp: canonical_iff ParseSnapshot_def canonicalJSON_def)

lemma canonical_length: "canonical s \<Longrightarrow> length s \<le> maxSnapshotSize"
  by (auto simp: canonical_def canonicalJSON_ok)

lemma ParseSnapshot_canonical: "ParseSnapshot data = Inr s \<Longrightarrow> canonical s"
  by (auto simp: canonical_def ParseSnapshot_def)

lemma NewSnapshot_canonical: "NewSnapshot v = Inr s \<Longrightarrow> canonical s"
  by (auto simp: NewSnapshot_def intro: ParseSnapshot_canonical)

lemma jfix_wf: "nums_ok v \<Longrightarrow> json_wf (jfix v)"
  by (induction v) (auto simp: snds.simps)

lemma decode_enc_fix:
  assumes "nums_ok v" and "json_depth v \<le> max_depth" and "delim t"
  shows "decode_one (enc h v @ t) = Some (jfix v, t)"
  unfolding decode_one_def
  using parse_enc [OF assms, of h "json_fuel (enc h v @ t)"]
  by (simp add: json_fuel_def del: parse_value.simps)

lemma NewSnapshot_tree:
  assumes "nums_ok v" and "json_depth v \<le> max_depth"
  shows "NewSnapshot v =
    (if length (enc False (jnorm (jfix v))) \<le> maxSnapshotSize then Inr (enc False (jnorm (jfix v)))
     else Inl (ErrNew ''snapshot exceeds 16 MiB''))"
  using decode_enc_fix [OF assms, of "[]" True] assms(1)
  by (simp add: NewSnapshot_def ParseSnapshot_def canonicalJSON_def Let_def)

lemma ParseSnapshot_samples:
  "ParseSnapshot ''{}'' = Inr ''{}''" "ParseSnapshot ''null'' = Inr ''null''"
  using canonicalJSON_enc [of "JObj []" False] canonicalJSON_enc [of JNull False]
  by (simp_all add: ParseSnapshot_def sort_members_def max_depth_def maxSnapshotSize_def json_depth_le
      enc.simps(6))

section \<open>JSON trees\<close>

text \<open>What \<open>json.Marshal\<close> makes of slices, maps and the structs of \<open>Domain\<close>.\<close>

definition json_strings :: "string slice \<Rightarrow> json" where
  "json_strings s = (case s of None \<Rightarrow> JNull | Some xs \<Rightarrow> JArr (map JStr xs))"

definition json_int :: "int \<Rightarrow> json" where
  "json_int i = JNum (dec_int i)"

definition json_decisions :: "policy_decision gomap \<Rightarrow> json" where
  "json_decisions m = (case m of None \<Rightarrow> JNull
     | Some kvs \<Rightarrow> JObj (sort_members (map (\<lambda>(k, d). (k, JStr d)) kvs)))"

definition json_TaskInput :: "TaskInput \<Rightarrow> json" where
  "json_TaskInput i =
     JObj [(''version'', json_int (ti_version i)), (''source'', JStr (ti_source i)),
           (''instructions'', JStr (ti_instructions i))]"

definition json_AgentConfiguration :: "AgentConfiguration \<Rightarrow> json" where
  "json_AgentConfiguration a = JObj [(''instructions'', json_strings (ac_instructions a))]"

definition json_PolicyRequest :: "PolicyRequest \<Rightarrow> json" where
  "json_PolicyRequest p =
     JObj [(''actions'', json_decisions (pr_actions p)),
           (''protected_paths'', json_strings (pr_protected_paths p))]"

definition json_ValidationCommand :: "ValidationCommand \<Rightarrow> json" where
  "json_ValidationCommand c =
     JObj [(''name'', JStr (vc_name c)), (''run'', JStr (vc_run c)), (''timeout'', JStr (vc_timeout c))]"

definition json_ValidationConfiguration :: "ValidationConfiguration \<Rightarrow> json" where
  "json_ValidationConfiguration v =
     JObj [(''required'', case vd_required v of None \<Rightarrow> JNull
                          | Some cs \<Rightarrow> JArr (map json_ValidationCommand cs))]"

definition json_RepositoryConfiguration :: "RepositoryConfiguration \<Rightarrow> json" where
  "json_RepositoryConfiguration c =
     JObj [(''version'', json_int (rc_version c)),
           (''agent'', json_AgentConfiguration (rc_agent c)),
           (''policy'', json_PolicyRequest (rc_policy c)),
           (''validation'', json_ValidationConfiguration (rc_validation c))]"

definition json_EffectivePolicy :: "EffectivePolicy \<Rightarrow> json" where
  "json_EffectivePolicy e =
     JObj [(''version'', json_int (ep_version e)),
           (''default_action'', JStr (ep_default_action e)),
           (''actions'', json_decisions (ep_actions e)),
           (''protected_paths'', json_strings (ep_protected_paths e))]"

definition json_ResourceSnapshot :: "ResourceSnapshot \<Rightarrow> json" where
  "json_ResourceSnapshot r =
     JObj [(''id'', JStr (rs_id r)), (''name'', JStr (rs_name r)), (''kind'', JStr (rs_kind r)),
           (''connector'', JStr (rs_connector r)), (''revision'', JStr (rs_revision r))]"

end
