(* ===== verification/Task_Store.thy ===== *)
theory Task_Store
  imports Snapshots
begin

text \<open>
  The contract of the task store, the interface \<open>TaskStore\<close> of \<open>internal/control/task.go\<close>: what
  creating and reading tasks does to an abstract store that binds each resource name to an identity
  and each task identifier to an immutable task.  The locale \<open>task_store\<close> states the contract once;
  both stores are shown to satisfy it, and what follows from it (created tasks are read back, tasks
  never change, refusals change nothing) is proved in it.
\<close>

section \<open>The abstract store\<close>

record binding =
  bd_id :: resource_id
  bd_connector :: string
  bd_identity :: string

record spec_store =
  sp_bind :: "string \<Rightarrow> binding option"
  sp_tasks :: "task_id \<Rightarrow> Task option"

definition spec_empty :: spec_store where
  "spec_empty = \<lparr>sp_bind = (\<lambda>_. None), sp_tasks = (\<lambda>_. None)\<rparr>"

text \<open>The drafts a store may accept.\<close>

definition draft_valid :: "TaskDraft \<Rightarrow> bool" where
  "draft_valid d \<longleftrightarrow>
     is_ok (ParseTaskID (td_id d)) \<and> td_status d = TaskStatusPending \<and>
     \<not> time_IsZero (td_created_at d) \<and> t_loc (td_created_at d) = UTC \<and>
     is_ok (ParseResourceID (rd_candidate_id (td_resource d))) \<and>
     '''' \<notin> {rd_name (td_resource d), rd_kind (td_resource d), rd_connector (td_resource d),
            rd_external_ref (td_resource d), rd_external_identity (td_resource d), rd_revision (td_resource d)} \<and>
     rd_configuration (td_resource d) = td_configuration d \<and>
     (\<forall>s \<in> {rd_requested_policy (td_resource d), td_input d, td_configuration d, td_policy d}.
        is_ok (ParseSnapshot s)) \<and>
     he_sequence (td_initial_history d) = 1 \<and> he_status (td_initial_history d) = td_status d \<and>
     he_occurred_at (td_initial_history d) = td_created_at d \<and>
     he_reason (td_initial_history d) = HistoryReasonManualSubmission"

definition owns :: "TaskDraft \<Rightarrow> binding \<Rightarrow> bool" where
  "owns d b \<longleftrightarrow> bd_connector b = rd_connector (td_resource d) \<and>
                bd_identity b = rd_external_identity (td_resource d)"

text \<open>A resource name stays bound to one identity, and an identity to one name.\<close>

definition binding_conflict :: "TaskDraft \<Rightarrow> spec_store \<Rightarrow> bool" where
  "binding_conflict d st \<longleftrightarrow>
     (\<exists>n b. sp_bind st n = Some b \<and> (n = rd_name (td_resource d)) \<noteq> owns d b)"

definition bound_id :: "TaskDraft \<Rightarrow> spec_store \<Rightarrow> resource_id" where
  "bound_id d st = (case sp_bind st (rd_name (td_resource d)) of
     None \<Rightarrow> rd_candidate_id (td_resource d) | Some b \<Rightarrow> bd_id b)"

definition parsed :: "string \<Rightarrow> snapshot" where
  "parsed s = (case ParseSnapshot s of Inr c \<Rightarrow> c | Inl e \<Rightarrow> [])"

definition task_of :: "TaskDraft \<Rightarrow> resource_id \<Rightarrow> Task" where
  "task_of d rid =
     \<lparr>tk_id = td_id d, tk_status = td_status d, tk_created_at = td_created_at d,
      tk_resource = \<lparr>rs_id = rid, rs_name = rd_name (td_resource d), rs_kind = rd_kind (td_resource d),
                     rs_connector = rd_connector (td_resource d), rs_revision = rd_revision (td_resource d)\<rparr>,
      tk_input = parsed (td_input d), tk_configuration = parsed (td_configuration d),
      tk_policy = parsed (td_policy d)\<rparr>"

definition spec_create :: "TaskDraft \<Rightarrow> spec_store \<Rightarrow> (Task \<times> spec_store) option" where
  "spec_create d st =
     (if \<not> draft_valid d \<or> sp_tasks st (td_id d) \<noteq> None \<or> binding_conflict d st then None
      else
        (let t = task_of d (bound_id d st) in
         Some (t, \<lparr>sp_bind = (sp_bind st)(rd_name (td_resource d) \<mapsto>
                     \<lparr>bd_id = bound_id d st, bd_connector = rd_connector (td_resource d),
                      bd_identity = rd_external_identity (td_resource d)\<rparr>),
                   sp_tasks = (sp_tasks st)(td_id d \<mapsto> t)\<rparr>)))"

text \<open>The candidate identifier of a new resource is already another resource's: the one case in which
  a store may refuse what the abstract store accepts.\<close>

definition id_clash :: "TaskDraft \<Rightarrow> spec_store \<Rightarrow> bool" where
  "id_clash d st \<longleftrightarrow>
     sp_bind st (rd_name (td_resource d)) = None \<and>
     (\<exists>n b. sp_bind st n = Some b \<and> bd_id b = rd_candidate_id (td_resource d))"

text \<open>A sequence of submissions, refused ones included: the results and the final store.\<close>

fun spec_run :: "TaskDraft list \<Rightarrow> spec_store \<Rightarrow> Task option list \<times> spec_store" where
  "spec_run [] st = ([], st)"
| "spec_run (d # ds) st =
     (case spec_create d st of
        None \<Rightarrow> apfst (Cons None) (spec_run ds st)
      | Some (t, st') \<Rightarrow> apfst (Cons (Some t)) (spec_run ds st'))"

lemma ok_parsed: "is_ok (ParseSnapshot s) \<Longrightarrow> ParseSnapshot s = Inr (parsed s)"
  by (auto simp: is_ok_iff parsed_def)

lemma parsed_canonical: "is_ok (ParseSnapshot s) \<Longrightarrow> canonical (parsed s)"
  by (drule ok_parsed) (rule ParseSnapshot_canonical)

lemma parsed_id: "canonical s \<Longrightarrow> parsed s = s"
  by (simp add: parsed_def canonical_iff)

lemma spec_create_fields:
  assumes "spec_create d st = Some (t, st')"
  shows "draft_valid d" "sp_tasks st (td_id d) = None" "t = task_of d (bound_id d st)"
    "sp_tasks st' = (sp_tasks st)(td_id d \<mapsto> t)"
  using assms by (auto simp: spec_create_def Let_def split: if_splits)

lemma spec_run_keeps:
  "sp_tasks st i = Some t \<Longrightarrow> sp_tasks (snd (spec_run ds st)) i = Some t"
proof (induction ds arbitrary: st)
  case (Cons d ds)
  show ?case
  proof (cases "spec_create d st")
    case None
    then show ?thesis using Cons by simp
  next
    case (Some p)
    obtain u st' where p: "p = (u, st')" by (cases p)
    note f = spec_create_fields [OF Some [unfolded p]]
    have "sp_tasks st' i = Some t" using f(2,4) Cons.prems by auto
    with Some p Cons.IH show ?thesis by simp
  qed
qed simp

text \<open>The same over the operation \<open>create\<close> of a store.\<close>

fun run_store ::
  "(TaskDraft \<Rightarrow> 's \<Rightarrow> (gerr + Task) \<times> 's) \<Rightarrow> TaskDraft list \<Rightarrow> 's \<Rightarrow> Task option list \<times> 's"
where
  "run_store create [] s = ([], s)"
| "run_store create (d # ds) s =
     (case create d s of
        (r, s') \<Rightarrow> apfst (Cons (case r of Inl e \<Rightarrow> None | Inr t \<Rightarrow> Some t)) (run_store create ds s'))"

text \<open>Every task belongs to the resource its name is bound to, and no two names share an identity.\<close>

definition spec_inv :: "spec_store \<Rightarrow> bool" where
  "spec_inv st \<longleftrightarrow>
     (\<forall>i t. sp_tasks st i = Some t \<longrightarrow>
        tk_id t = i \<and> (\<exists>b. sp_bind st (rs_name (tk_resource t)) = Some b \<and>
          bd_id b = rs_id (tk_resource t) \<and> bd_connector b = rs_connector (tk_resource t))) \<and>
     (\<forall>n n' b b'. sp_bind st n = Some b \<longrightarrow> sp_bind st n' = Some b' \<longrightarrow>
        bd_connector b = bd_connector b' \<longrightarrow> bd_identity b = bd_identity b' \<longrightarrow> n = n')"

lemma spec_create_bind:
  assumes "spec_create d st = Some (t, st')" and "sp_bind st n = Some b"
  shows "sp_bind st' n = Some b"
proof (cases "n = rd_name (td_resource d)")
  case True
  have "\<not> binding_conflict d st" using assms(1) by (auto simp: spec_create_def split: if_splits)
  then have "owns d b" using assms(2) True by (auto simp: binding_conflict_def)
  moreover have "bound_id d st = bd_id b" using assms(2) True by (simp add: bound_id_def)
  ultimately show ?thesis
    using assms(1) True by (cases b) (auto simp: spec_create_def Let_def owns_def split: if_splits)
next
  case False
  then show ?thesis using assms by (auto simp: spec_create_def Let_def split: if_splits)
qed

lemma spec_create_inv:
  assumes "spec_create d st = Some (t, st')" and "spec_inv st"
  shows "spec_inv st'"
proof -
  let ?n = "rd_name (td_resource d)"
  have nc: "\<not> binding_conflict d st" and t: "t = task_of d (bound_id d st)"
    and bind: "sp_bind st' = (sp_bind st)(?n \<mapsto>
       \<lparr>bd_id = bound_id d st, bd_connector = rd_connector (td_resource d),
        bd_identity = rd_external_identity (td_resource d)\<rparr>)"
    and tasks: "sp_tasks st' = (sp_tasks st)(td_id d \<mapsto> t)"
    using assms(1) by (auto simp: spec_create_def Let_def split: if_splits)
  have keep: "sp_bind st n = Some b \<Longrightarrow> sp_bind st' n = Some b" for n b
    using assms(1) by (rule spec_create_bind)
  have "tk_id u = i \<and> (\<exists>b. sp_bind st' (rs_name (tk_resource u)) = Some b \<and>
          bd_id b = rs_id (tk_resource u) \<and> bd_connector b = rs_connector (tk_resource u))"
    if "sp_tasks st' i = Some u" for i u
  proof (cases "i = td_id d")
    case True
    then have "u = t" using that by (simp add: tasks)
    then show ?thesis using True by (simp add: t task_of_def bind)
  next
    case False
    then have "sp_tasks st i = Some u" using that by (simp add: tasks)
    then show ?thesis using assms(2) keep unfolding spec_inv_def by blast
  qed
  moreover have "n = n'" if "sp_bind st' n = Some b" "sp_bind st' n' = Some b'"
      "bd_connector b = bd_connector b'" "bd_identity b = bd_identity b'" for n n' b b'
  proof -
    have own: "owns d b \<longleftrightarrow> n = ?n" if "sp_bind st' n = Some b" for n b
      using that nc by (auto simp: bind binding_conflict_def owns_def split: if_splits)
    show ?thesis
    proof (cases "n = ?n \<or> n' = ?n")
      case True
      then show ?thesis using own [OF that(1)] own [OF that(2)] that(3,4) by (auto simp: owns_def)
    next
      case False
      then have "sp_bind st n = Some b" "sp_bind st n' = Some b'" using that(1,2) by (simp_all add: bind)
      then show ?thesis using assms(2) that(3,4) unfolding spec_inv_def by blast
    qed
  qed
  ultimately show ?thesis unfolding spec_inv_def by blast
qed

lemma spec_run_inv: "spec_inv st \<Longrightarrow> spec_inv (snd (spec_run ds st))"
proof (induction ds arbitrary: st)
  case (Cons d ds)
  then show ?case by (cases "spec_create d st") (auto dest: spec_create_inv)
qed simp

lemma spec_run_bind: "sp_bind st n = Some b \<Longrightarrow> sp_bind (snd (spec_run ds st)) n = Some b"
proof (induction ds arbitrary: st)
  case (Cons d ds)
  then show ?case by (cases "spec_create d st") (auto dest: spec_create_bind)
qed simp

definition fresh_ids :: "TaskDraft list \<Rightarrow> spec_store \<Rightarrow> bool" where
  "fresh_ids ds st \<longleftrightarrow>
     distinct (map (\<lambda>d. rd_candidate_id (td_resource d)) ds) \<and>
     (\<forall>n b. sp_bind st n = Some b \<longrightarrow> bd_id b \<notin> (\<lambda>d. rd_candidate_id (td_resource d)) ` set ds)"

lemma fresh_ids_step:
  assumes "fresh_ids (d # ds) st" and "spec_create d st = Some (t, st')"
  shows "fresh_ids ds st'"
proof -
  let ?n = "rd_name (td_resource d)"
  have bind: "sp_bind st' = (sp_bind st)(?n \<mapsto>
       \<lparr>bd_id = bound_id d st, bd_connector = rd_connector (td_resource d),
        bd_identity = rd_external_identity (td_resource d)\<rparr>)"
    using assms(2) by (auto simp: spec_create_def Let_def split: if_splits)
  have old: "bd_id b \<notin> (\<lambda>d. rd_candidate_id (td_resource d)) ` set ds" if "sp_bind st n = Some b" for n b
    using assms(1) that by (auto simp: fresh_ids_def)
  have "bd_id b \<notin> (\<lambda>d. rd_candidate_id (td_resource d)) ` set ds" if "sp_bind st' n = Some b" for n b
  proof (cases "n = ?n")
    case True
    then have "bd_id b = bound_id d st" using that by (auto simp: bind)
    moreover have "rd_candidate_id (td_resource d) \<notin> (\<lambda>d. rd_candidate_id (td_resource d)) ` set ds"
      using assms(1) by (simp add: fresh_ids_def)
    ultimately show ?thesis using old by (auto simp: bound_id_def split: option.splits)
  next
    case False
    then show ?thesis using that old by (simp add: bind)
  qed
  then show ?thesis using assms(1) by (simp add: fresh_ids_def)
qed

section \<open>The contract\<close>

text \<open>
  \<open>create\<close> and \<open>lookup\<close> are the two operations, run without a cancelled context or a failing
  driver; \<open>inv\<close> is the store's own invariant, \<open>abs\<close> reads it as an abstract store, and \<open>repr\<close>
  says which drafts the store can represent exactly.
\<close>

locale task_store =
  fixes create :: "TaskDraft \<Rightarrow> 's \<Rightarrow> (gerr + Task) \<times> 's"
    and lookup :: "task_id \<Rightarrow> 's \<Rightarrow> gerr + Task"
    and inv :: "'s \<Rightarrow> bool"
    and abs :: "'s \<Rightarrow> spec_store"
    and repr :: "TaskDraft \<Rightarrow> bool"
  assumes create_inv: "inv s \<Longrightarrow> repr d \<Longrightarrow> inv (snd (create d s))"
    and create_refines: "inv s \<Longrightarrow> repr d \<Longrightarrow>
      (case create d s of
         (Inl e, s') \<Rightarrow> (spec_create d (abs s) = None \<or> id_clash d (abs s)) \<and> abs s' = abs s
       | (Inr t, s') \<Rightarrow> spec_create d (abs s) = Some (t, abs s'))"
    and lookup_refines: "inv s \<Longrightarrow>
      (case lookup i s of Inl e \<Rightarrow> sp_tasks (abs s) i = None | Inr t \<Rightarrow> sp_tasks (abs s) i = Some t)"
begin

lemma create_Inr: "inv s \<Longrightarrow> repr d \<Longrightarrow> create d s = (Inr t, s') \<Longrightarrow> spec_create d (abs s) = Some (t, abs s')"
  using create_refines [of s d] by simp

lemma create_Inl:
  "inv s \<Longrightarrow> repr d \<Longrightarrow> create d s = (Inl e, s') \<Longrightarrow>
     (spec_create d (abs s) = None \<or> id_clash d (abs s)) \<and> abs s' = abs s"
  using create_refines [of s d] by simp

lemma lookup_iff: "inv s \<Longrightarrow> lookup i s = Inr t \<longleftrightarrow> sp_tasks (abs s) i = Some t"
  using lookup_refines [of s i] by (auto split: sum.splits)

text \<open>A created task is read back as it was returned.\<close>

lemma create_then_lookup:
  assumes "inv s" "repr d" "create d s = (Inr t, s')"
  shows "lookup (td_id d) s' = Inr t"
proof -
  have "inv s'" using create_inv [OF assms(1,2)] assms(3) by simp
  moreover have "sp_tasks (abs s') (td_id d) = Some t"
    using spec_create_fields(4) [OF create_Inr [OF assms]] by simp
  ultimately show ?thesis by (simp add: lookup_iff)
qed

text \<open>A refused submission changes no task that can be read.\<close>

lemma refused_changes_nothing:
  assumes "inv s" "repr d" "create d s = (Inl e, s')"
  shows "lookup i s' = Inr t \<longleftrightarrow> lookup i s = Inr t"
  using create_inv [OF assms(1,2)] assms(3) create_Inl [OF assms] assms(1) by (simp add: lookup_iff)

lemma create_keeps:
  assumes "inv s" "repr d" "create d s = (r, s')" "sp_tasks (abs s) i = Some t"
  shows "sp_tasks (abs s') i = Some t"
proof (cases r)
  case (Inl e)
  then show ?thesis using create_Inl [OF assms(1,2)] assms(3,4) by simp
next
  case (Inr u)
  note f = spec_create_fields [OF create_Inr [OF assms(1,2) assms(3) [unfolded Inr]]]
  show ?thesis using f(2,4) assms(4) by auto
qed

lemma run_inv: "inv s \<Longrightarrow> (\<And>d. d \<in> set ds \<Longrightarrow> repr d) \<Longrightarrow> inv (snd (run_store create ds s))"
proof (induction ds arbitrary: s)
  case (Cons d ds)
  then show ?case using create_inv [of s d] by (cases "create d s") simp
qed simp

text \<open>Tasks are immutable: whatever is submitted later, a task is read back the same.\<close>

lemma task_immutable:
  assumes "inv s" "\<And>d. d \<in> set ds \<Longrightarrow> repr d" "lookup i s = Inr t"
  shows "lookup i (snd (run_store create ds s)) = Inr t"
proof -
  have "sp_tasks (abs (snd (run_store create ds s))) i = Some t"
    using assms(1,2) lookup_iff [OF assms(1), THEN iffD1, OF assms(3)]
  proof (induction ds arbitrary: s)
    case (Cons d ds)
    obtain r s' where c: "create d s = (r, s')" by fastforce
    have d: "repr d" using Cons.prems(2) by simp
    have "inv s'" using create_inv [OF Cons.prems(1) d] c by simp
    moreover have "sp_tasks (abs s') i = Some t" using Cons.prems(1) d c Cons.prems(3) by (rule create_keeps)
    ultimately show ?case using Cons.IH [of s'] Cons.prems(2) c by simp
  qed simp
  then show ?thesis using run_inv [OF assms(1,2)] by (simp add: lookup_iff)
qed

text \<open>When no candidate identifier is used twice, a run is exactly the abstract run.\<close>

lemma run_refines:
  "inv s \<Longrightarrow> (\<And>d. d \<in> set ds \<Longrightarrow> repr d) \<Longrightarrow> fresh_ids ds (abs s) \<Longrightarrow>
     inv (snd (run_store create ds s)) \<and> spec_run ds (abs s) = apsnd abs (run_store create ds s)"
proof (induction ds arbitrary: s)
  case (Cons d ds)
  obtain r s' where c: "create d s = (r, s')" by fastforce
  have d: "repr d" using Cons.prems(2) by simp
  have s': "inv s'" using create_inv [OF Cons.prems(1) d] c by simp
  have clash: "\<not> id_clash d (abs s)" using Cons.prems(3) by (auto simp: fresh_ids_def id_clash_def)
  show ?case
  proof (cases r)
    case (Inl e)
    note n = create_Inl [OF Cons.prems(1) d c [unfolded Inl]]
    have "fresh_ids ds (abs s')" using Cons.prems(3) n by (auto simp: fresh_ids_def)
    from Cons.IH [OF s' Cons.prems(2) this] show ?thesis
      using Inl c n clash by (cases "run_store create ds s'") simp
  next
    case (Inr t)
    note n = create_Inr [OF Cons.prems(1) d c [unfolded Inr]]
    have "fresh_ids ds (abs s')" by (rule fresh_ids_step [OF Cons.prems(3) n])
    from Cons.IH [OF s' Cons.prems(2) this] show ?thesis
      using Inr c n by (cases "run_store create ds s'") simp
  qed
qed simp

end

end
