(* ===== verification/Manual_Input.thy ===== *)
theory Manual_Input
  imports Domain
begin

text \<open>
  \<open>NormalizeManualInput\<close> of \<open>internal/domain/task.go\<close>: which byte strings are accepted, and what
  the envelope holds, compared with a direct reading of the text's lines.  The result is a normal form: no carriage
  return or NUL, no blank line at either end, and normalising it again changes nothing.
\<close>

section \<open>The operation\<close>

definition maxManualInputSize :: nat where "maxManualInputSize = 1024 * 1024"

text \<open>\<open>strings.ReplaceAll(s, "\r\n", "\n")\<close> and \<open>strings.ReplaceAll(s, "\r", "\n")\<close>.\<close>

fun replace_crlf :: "string \<Rightarrow> string" where
  "replace_crlf [] = []"
| "replace_crlf (a # s) =
     (if a = CR \<and> prefix [LF] s then LF # replace_crlf (drop 1 s) else a # replace_crlf s)"

definition replace_cr :: "string \<Rightarrow> string" where
  "replace_cr s = map (\<lambda>c. if c = CR then LF else c) s"

definition blank_line :: "string \<Rightarrow> bool" where
  "blank_line l \<longleftrightarrow> trim_space l = []"

text \<open>The two loops over \<open>start\<close> and \<open>end\<close>: the lines between the outermost nonblank ones.\<close>

definition strip_blank_lines :: "string list \<Rightarrow> string list" where
  "strip_blank_lines ls = rev (dropWhile blank_line (rev (dropWhile blank_line ls)))"

definition NormalizeManualInput :: "string \<Rightarrow> gerr + TaskInput" where
  "NormalizeManualInput raw =
     (if length raw > maxManualInputSize then Inl (ErrNew ''manual input exceeds 1 MiB'')
      else if \<not> utf8_valid raw \<or> NUL \<in> set raw then Inl (ErrNew ''manual input is invalid'')
      else
        (let normalized = replace_cr (replace_crlf raw);
             lns = split_on LF normalized;
             instructions = join_with [LF] (strip_blank_lines lns)
         in if instructions = [] then Inl (ErrNew ''manual input is empty'')
            else if length instructions > maxManualInputSize then Inl (ErrNew ''manual input exceeds 1 MiB'')
            else Inr \<lparr>ti_version = 1, ti_source = TaskSourceManual, ti_instructions = instructions\<rparr>))"

section \<open>Line endings\<close>

lemma replace_crlf_set: "set (replace_crlf s) \<subseteq> set s"
  by (induction s rule: replace_crlf.induct) (auto simp: prefix_def dest: in_set_dropD)

lemma replace_crlf_length: "length (replace_crlf s) \<le> length s"
  by (induction s rule: replace_crlf.induct) (auto simp: prefix_def)

lemma replace_crlf_id: "CR \<notin> set s \<Longrightarrow> replace_crlf s = s"
  by (induction s rule: replace_crlf.induct) auto

lemma replace_crlf_append: "CR \<notin> set u \<Longrightarrow> replace_crlf (u @ s) = u @ replace_crlf s"
  by (induction u) auto

lemma replace_crlf_valid: "utf8_valid s \<Longrightarrow> utf8_valid (replace_crlf s)"
proof (induction s rule: length_induct)
  case (1 s)
  show ?case
  proof (cases "CR \<in> set s")
    case False
    then show ?thesis using 1 by (simp add: replace_crlf_id)
  next
    case True
    then obtain u t where s: "s = u @ CR # t" and u: "CR \<notin> set u" by (metis split_list_first)
    then have valid: "utf8_valid u" "utf8_valid t" using 1(2) by (simp_all add: utf8_valid_split)
    show ?thesis
    proof (cases "prefix [LF] t")
      case True
      then obtain t' where t: "t = LF # t'" by (auto simp: prefix_def)
      with valid have "utf8_valid (replace_crlf t')" using 1(1) s by simp
      with valid show ?thesis using u by (simp add: s t replace_crlf_append utf8_valid_split)
    next
      case False
      have "utf8_valid (replace_crlf t)" using 1(1) s valid by simp
      with valid False show ?thesis using u by (simp add: s replace_crlf_append utf8_valid_split)
    qed
  qed
qed

lemma replace_cr_valid: "utf8_valid s \<Longrightarrow> utf8_valid (replace_cr s)"
proof (induction s rule: length_induct)
  case (1 s)
  show ?case
  proof (cases "CR \<in> set s")
    case False
    then have "replace_cr s = s" by (auto simp: replace_cr_def intro: map_idI)
    then show ?thesis using 1 by simp
  next
    case True
    then obtain u t where s: "s = u @ CR # t" and u: "CR \<notin> set u" by (metis split_list_first)
    then have valid: "utf8_valid u" "utf8_valid (replace_cr t)" using 1 by (simp_all add: utf8_valid_split)
    moreover have "replace_cr s = u @ LF # replace_cr t"
      using s u by (auto simp: replace_cr_def intro: map_idI)
    ultimately show ?thesis by (simp add: utf8_valid_split)
  qed
qed

text \<open>\<open>newlines raw\<close> is the text with every line ending made a line feed.\<close>

abbreviation newlines :: "string \<Rightarrow> string" where
  "newlines raw \<equiv> replace_cr (replace_crlf raw)"

lemma newlines_facts:
  "CR \<notin> set (newlines raw)"
  "NUL \<notin> set raw \<Longrightarrow> NUL \<notin> set (newlines raw)"
  "length (newlines raw) \<le> length raw"
  "utf8_valid raw \<Longrightarrow> utf8_valid (newlines raw)"
  using replace_crlf_set [of raw] replace_crlf_length [of raw]
  by (auto simp: replace_cr_def replace_crlf_valid replace_cr_valid [unfolded replace_cr_def])

lemma newlines_id: "CR \<notin> set s \<Longrightarrow> newlines s = s"
  by (auto simp: replace_crlf_id replace_cr_def intro: map_idI)

section \<open>Lines\<close>

lemma split_valid: "utf8_valid s \<Longrightarrow> byte c < 128 \<Longrightarrow> w \<in> set (split_on c s) \<Longrightarrow> utf8_valid w"
proof (induction s arbitrary: w rule: length_induct)
  case (1 s)
  show ?case
  proof (cases "c \<in> set s")
    case False
    then show ?thesis using "1.prems" by (simp add: split_on_no_sep)
  next
    case True
    then obtain u t where s: "s = u @ c # t" and u: "c \<notin> set u" by (metis split_list_first)
    then have "utf8_valid u" "utf8_valid t" using "1.prems" by (simp_all add: utf8_valid_split)
    moreover have "split_on c s = u # split_on c t" using s u by (simp add: split_on_append_sep)
    moreover have "length t < length s" by (simp add: s)
    ultimately show ?thesis using 1 by auto
  qed
qed

lemma join_valid: "byte c < 128 \<Longrightarrow> (\<And>w. w \<in> set ws \<Longrightarrow> utf8_valid w) \<Longrightarrow> utf8_valid (join_with [c] ws)"
proof (induction ws)
  case (Cons w ws)
  then show ?case by (cases "ws = []") (simp_all add: join_with_Cons utf8_valid_split)
qed simp

lemma join_set: "set (join_with sep ws) \<subseteq> set sep \<union> \<Union> (set ` set ws)"
proof (induction ws)
  case (Cons w ws)
  then show ?case by (cases "ws = []") (auto simp: join_with_Cons)
qed simp

lemma prefix_strip_end: "prefix (rev (dropWhile P (rev xs))) xs"
  using suffix_dropWhile [of P "rev xs"] by (simp add: suffix_to_prefix)

lemma strip_blank_lines_set: "set (strip_blank_lines ls) \<subseteq> set ls"
  unfolding strip_blank_lines_def set_rev
  by (rule order_trans [OF set_mono_suffix [OF suffix_dropWhile]])
    (simp add: set_mono_suffix suffix_dropWhile)

lemma strip_blank_lines_facts:
  assumes "strip_blank_lines ls \<noteq> []"
  shows "\<not> blank_line (hd (strip_blank_lines ls))" "\<not> blank_line (last (strip_blank_lines ls))"
proof -
  let ?d = "dropWhile blank_line ls"
  let ?r = "dropWhile blank_line (rev ?d)"
  have r: "?r \<noteq> []" using assms by (simp add: strip_blank_lines_def)
  then have "\<not> blank_line (hd ?r)" by (rule hd_dropWhile)
  then show "\<not> blank_line (last (strip_blank_lines ls))"
    using r by (simp add: strip_blank_lines_def last_rev)
  obtain zs where zs: "?d = rev ?r @ zs" using prefix_strip_end unfolding prefix_def by blast
  have r': "rev ?r \<noteq> []" using r by (simp only: rev_is_Nil_conv not_False_eq_True)
  then have "hd (rev ?r @ zs) = hd (rev ?r)" by (rule hd_append2)
  then have "hd (rev ?r) = hd ?d" "?d \<noteq> []" using zs r' by (metis, metis append_is_Nil_conv)
  then show "\<not> blank_line (hd (strip_blank_lines ls))"
    by (simp add: strip_blank_lines_def hd_dropWhile)
qed

lemma strip_blank_lines_id:
  assumes "ls = [] \<or> \<not> blank_line (hd ls) \<and> \<not> blank_line (last ls)"
  shows "strip_blank_lines ls = ls"
proof -
  have "dropWhile blank_line ls = ls" using assms by (cases ls) auto
  moreover have "dropWhile blank_line (rev ls) = rev ls"
    using assms by (cases "rev ls") (auto simp: last_rev [of "rev ls", simplified])
  ultimately show ?thesis by (simp add: strip_blank_lines_def)
qed

lemma strip_blank_lines_empty: "strip_blank_lines ls = [] \<longleftrightarrow> (\<forall>l \<in> set ls. blank_line l)"
  by (auto simp: strip_blank_lines_def dropWhile_eq_Nil_conv dest: set_dropWhileD)
    (metis dropWhile_eq_Nil_conv hd_dropWhile hd_in_set set_rev)

lemma join_length_sublist: "suffix us ws \<Longrightarrow> length (join_with sep us) \<le> length (join_with sep ws)"
proof (induction ws)
  case (Cons w ws)
  show ?case
  proof (cases "us = w # ws")
    case False
    with Cons have "length (join_with sep us) \<le> length (join_with sep ws)" by (simp add: suffix_Cons)
    then show ?thesis by (cases "ws = []") (auto simp: join_with_Cons)
  qed simp
qed simp

lemma join_length_prefix: "prefix us ws \<Longrightarrow> length (join_with sep us) \<le> length (join_with sep ws)"
proof (induction us arbitrary: ws)
  case (Cons u us)
  then obtain vs where vs: "ws = u # vs" "prefix us vs" by (cases ws) auto
  with Cons.IH have "length (join_with sep us) \<le> length (join_with sep vs)" by simp
  with vs show ?case
    by (cases "us = []"; cases "vs = []") (auto simp: join_with_Cons)
qed simp

lemma join_strip_length: "length (join_with sep (strip_blank_lines ls)) \<le> length (join_with sep ls)"
proof -
  let ?d = "dropWhile blank_line ls"
  have "prefix (strip_blank_lines ls) ?d"
    unfolding strip_blank_lines_def by (rule prefix_strip_end)
  then show ?thesis
    using join_length_prefix join_length_sublist suffix_dropWhile le_trans by metis
qed

section \<open>The normal form\<close>

definition normal_instructions :: "string \<Rightarrow> bool" where
  "normal_instructions s \<longleftrightarrow>
     s \<noteq> [] \<and> length s \<le> maxManualInputSize \<and> utf8_valid s \<and> NUL \<notin> set s \<and> CR \<notin> set s \<and>
     \<not> blank_line (hd (split_on LF s)) \<and> \<not> blank_line (last (split_on LF s))"

lemma blank_Nil [simp]: "blank_line []"
  by (simp add: blank_line_def)

lemma join_strip_empty:
  "join_with [LF] (strip_blank_lines ls) = [] \<longleftrightarrow> (\<forall>l \<in> set ls. blank_line l)"
proof (cases "strip_blank_lines ls")
  case Nil
  then show ?thesis by (simp add: strip_blank_lines_empty [symmetric])
next
  case (Cons l ls')
  then have "\<not> blank_line l" using strip_blank_lines_facts(1) [of ls] by simp
  then have "l \<noteq> []" by auto
  then have "join_with [LF] (strip_blank_lines ls) \<noteq> []" using Cons by (cases ls') auto
  then show ?thesis using Cons by (auto simp flip: strip_blank_lines_empty)
qed

lemma NormalizeManualInput_ok:
  "NormalizeManualInput raw = Inr i \<longleftrightarrow>
     length raw \<le> maxManualInputSize \<and> utf8_valid raw \<and> NUL \<notin> set raw \<and>
     (\<exists>l \<in> set (split_on LF (newlines raw)). \<not> blank_line l) \<and>
     i = \<lparr>ti_version = 1, ti_source = TaskSourceManual,
          ti_instructions = join_with [LF] (strip_blank_lines (split_on LF (newlines raw)))\<rparr>"
proof -
  have "length (join_with [LF] (strip_blank_lines (split_on LF (newlines raw)))) \<le> length raw"
    using join_strip_length [of "[LF]" "split_on LF (newlines raw)"] newlines_facts(3) [of raw] by simp
  then show ?thesis
    by (auto simp: NormalizeManualInput_def Let_def join_strip_empty)
qed

lemma NormalizeManualInput_normal:
  assumes "NormalizeManualInput raw = Inr i"
  shows "normal_instructions (ti_instructions i)"
proof -
  let ?ls = "split_on LF (newlines raw)"
  let ?u = "strip_blank_lines ?ls"
  have raw: "length raw \<le> maxManualInputSize" "utf8_valid raw" "NUL \<notin> set raw"
    and ne: "\<exists>l \<in> set ?ls. \<not> blank_line l" and i: "ti_instructions i = join_with [LF] ?u"
    using assms by (simp_all add: NormalizeManualInput_ok)
  have u: "?u \<noteq> []" using ne by (auto simp: strip_blank_lines_empty)
  have part: "utf8_valid w \<and> NUL \<notin> set w \<and> CR \<notin> set w \<and> LF \<notin> set w" if "w \<in> set ?u" for w
  proof -
    have w: "w \<in> set ?ls" using that strip_blank_lines_set by blast
    then show ?thesis
      using split_valid [OF newlines_facts(4) [OF raw(2)] _ w] split_on_parts [OF w]
        split_on_parts_subset [OF w] newlines_facts(1,2) [of raw] raw(3) by auto
  qed
  have "split_on LF (join_with [LF] ?u) = ?u" using u part by (simp add: split_join)
  moreover have "join_with [LF] ?u \<noteq> []" using ne by (simp add: join_strip_empty)
  moreover have "length (join_with [LF] ?u) \<le> length raw"
    using join_strip_length [of "[LF]" ?ls] newlines_facts(3) [of raw] by simp
  moreover have "utf8_valid (join_with [LF] ?u)" using part by (simp add: join_valid)
  moreover have "NUL \<notin> set (join_with [LF] ?u)" "CR \<notin> set (join_with [LF] ?u)"
    using join_set [of "[LF]" ?u] part by auto
  ultimately show ?thesis
    using strip_blank_lines_facts [OF u] raw(1) by (simp add: normal_instructions_def i)
qed

lemma NormalizeManualInput_fixed:
  assumes "normal_instructions s"
  shows "NormalizeManualInput s = Inr \<lparr>ti_version = 1, ti_source = TaskSourceManual, ti_instructions = s\<rparr>"
proof -
  have "newlines s = s" using assms by (simp add: newlines_id normal_instructions_def)
  moreover have "strip_blank_lines (split_on LF s) = split_on LF s"
    using assms by (simp add: strip_blank_lines_id normal_instructions_def)
  moreover have "hd (split_on LF s) \<in> set (split_on LF s)" by simp
  then have "\<exists>l \<in> set (split_on LF s). \<not> blank_line l"
    using assms unfolding normal_instructions_def by blast
  ultimately show ?thesis
    using assms by (simp add: NormalizeManualInput_ok normal_instructions_def)
qed

section \<open>Text lines\<close>

text \<open>
  The lines of a text whose line ends are CRLF, CR or LF, read off directly: what the normaliser is compared
  with.  No byte of a line is changed.
\<close>

fun text_lines :: "string \<Rightarrow> string list" where
  "text_lines [] = [[]]"
| "text_lines [c] = (if c = LF \<or> c = CR then [[], []] else [[c]])"
| "text_lines (c # d # s) =
     (if c = CR \<and> d = LF then [] # text_lines s
      else if c = LF \<or> c = CR then [] # text_lines (d # s)
      else (c # hd (text_lines (d # s))) # tl (text_lines (d # s)))"

lemma text_lines_split: "text_lines raw = split_on LF (newlines raw)"
proof (induction raw rule: text_lines.induct)
  case (2 c)
  show ?case by (auto simp: replace_cr_def CR_def LF_def byte_def)
next
  case (3 c d s)
  then show ?case by (auto simp: replace_cr_def CR_def LF_def byte_def split: list.split)
qed (simp add: replace_cr_def)

text \<open>\<open>mid\<close> is what is left of \<open>ls\<close> without its blank lines at either end.\<close>

definition inner_lines :: "string list \<Rightarrow> string list \<Rightarrow> bool" where
  "inner_lines ls mid \<longleftrightarrow> mid \<noteq> [] \<and> \<not> blank_line (hd mid) \<and> \<not> blank_line (last mid) \<and>
     (\<exists>pre post. ls = pre @ mid @ post \<and> list_all blank_line pre \<and> list_all blank_line post)"

lemma strip_inner:
  assumes "strip_blank_lines ls \<noteq> []"
  shows "inner_lines ls (strip_blank_lines ls)"
proof -
  let ?d = "dropWhile blank_line ls"
  have pre: "ls = takeWhile blank_line ls @ ?d" by simp
  have "rev ?d = takeWhile blank_line (rev ?d) @ dropWhile blank_line (rev ?d)" by simp
  then have "?d = rev (dropWhile blank_line (rev ?d)) @ rev (takeWhile blank_line (rev ?d))"
    by (metis rev_append rev_rev_ident)
  then have "ls = takeWhile blank_line ls @ strip_blank_lines ls @ rev (takeWhile blank_line (rev ?d))"
    using pre by (simp add: strip_blank_lines_def)
  moreover have "list_all blank_line (takeWhile blank_line ls)"
    "list_all blank_line (rev (takeWhile blank_line (rev ?d)))"
    by (auto simp: list_all_iff dest: set_takeWhileD)
  ultimately show ?thesis
    unfolding inner_lines_def using assms strip_blank_lines_facts [OF assms] by blast
qed

text \<open>
  C19.  What the manual input normaliser accepts and returns.  It accepts exactly the valid UTF-8
  without NUL of at most 1 MiB that has a line which is not blank.  The instructions are the lines of the
  input, each line end CRLF, CR or LF, from the first to the last that is not blank, byte for byte, and joined by
  line feeds; the envelope is version 1 and source \<open>manual\<close>.  So they are in normal form (valid
  UTF-8, no NUL or carriage return, at most 1 MiB, first and last line not blank), and normalising them again
  gives the same envelope.
\<close>

theorem NormalizeManualInput_correct:
  "(is_ok (NormalizeManualInput raw) \<longleftrightarrow>
      length raw \<le> maxManualInputSize \<and> utf8_valid raw \<and> NUL \<notin> set raw \<and>
      (\<exists>l. l \<in> set (text_lines raw) \<and> \<not> blank_line l)) \<and>
   (case NormalizeManualInput raw of
      Inl e \<Rightarrow> e \<in> {ErrNew ''manual input exceeds 1 MiB'', ErrNew ''manual input is invalid'', ErrNew ''manual input is empty''}
    | Inr i \<Rightarrow> ti_version i = 1 \<and> ti_source i = TaskSourceManual \<and>
               (\<exists>mid. inner_lines (text_lines raw) mid \<and> ti_instructions i = join_with [LF] mid) \<and>
               normal_instructions (ti_instructions i) \<and>
               NormalizeManualInput (ti_instructions i) = Inr i)"
proof (cases "NormalizeManualInput raw")
  case (Inl e)
  then have "e \<in> {ErrNew ''manual input exceeds 1 MiB'', ErrNew ''manual input is invalid'', ErrNew ''manual input is empty''}"
    by (auto simp: NormalizeManualInput_def Let_def split: if_splits)
  moreover have "\<nexists>i. NormalizeManualInput raw = Inr i" using Inl by simp
  then have "\<not> (length raw \<le> maxManualInputSize \<and> utf8_valid raw \<and> NUL \<notin> set raw \<and>
      (\<exists>l \<in> set (text_lines raw). \<not> blank_line l))"
    unfolding NormalizeManualInput_ok text_lines_split by blast
  ultimately show ?thesis using Inl by auto
next
  case (Inr i)
  note ok = Inr [unfolded NormalizeManualInput_ok, folded text_lines_split]
  have "strip_blank_lines (text_lines raw) \<noteq> []" using ok by (auto simp: strip_blank_lines_empty)
  then have "inner_lines (text_lines raw) (strip_blank_lines (text_lines raw))" by (rule strip_inner)
  moreover have normal: "normal_instructions (ti_instructions i)" using Inr by (rule NormalizeManualInput_normal)
  moreover have "NormalizeManualInput (ti_instructions i) = Inr i"
    using NormalizeManualInput_fixed [OF normal] ok by simp
  ultimately show ?thesis using ok Inr by auto
qed

text \<open>The style of line endings does not matter: text with CRLF or CR endings gives the same
  envelope as the same text with line feeds, when both are accepted.\<close>

lemma NormalizeManualInput_newlines:
  "NormalizeManualInput raw = Inr i \<Longrightarrow> NormalizeManualInput (newlines raw) = Inr i"
  using newlines_facts [of raw] by (auto simp: NormalizeManualInput_ok newlines_id)

end
