(* ===== verification/Policy.thy ===== *)
theory Policy
  imports Domain "HOL-Library.Multiset"
begin

text \<open>
  \<open>internal/policy/resolve.go\<close>: validation of a policy request and of repository paths, and the
  resolution of the effective policy.  A request is accepted or not, and normalised, independently
  of the order in which Go visits its map; the effective policy allows an action only when the
  operator, the repository and the task allow it, and denies everything else.
\<close>

section \<open>Glob syntax\<close>

text \<open>
  Whether \<open>path.Match(pattern, "")\<close> of Go's library reports no error: \<open>scanChunk\<close> splits a pattern
  at its stars, \<open>matchChunk\<close> reads a chunk even after the match has failed, \<open>getEsc\<close> one end of a
  range.
\<close>

fun scan_body :: "bool \<Rightarrow> string \<Rightarrow> string \<times> string" where
  "scan_body inrange [] = ([], [])"
| "scan_body inrange [c] = (if c = CHR ''*'' \<and> \<not> inrange then ([], [c]) else ([c], []))"
| "scan_body inrange (c # d # s) =
     (if c = CHR ''*'' \<and> \<not> inrange then ([], c # d # s)
      else if c = backslash then (case scan_body inrange s of (chunk, r) \<Rightarrow> (c # d # chunk, r))
      else case scan_body (c = CHR ''['' \<or> inrange \<and> c \<noteq> CHR '']'') (d # s) of (chunk, r) \<Rightarrow> (c # chunk, r))"

definition scanChunk :: "string \<Rightarrow> bool \<times> string \<times> string" where
  "scanChunk p = (prefix ''*'' p, scan_body False (dropWhile (\<lambda>c. c = CHR ''*'') p))"

definition getEsc :: "string \<Rightarrow> string option" where
  "getEsc chunk =
     (if chunk = [] \<or> hd chunk \<in> set ''-]'' then None
      else
        (let s = (if hd chunk = backslash then tl chunk else chunk) in
         if s = [] \<or> rune_len s = 0 \<or> drop (rune_len s) s = [] then None
         else Some (drop (rune_len s) s)))"

lemma getEsc_shorter: "getEsc chunk = Some r \<Longrightarrow> length r < length chunk \<and> r \<noteq> []"
  by (cases chunk) (auto simp: getEsc_def Let_def split: if_splits)

function class_ranges :: "bool \<Rightarrow> string \<Rightarrow> string option" where
  "class_ranges first chunk =
     (if \<not> first \<and> prefix '']'' chunk then Some (tl chunk)
      else case getEsc chunk of None \<Rightarrow> None | Some r \<Rightarrow>
        (if hd r = CHR ''-'' then
           (case getEsc (tl r) of None \<Rightarrow> None | Some r' \<Rightarrow> class_ranges False r')
         else class_ranges False r))"
  by pat_completeness auto
termination
  by (relation "measure (\<lambda>(f, c). length c)") (fastforce dest!: getEsc_shorter)+

declare class_ranges.simps [simp del]

lemma class_ranges_shorter: "class_ranges f chunk = Some r \<Longrightarrow> length r < length chunk"
proof (induction f chunk rule: class_ranges.induct)
  case (1 f chunk)
  show ?case
  proof (cases "\<not> f \<and> prefix '']'' chunk")
    case True
    then show ?thesis using "1.prems" by (cases chunk) (auto simp: class_ranges.simps)
  next
    case False
    then obtain s where s: "getEsc chunk = Some s"
      using "1.prems" by (subst (asm) class_ranges.simps) (auto split: option.splits)
    note shorter = getEsc_shorter [OF s]
    show ?thesis
    proof (cases "hd s = CHR ''-''")
      case True
      then obtain s' where s': "getEsc (tl s) = Some s'" "class_ranges False s' = Some r"
        using "1.prems" False s by (subst (asm) class_ranges.simps) (auto split: option.splits)
      with "1.IH"(1) [OF False s True] have "length r < length s'" by blast
      with shorter getEsc_shorter [OF s'(1)] show ?thesis by (auto dest: order.strict_trans)
    next
      case neg: False
      then have "class_ranges False s = Some r"
        using "1.prems" False s by (subst (asm) class_ranges.simps) auto
      with "1.IH"(2) [OF False s neg] shorter show ?thesis by simp
    qed
  qed
qed

definition skip_negation :: "string \<Rightarrow> string" where
  "skip_negation s = (if prefix ''^'' s then tl s else s)"

function chunk_ok :: "string \<Rightarrow> bool" where
  "chunk_ok [] = True"
| "chunk_ok (c # s) =
     (if c = CHR ''['' then (case class_ranges True (skip_negation s) of None \<Rightarrow> False | Some r \<Rightarrow> chunk_ok r)
      else if c = backslash then s \<noteq> [] \<and> chunk_ok (tl s)
      else chunk_ok s)"
  by pat_completeness auto
termination
  by (relation "measure length")
    (auto dest!: class_ranges_shorter simp: skip_negation_def split: if_splits)

lemma scan_body_length: "scan_body f p = (c, r) \<Longrightarrow> length c + length r = length p"
  by (induction f p arbitrary: c r rule: scan_body.induct) (auto split: if_splits prod.splits)

lemma scan_body_progress: "scan_body False (x # p) = (c, r) \<Longrightarrow> x \<noteq> CHR ''*'' \<Longrightarrow> c \<noteq> []"
  by (cases p) (auto split: if_splits prod.splits)

lemma scanChunk_shorter:
  assumes "p \<noteq> []" "scanChunk p = (star, chunk, r)" "\<not> (star \<and> chunk = [])"
  shows "length r < length p"
proof -
  let ?d = "dropWhile (\<lambda>c. c = CHR ''*'') p"
  have scan: "scan_body False ?d = (chunk, r)" and star: "star = prefix ''*'' p"
    using assms(2) by (simp_all add: scanChunk_def)
  have le: "length chunk + length r = length ?d" using scan by (rule scan_body_length)
  have "chunk \<noteq> []"
  proof (cases star)
    case False
    then obtain c s where "p = c # s" "c \<noteq> CHR ''*''" using star assms(1) by (cases p) auto
    then show ?thesis using scan by (auto dest: scan_body_progress)
  qed (use assms(3) in simp)
  moreover have "length ?d \<le> length p" by (rule length_dropWhile_le)
  ultimately show ?thesis using le by (cases chunk) auto
qed

function path_Match_ok :: "string \<Rightarrow> bool" where
  "path_Match_ok p =
     (if p = [] then True
      else case scanChunk p of (star, chunk, r) \<Rightarrow>
        if star \<and> chunk = [] then True
        else if chunk_ok chunk then path_Match_ok r
        else False)"
  by pat_completeness auto
termination
  by (relation "measure length") (auto dest: scanChunk_shorter [OF _ sym])

declare path_Match_ok.simps [simp del]

section \<open>Paths\<close>

definition NormalizeInstructionPath :: "string \<Rightarrow> gerr + string" where
  "NormalizeInstructionPath raw =
     (let v = trim_space raw in
      if v = [] \<or> contains_any v (backslash # NUL # ''*?['') \<or> prefix ''/'' v \<or> suffix ''/'' v
      then Inl (ErrNew ''invalid instruction path'')
      else if list_ex (\<lambda>seg. seg = [] \<or> seg = ''.'' \<or> seg = ''..'') (split_on CHR ''/'' v)
      then Inl (ErrNew ''invalid instruction path'')
      else Inr v)"

definition protected_segment_ok :: "string \<Rightarrow> bool" where
  "protected_segment_ok seg =
     (if seg = [] \<or> seg = ''.'' \<or> seg = ''..'' then False
      else if seg = ''**'' then True
      else if contains seg ''**'' then False
      else path_Match_ok seg)"

definition NormalizeProtectedPath :: "string \<Rightarrow> gerr + string" where
  "NormalizeProtectedPath raw =
     (let v = trim_space raw in
      if v = [] \<or> contains_any v [backslash, NUL] \<or> prefix ''/'' v \<or> suffix ''/'' v
      then Inl (ErrNew ''invalid protected path'')
      else if \<not> list_all protected_segment_ok (split_on CHR ''/'' v)
      then Inl (ErrNew ''invalid protected path'')
      else Inr v)"

section \<open>Requests\<close>

text \<open>\<open>actionNamePattern\<close>: \<open>^[a-z][a-z0-9_]*(\.[a-z][a-z0-9_]*)+$\<close>.\<close>

definition action_word :: rx where
  "action_word = RSeq (RCls [(CHR ''a'', CHR ''z'')])
     (RStar (RCls [(CHR ''a'', CHR ''z''), (CHR ''0'', CHR ''9''), (CHR ''_'', CHR ''_'')]))"

definition actionNamePattern :: rx where
  "actionNamePattern = RSeq action_word (RPlus (RSeq (RLit ''.'') action_word))"

fun normalize_actions ::
  "(string \<times> policy_decision) list \<Rightarrow> (string \<times> policy_decision) list \<Rightarrow> gerr + (string \<times> policy_decision) list"
where
  "normalize_actions [] actions = Inr actions"
| "normalize_actions ((name, decision) # m) actions =
     (if \<not> rx_match actionNamePattern name then Inl (ErrNew ''invalid policy action name'')
      else if decision \<noteq> PolicyAllow \<and> decision \<noteq> PolicyDeny then Inl (ErrNew ''invalid policy decision'')
      else normalize_actions m (AList.update name decision actions))"

fun normalize_paths :: "string list \<Rightarrow> string set \<Rightarrow> string list \<Rightarrow> gerr + string list" where
  "normalize_paths [] seen paths = Inr paths"
| "normalize_paths (raw # raws) seen paths =
     (case NormalizeProtectedPath raw of
        Inl e \<Rightarrow> Inl e
      | Inr p \<Rightarrow>
          if p \<in> seen then Inl (ErrNew ''duplicate protected path'')
          else normalize_paths raws (insert p seen) (paths @ [p]))"

definition NormalizeRequest :: "PolicyRequest \<Rightarrow> gerr + PolicyRequest" where
  "NormalizeRequest request =
     (case normalize_actions (elems (pr_actions request)) [] of
        Inl e \<Rightarrow> Inl e
      | Inr actions \<Rightarrow>
          (case normalize_paths (elems (pr_protected_paths request)) {} [] of
             Inl e \<Rightarrow> Inl e
           | Inr paths \<Rightarrow> Inr \<lparr>pr_actions = Some actions, pr_protected_paths = Some paths\<rparr>))"

section \<open>The effective policy\<close>

definition deny_all :: "string list \<Rightarrow> (string \<times> policy_decision) list \<Rightarrow> (string \<times> policy_decision) list" where
  "deny_all names actions = foldl (\<lambda>m name. AList.update name PolicyDeny m) actions names"

definition Resolve :: "PolicyRequest \<Rightarrow> PolicyRequest \<Rightarrow> unit gomap \<Rightarrow> EffectivePolicy" where
  "Resolve operator repository taskAllowedActions =
     (let opActions = elems (pr_actions operator);
          repoActions = elems (pr_actions repository);
          denied = deny_all (map fst repoActions) (deny_all (map fst opActions) []);
          actions = map (\<lambda>(name, d).
            (name, if map_of opActions name = Some PolicyAllow \<and> map_of repoActions name = Some PolicyAllow
                      \<and> map_of (elems taskAllowedActions) name \<noteq> None
                   then PolicyAllow else d)) denied;
          protected = foldl (\<lambda>s v. List.insert v s) []
            (elems (pr_protected_paths operator) @ elems (pr_protected_paths repository))
      in \<lparr>ep_version = 1, ep_default_action = PolicyDeny, ep_actions = Some actions,
          ep_protected_paths = Some (sort protected)\<rparr>)"

section \<open>Paths, normalised\<close>

definition relative_path :: "string \<Rightarrow> bool" where
  "relative_path v \<longleftrightarrow>
     v \<noteq> [] \<and> trim_space v = v \<and> NUL \<notin> set v \<and> backslash \<notin> set v \<and>
     (\<forall>seg \<in> set (split_on CHR ''/'' v). seg \<notin> {'''', ''.'', ''..''})"

lemma NormalizeInstructionPath_ok:
  "NormalizeInstructionPath raw = Inr v \<longleftrightarrow>
     v = trim_space raw \<and> v \<noteq> [] \<and> \<not> contains_any v (backslash # NUL # ''*?['') \<and>
     \<not> prefix ''/'' v \<and> \<not> suffix ''/'' v \<and>
     (\<forall>seg \<in> set (split_on CHR ''/'' v). seg \<notin> {'''', ''.'', ''..''})"
  by (auto simp: NormalizeInstructionPath_def Let_def list_ex_iff split: if_splits)

lemma NormalizeProtectedPath_ok:
  "NormalizeProtectedPath raw = Inr v \<longleftrightarrow>
     v = trim_space raw \<and> v \<noteq> [] \<and> \<not> contains_any v [backslash, NUL] \<and>
     \<not> prefix ''/'' v \<and> \<not> suffix ''/'' v \<and> (\<forall>seg \<in> set (split_on CHR ''/'' v). protected_segment_ok seg)"
  by (auto simp: NormalizeProtectedPath_def Let_def list_all_iff split: if_splits)

lemma NormalizeProtectedPath_err:
  "NormalizeProtectedPath raw = Inl e \<Longrightarrow> e = ErrNew ''invalid protected path''"
  by (auto simp: NormalizeProtectedPath_def Let_def split: if_splits)

lemma protected_segment_named: "protected_segment_ok seg \<Longrightarrow> seg \<notin> {'''', ''.'', ''..''}"
  by (auto simp: protected_segment_ok_def split: if_splits)

lemma NormalizeProtectedPath_fixed:
  "NormalizeProtectedPath raw = Inr v \<Longrightarrow> NormalizeProtectedPath v = Inr v"
  by (auto simp: NormalizeProtectedPath_ok)

lemma NormalizeInstructionPath_fixed:
  "NormalizeInstructionPath raw = Inr v \<Longrightarrow> NormalizeInstructionPath v = Inr v"
  by (auto simp: NormalizeInstructionPath_ok)

text \<open>A pattern without glob syntax is a well-formed pattern.\<close>

lemma chunk_ok_literal: "CHR ''['' \<notin> set s \<Longrightarrow> backslash \<notin> set s \<Longrightarrow> chunk_ok s"
  by (induction s) auto

lemma scan_body_literal:
  "CHR ''*'' \<notin> set s \<Longrightarrow> CHR ''['' \<notin> set s \<Longrightarrow> backslash \<notin> set s \<Longrightarrow> scan_body False s = (s, [])"
proof (induction s)
  case (Cons c s)
  then show ?case by (cases s) auto
qed simp

lemma path_Match_literal:
  assumes "CHR ''*'' \<notin> set s" "CHR ''['' \<notin> set s" "backslash \<notin> set s"
  shows "path_Match_ok s"
proof (cases "s = []")
  case False
  have "dropWhile (\<lambda>c. c = CHR ''*'') s = s" using assms(1) by (cases s) auto
  then have "scanChunk s = (prefix ''*'' s, s, [])" by (simp add: scanChunk_def scan_body_literal assms)
  then show ?thesis using False assms path_Match_ok.simps [of "[]"]
    by (subst path_Match_ok.simps) (simp add: chunk_ok_literal)
qed (simp add: path_Match_ok.simps)

lemma literal_segment_ok:
  assumes "set s \<inter> {backslash, CHR ''*'', CHR ''[''} = {}" "s \<notin> {'''', ''.'', ''..''}"
  shows "protected_segment_ok s"
proof -
  have "\<not> contains s ''**''" using assms(1) by (auto simp: contains_iff)
  moreover have "s \<noteq> ''**''" using assms(1) by auto
  moreover have "path_Match_ok s" using assms(1) by (intro path_Match_literal) auto
  ultimately show ?thesis using assms(2) by (auto simp: protected_segment_ok_def)
qed

lemma instruction_path_protected:
  assumes "NormalizeInstructionPath raw = Inr v"
  shows "NormalizeProtectedPath raw = Inr v"
proof -
  note v = assms [unfolded NormalizeInstructionPath_ok contains_any_iff]
  have "protected_segment_ok seg" if "seg \<in> set (split_on CHR ''/'' v)" for seg
    using v that split_on_parts_subset [OF that] by (intro literal_segment_ok) auto
  then show ?thesis using v by (auto simp: NormalizeProtectedPath_ok contains_any_iff)
qed

text \<open>
  C18.  An accepted instruction path or protected path is the trimmed input, relative, without NUL or
  backslash and without empty, \<open>.\<close> or \<open>..\<close> segments, so it cannot leave the repository; it is accepted
  again unchanged, and every accepted instruction path is also a valid protected path.
\<close>

theorem normalized_paths_stay_inside:
  "(case NormalizeInstructionPath raw of
      Inl e \<Rightarrow> e = ErrNew ''invalid instruction path''
    | Inr v \<Rightarrow> v = trim_space raw \<and> relative_path v \<and> set v \<inter> set ''*?['' = {} \<and>
               NormalizeInstructionPath v = Inr v \<and> NormalizeProtectedPath raw = Inr v) \<and>
   (case NormalizeProtectedPath raw of
      Inl e \<Rightarrow> e = ErrNew ''invalid protected path''
    | Inr v \<Rightarrow> v = trim_space raw \<and> relative_path v \<and> NormalizeProtectedPath v = Inr v)"
proof -
  have "e = ErrNew ''invalid instruction path''" if "NormalizeInstructionPath raw = Inl e" for e
    using that by (auto simp: NormalizeInstructionPath_def Let_def split: if_splits)
  moreover have "v = trim_space raw \<and> relative_path v \<and> set v \<inter> set ''*?['' = {} \<and> NormalizeInstructionPath v = Inr v
      \<and> NormalizeProtectedPath raw = Inr v" if ok: "NormalizeInstructionPath raw = Inr v" for v
    using ok NormalizeInstructionPath_fixed [OF ok] instruction_path_protected [OF ok]
    by (auto simp: NormalizeInstructionPath_ok relative_path_def contains_any_iff)
  moreover have "v = trim_space raw \<and> relative_path v \<and> NormalizeProtectedPath v = Inr v"
    if ok: "NormalizeProtectedPath raw = Inr v" for v
    using ok NormalizeProtectedPath_fixed [OF ok] protected_segment_named
    by (fastforce simp: NormalizeProtectedPath_ok relative_path_def contains_any_iff)
  ultimately show ?thesis by (simp split: sum.split) (blast dest: NormalizeProtectedPath_err)
qed

section \<open>Requests, normalised\<close>

definition action_name :: "string \<Rightarrow> bool" where
  "action_name n \<longleftrightarrow> rx_match actionNamePattern n"

definition request_ok :: "PolicyRequest \<Rightarrow> bool" where
  "request_ok r \<longleftrightarrow>
     (\<forall>(n, d) \<in> set (elems (pr_actions r)). action_name n \<and> d \<in> {PolicyAllow, PolicyDeny}) \<and>
     (\<forall>p \<in> set (elems (pr_protected_paths r)). is_ok (NormalizeProtectedPath p)) \<and>
     distinct (map trim_space (elems (pr_protected_paths r)))"

lemma update_absent: "k \<notin> fst ` set m \<Longrightarrow> AList.update k v m = m @ [(k, v)]"
  by (induction m) auto

lemma normalize_actions_ok:
  "keys_distinct (acc @ m) \<Longrightarrow> normalize_actions m acc = Inr r \<longleftrightarrow>
     (\<forall>(n, d) \<in> set m. action_name n \<and> d \<in> {PolicyAllow, PolicyDeny}) \<and> r = acc @ m"
proof (induction m arbitrary: acc)
  case (Cons p m)
  obtain n d where p: "p = (n, d)" by (cases p)
  then have "AList.update n d acc = acc @ [(n, d)]"
    using Cons.prems by (intro update_absent) (auto simp: keys_distinct_def)
  moreover have "keys_distinct ((acc @ [(n, d)]) @ m)" using Cons.prems p by simp
  ultimately show ?case using Cons.IH [of "acc @ [(n, d)]"] by (auto simp: p action_name_def)
qed auto

lemma normalize_paths_ok:
  "normalize_paths raws seen paths = Inr r \<longleftrightarrow>
     (\<forall>p \<in> set raws. is_ok (NormalizeProtectedPath p)) \<and> distinct (map trim_space raws) \<and>
     set (map trim_space raws) \<inter> seen = {} \<and> r = paths @ map trim_space raws"
proof (induction raws arbitrary: seen paths)
  case (Cons raw raws)
  show ?case
  proof (cases "NormalizeProtectedPath raw")
    case (Inr p)
    then have "p = trim_space raw" by (simp add: NormalizeProtectedPath_ok)
    with Inr Cons.IH [of "insert p seen" "paths @ [p]"] show ?thesis by auto
  qed simp
qed auto

lemma NormalizeRequest_ok:
  assumes "keys_distinct (elems (pr_actions r))"
  shows "NormalizeRequest r = Inr r' \<longleftrightarrow>
    request_ok r \<and>
    r' = \<lparr>pr_actions = Some (elems (pr_actions r)),
          pr_protected_paths = Some (map trim_space (elems (pr_protected_paths r)))\<rparr>"
proof -
  have "keys_distinct ([] @ elems (pr_actions r))" using assms by simp
  note a = normalize_actions_ok [OF this, simplified]
  note p = normalize_paths_ok [of "elems (pr_protected_paths r)" "{}" "[]", simplified]
  have "NormalizeRequest r = Inr r' \<longleftrightarrow>
      (\<exists>actions paths. normalize_actions (elems (pr_actions r)) [] = Inr actions \<and>
         normalize_paths (elems (pr_protected_paths r)) {} [] = Inr paths \<and>
         r' = \<lparr>pr_actions = Some actions, pr_protected_paths = Some paths\<rparr>)"
    by (auto simp: NormalizeRequest_def split: sum.splits)
  then show ?thesis unfolding request_ok_def a p by auto
qed

lemma request_ok_normal:
  assumes "request_ok r"
  shows "request_ok \<lparr>pr_actions = Some (elems (pr_actions r)),
    pr_protected_paths = Some (map trim_space (elems (pr_protected_paths r)))\<rparr>"
proof -
  have "is_ok (NormalizeProtectedPath (trim_space p))" if "is_ok (NormalizeProtectedPath p)" for p
    using that by (auto simp: is_ok_iff NormalizeProtectedPath_ok)
  then show ?thesis using assms by (auto simp: request_ok_def comp_def)
qed

text \<open>
  C16.  A policy request is accepted exactly when every action name has the grammar, every decision is
  \<open>allow\<close> or \<open>deny\<close>, and the trimmed protected paths are valid and pairwise different; the result
  keeps the actions, trims the paths in their order, and is a fixed point.
\<close>

theorem NormalizeRequest_correct:
  assumes "keys_distinct (elems (pr_actions r))"
  shows "(is_ok (NormalizeRequest r) \<longleftrightarrow> request_ok r) \<and>
    (case NormalizeRequest r of
       Inl e \<Rightarrow> True
     | Inr r' \<Rightarrow> pr_actions r' = Some (elems (pr_actions r)) \<and>
         pr_protected_paths r' = Some (map trim_space (elems (pr_protected_paths r))) \<and>
         NormalizeRequest r' = Inr r')"
proof (cases "NormalizeRequest r")
  case (Inl e)
  have "\<not> request_ok r"
  proof
    assume "request_ok r"
    then have "\<exists>r'. NormalizeRequest r = Inr r'" by (simp add: NormalizeRequest_ok [OF assms])
    with Inl show False by simp
  qed
  with Inl show ?thesis by simp
next
  case (Inr r')
  note n = Inr [unfolded NormalizeRequest_ok [OF assms]]
  then have "keys_distinct (elems (pr_actions r'))" using assms by simp
  from NormalizeRequest_ok [OF this, of r'] n request_ok_normal [of r]
  have "NormalizeRequest r' = Inr r'" by (auto simp: comp_def)
  with Inr n show ?thesis by simp
qed

lemma NormalizeRequest_correct_witness:
  "is_ok (NormalizeRequest \<lparr>pr_actions = Some [(''task.run'', PolicyAllow)], pr_protected_paths = Some ['' infra/** '']\<rparr>) =
   request_ok \<lparr>pr_actions = Some [(''task.run'', PolicyAllow)], pr_protected_paths = Some ['' infra/** '']\<rparr>"
  using NormalizeRequest_correct [of "\<lparr>pr_actions = Some [(''task.run'', PolicyAllow)], pr_protected_paths = Some ['' infra/** '']\<rparr>"]
  by (simp add: keys_distinct_def)

text \<open>
  C17.  Go leaves the order of \<open>range\<close> over a map open.  For any two orders of the same map of actions
  a request is accepted in both or in neither, and the results hold the same decisions and the same
  protected paths (only which of several errors is reported may differ).
\<close>

theorem NormalizeRequest_order_independent:
  assumes "keys_distinct m" and "mset m' = mset m"
  shows "case (NormalizeRequest \<lparr>pr_actions = Some m, pr_protected_paths = ps\<rparr>,
               NormalizeRequest \<lparr>pr_actions = Some m', pr_protected_paths = ps\<rparr>) of
      (Inl e, Inl e') \<Rightarrow> True
    | (Inr r, Inr r') \<Rightarrow> map_of (elems (pr_actions r)) = map_of (elems (pr_actions r')) \<and>
                        pr_protected_paths r = pr_protected_paths r'
    | _ \<Rightarrow> False"
proof -
  have d: "keys_distinct m'"
    using assms unfolding keys_distinct_def by (metis mset_map mset_eq_imp_distinct_iff)
  have set: "set m' = set m" using assms(2) by (rule mset_eq_setD)
  then have "map_of m' k = Some v \<longleftrightarrow> map_of m k = Some v" for k v
    using assms(1) d by (simp add: keys_distinct_def)
  then have "map_of m' k = map_of m k" for k by (metis not_Some_eq)
  then have "map_of m' = map_of m" by (rule ext)
  let ?r = "\<lparr>pr_actions = Some m, pr_protected_paths = ps\<rparr>"
  let ?r' = "\<lparr>pr_actions = Some m', pr_protected_paths = ps\<rparr>"
  have same: "request_ok ?r' \<longleftrightarrow> request_ok ?r" by (simp add: request_ok_def set)
  have ok: "NormalizeRequest ?r = Inr x \<longleftrightarrow> request_ok ?r \<and> x = ?r\<lparr>pr_protected_paths := Some (map trim_space (elems ps))\<rparr>"
    "NormalizeRequest ?r' = Inr x \<longleftrightarrow> request_ok ?r \<and> x = ?r'\<lparr>pr_protected_paths := Some (map trim_space (elems ps))\<rparr>" for x
    using NormalizeRequest_ok [of ?r x] NormalizeRequest_ok [of ?r' x] assms(1) d same by simp_all
  show ?thesis
  proof (cases "request_ok ?r")
    case True
    then have "NormalizeRequest ?r = Inr (?r\<lparr>pr_protected_paths := Some (map trim_space (elems ps))\<rparr>)"
      "NormalizeRequest ?r' = Inr (?r'\<lparr>pr_protected_paths := Some (map trim_space (elems ps))\<rparr>)"
      by (simp_all only: ok)
    then show ?thesis using \<open>map_of m' = map_of m\<close> by simp
  next
    case False
    with ok have "NormalizeRequest ?r \<noteq> Inr x" "NormalizeRequest ?r' \<noteq> Inr x" for x by simp_all
    then show ?thesis by (cases "NormalizeRequest ?r"; cases "NormalizeRequest ?r'") auto
  qed
qed

lemma NormalizeRequest_order_independent_witness:
  "case (NormalizeRequest \<lparr>pr_actions = Some [(''a.b'', PolicyAllow), (''c.d'', PolicyDeny)], pr_protected_paths = None\<rparr>,
         NormalizeRequest \<lparr>pr_actions = Some [(''c.d'', PolicyDeny), (''a.b'', PolicyAllow)], pr_protected_paths = None\<rparr>) of
      (Inl e, Inl e') \<Rightarrow> True
    | (Inr r, Inr r') \<Rightarrow> map_of (elems (pr_actions r)) = map_of (elems (pr_actions r')) \<and>
                        pr_protected_paths r = pr_protected_paths r'
    | _ \<Rightarrow> False"
  by (rule NormalizeRequest_order_independent) (simp_all add: keys_distinct_def)

section \<open>The effective policy, resolved\<close>

definition decision :: "PolicyRequest \<Rightarrow> string \<Rightarrow> policy_decision option" where
  "decision r name = map_of (elems (pr_actions r)) name"

lemma deny_all_map_of: "map_of (deny_all names m) n = (if n \<in> set names then Some PolicyDeny else map_of m n)"
  unfolding deny_all_def
  by (induction names arbitrary: m) (auto simp: map_of_update)

lemma map_of_map_pair: "map_of (map (\<lambda>(k, v). (k, f k v)) m) k = map_option (f k) (map_of m k)"
  by (induction m) auto

lemma foldl_insert:
  "distinct s \<Longrightarrow> distinct (foldl (\<lambda>s v. List.insert v s) s vs) \<and>
     set (foldl (\<lambda>s v. List.insert v s) s vs) = set s \<union> set vs"
  by (induction vs arbitrary: s) auto

lemma Resolve_decision:
  "map_of (elems (ep_actions (Resolve op repo grant))) name =
     (if decision op name = None \<and> decision repo name = None then None
      else Some (if decision op name = Some PolicyAllow \<and> decision repo name = Some PolicyAllow \<and>
                    map_of (elems grant) name \<noteq> None then PolicyAllow else PolicyDeny))"
proof -
  have "n \<in> set (map fst m) \<longleftrightarrow> map_of m n \<noteq> None" for n and m :: "(string \<times> policy_decision) list"
    by (simp add: map_of_eq_None_iff)
  then show ?thesis
    by (simp only: Resolve_def Let_def map_of_map_pair deny_all_map_of decision_def elems_simps
        EffectivePolicy.simps) simp
qed

text \<open>
  C15.  The effective policy is the intersection of its three layers: its actions are the ones the
  operator or the repository name; an action is allowed exactly when both allow it and the task
  grants it, and denied otherwise; the default is \<open>deny\<close>; the protected paths are the union of both
  layers, sorted and without duplicates.
\<close>

theorem Resolve_intersects:
  "let e = Resolve op repo grant in
     ep_version e = 1 \<and> ep_default_action e = PolicyDeny \<and>
     (\<forall>name. map_of (elems (ep_actions e)) name =
       (if decision op name = None \<and> decision repo name = None then None
        else Some (if decision op name = Some PolicyAllow \<and> decision repo name = Some PolicyAllow \<and>
                      map_of (elems grant) name \<noteq> None then PolicyAllow else PolicyDeny))) \<and>
     sorted (elems (ep_protected_paths e)) \<and> distinct (elems (ep_protected_paths e)) \<and>
     set (elems (ep_protected_paths e)) =
       set (elems (pr_protected_paths op)) \<union> set (elems (pr_protected_paths repo))"
  using foldl_insert [of "[]" "elems (pr_protected_paths op) @ elems (pr_protected_paths repo)"]
  by (simp only: Let_def Resolve_decision) (simp add: Resolve_def Let_def)

text \<open>A task that is granted nothing may do nothing.\<close>

lemma update_values: "(n, x) \<in> set (AList.update k v m) \<Longrightarrow> x = v \<or> (n, x) \<in> set m"
  by (induction m) (auto split: if_splits)

lemma deny_all_values:
  "(n, x) \<in> set (deny_all names m) \<Longrightarrow> (\<And>n x. (n, x) \<in> set m \<Longrightarrow> x = PolicyDeny) \<Longrightarrow> x = PolicyDeny"
  unfolding deny_all_def
proof (induction names arbitrary: m)
  case (Cons a names)
  show ?case
    by (rule Cons.IH [of "AList.update a PolicyDeny m"])
      (use Cons.prems in \<open>auto dest: update_values\<close>)
qed auto

lemma Resolve_no_grant: "(name, d) \<in> set (elems (ep_actions (Resolve op repo None))) \<Longrightarrow> d = PolicyDeny"
proof -
  assume "(name, d) \<in> set (elems (ep_actions (Resolve op repo None)))"
  then have "(name, d) \<in> set (deny_all (map fst (elems (pr_actions repo))) (deny_all (map fst (elems (pr_actions op))) []))"
    by (auto simp: Resolve_def Let_def)
  then show "d = PolicyDeny"
    by (rule deny_all_values) (erule deny_all_values, simp)
qed

end
