(* ===== verification/Task_Service.thy ===== *)
theory Task_Service
  imports Task_Store Manual_Input Policy
begin

text \<open>
  \<open>internal/control/task.go\<close>: the task service.  Submitting a manual repository task normalises
  the repository's and the operator's policy, takes the four snapshots, builds a draft and hands it
  to the store; showing a task reads it.  The store is the contract of \<open>Task_Store\<close>; the result of
  the repository source, the identifier generator and the clock are arguments.  The lemmas say that
  every draft the service builds is valid, that it grants nothing, that a submitted task is shown
  unchanged and that a failing submission changes nothing.
\<close>

section \<open>Operations\<close>

definition NewFailure :: "string \<Rightarrow> gerr \<Rightarrow> gerr" where
  "NewFailure reason cause = ControlFailure reason (Some cause)"

text \<open>\<open>NewTaskService\<close>'s defaults: \<open>text\<close> is what \<open>rand.Text\<close> returns, \<open>clock\<close> what \<open>time.Now\<close> does.\<close>

definition service_newID :: "(string \<Rightarrow> string) option \<Rightarrow> string \<Rightarrow> string \<Rightarrow> string" where
  "service_newID newID text = (case newID of None \<Rightarrow> NewID text | Some f \<Rightarrow> f)"

definition service_now :: "gotime option \<Rightarrow> gotime \<Rightarrow> gotime" where
  "service_now now clock = (case now of None \<Rightarrow> time_UTC clock | Some t \<Rightarrow> t)"

definition copy_map :: "'v gomap \<Rightarrow> 'v gomap" where
  "copy_map m = Some (foldl (\<lambda>a (k, v). AList.update k v a) [] (elems m))"

definition cloneRepositoryConfiguration :: "RepositoryConfiguration \<Rightarrow> RepositoryConfiguration" where
  "cloneRepositoryConfiguration c =
     c\<lparr>rc_agent := (rc_agent c)\<lparr>ac_instructions := Some (elems (ac_instructions (rc_agent c)))\<rparr>,
       rc_policy := (rc_policy c)\<lparr>pr_actions := copy_map (pr_actions (rc_policy c)),
                                 pr_protected_paths := Some (elems (pr_protected_paths (rc_policy c)))\<rparr>,
       rc_validation := (rc_validation c)\<lparr>vd_required := Some (elems (vd_required (rc_validation c)))\<rparr>\<rparr>"

text \<open>\<open>SubmitManualRepository\<close> from the source's material to the draft.\<close>

definition material_complete :: "RepositoryMaterial \<Rightarrow> bool" where
  "material_complete m \<longleftrightarrow>
     rm_external_ref m \<noteq> '''' \<and> rm_external_identity m \<noteq> '''' \<and> rm_revision m \<noteq> '''' \<and>
     rc_version (rm_configuration m) = 1"

definition input_ok :: "TaskInput \<Rightarrow> bool" where
  "input_ok i \<longleftrightarrow> ti_version i = 1 \<and> ti_source i = TaskSourceManual \<and> ti_instructions i \<noteq> ''''"

definition make_draft ::
  "task_id \<Rightarrow> resource_id \<Rightarrow> string \<Rightarrow> string \<Rightarrow> RepositoryMaterial \<Rightarrow> snapshot \<Rightarrow> snapshot \<Rightarrow> snapshot \<Rightarrow> snapshot \<Rightarrow> gotime \<Rightarrow> TaskDraft"
where
  "make_draft taskID resourceID resourceName connectorName material configuration requestedPolicy input policy createdAt =
     \<lparr>td_id = taskID, td_status = TaskStatusPending,
      td_resource = \<lparr>rd_candidate_id = resourceID, rd_name = resourceName, rd_kind = ResourceKindRepository,
        rd_connector = connectorName, rd_external_ref = rm_external_ref material,
        rd_external_identity = rm_external_identity material, rd_revision = rm_revision material,
        rd_configuration = configuration, rd_requested_policy = requestedPolicy\<rparr>,
      td_input = input, td_configuration = configuration, td_policy = policy, td_created_at = createdAt,
      td_initial_history = \<lparr>he_sequence = 1, he_status = TaskStatusPending, he_occurred_at = createdAt,
        he_reason = HistoryReasonManualSubmission\<rparr>\<rparr>"

definition build_draft ::
  "(string \<Rightarrow> string) \<Rightarrow> gotime \<Rightarrow> string \<Rightarrow> string \<Rightarrow> TaskInput \<Rightarrow> PolicyRequest \<Rightarrow> RepositoryMaterial \<Rightarrow> gerr + TaskDraft"
where
  "build_draft newID now resourceName connectorName input operator material =
     (let invalid = NewFailure ''repository configuration is invalid''; failed = NewFailure ''task failed'';
          badInput = NewFailure ''task input is invalid'' in
      rbind (fail_if (\<not> material_complete material) (invalid (ErrNew ''repository material is incomplete''))) (\<lambda>_.
      let cloned = cloneRepositoryConfiguration (rm_configuration material) in
      rbind (map_err invalid (NormalizeRequest (rc_policy cloned))) (\<lambda>repositoryPolicy.
      let configuration = cloned\<lparr>rc_policy := repositoryPolicy\<rparr> in
      rbind (map_err failed (NormalizeRequest operator)) (\<lambda>operatorPolicy.
      rbind (fail_if (\<not> input_ok input) (badInput (ErrNew ''invalid normalized task input''))) (\<lambda>_.
      rbind (map_err invalid (NewSnapshot (json_RepositoryConfiguration configuration))) (\<lambda>configurationSnapshot.
      rbind (map_err invalid (NewSnapshot (json_PolicyRequest repositoryPolicy))) (\<lambda>requestedPolicySnapshot.
      rbind (map_err badInput (NewSnapshot (json_TaskInput input))) (\<lambda>inputSnapshot.
      rbind (map_err failed (NewSnapshot (json_EffectivePolicy (Resolve operatorPolicy repositoryPolicy None)))) (\<lambda>policySnapshot.
      rbind (fail_if (time_IsZero now) (failed (ErrNew ''task clock returned zero''))) (\<lambda>_.
      let draft = make_draft (newID ''task_'') (newID ''resource_'') resourceName connectorName material
                    configurationSnapshot requestedPolicySnapshot inputSnapshot policySnapshot (time_UTC now) in
      rbind (map_err failed (ParseTaskID (td_id draft))) (\<lambda>_.
      rbind (map_err failed (ParseResourceID (rd_candidate_id (td_resource draft)))) (\<lambda>_.
      Inr draft))))))))))))"

text \<open>
  The whole submission.  \<open>create\<close> is the store's \<open>CreateTask\<close> with the context it is passed (\<open>None\<close>
  when the service or its store is nil), \<open>source\<close> what \<open>source.Snapshot\<close> returns (\<open>None\<close> for a nil
  source).  The service itself looks at the context on entry, after a failing source and after a
  failing store: observations 0, 1 and 2.
\<close>

definition SubmitManualRepository ::
  "(TaskDraft \<Rightarrow> 's \<Rightarrow> (gerr + Task) \<times> 's) option \<Rightarrow> (string \<Rightarrow> string) \<Rightarrow> gotime \<Rightarrow> gctx \<Rightarrow> string \<Rightarrow> string \<Rightarrow>
   TaskInput \<Rightarrow> PolicyRequest \<Rightarrow> (gerr + RepositoryMaterial) option \<Rightarrow> 's \<Rightarrow> (gerr + Task) \<times> 's"
where
  "SubmitManualRepository create newID now ctx resourceName connectorName input operator source s =
     (case contextError ctx 0 of
        Some c \<Rightarrow> (Inl (NewFailure ''task cancelled'' (CtxError c)), s)
      | None \<Rightarrow>
          (case (create, source) of
             (Some create, Some source) \<Rightarrow>
               if resourceName = '''' \<or> connectorName = '''' then
                 (Inl (NewFailure ''task failed'' (ErrNew ''task service is not configured'')), s)
               else
                 (case source of
                    Inl e \<Rightarrow> (Inl (failureFromCause ctx 1 e), s)
                  | Inr material \<Rightarrow>
                      (case build_draft newID now resourceName connectorName input operator material of
                         Inl e \<Rightarrow> (Inl e, s)
                       | Inr draft \<Rightarrow>
                           (case create draft s of
                              (Inl e, s') \<Rightarrow> (Inl (failureFromCause ctx 2 e), s')
                            | (Inr created, s') \<Rightarrow> (Inr created, s'))))
           | _ \<Rightarrow> (Inl (NewFailure ''task failed'' (ErrNew ''task service is not configured'')), s)))"

definition Show :: "(task_id \<Rightarrow> 's \<Rightarrow> gerr + Task) option \<Rightarrow> gctx \<Rightarrow> task_id \<Rightarrow> 's \<Rightarrow> gerr + Task" where
  "Show lookup ctx i s =
     (case contextError ctx 0 of
        Some c \<Rightarrow> Inl (NewFailure ''task cancelled'' (CtxError c))
      | None \<Rightarrow>
          (case lookup of
             None \<Rightarrow> Inl (NewFailure ''state store is unavailable'' (ErrNew ''task store is not configured''))
           | Some lookup \<Rightarrow>
               (case ParseTaskID i of
                  Inl e \<Rightarrow> Inl (NewFailure ''task not found'' e)
                | Inr _ \<Rightarrow> map_err (failureFromCause ctx 1) (lookup i s))))"

section \<open>The draft\<close>

lemma build_draft_facts:
  assumes "build_draft newID now resourceName connectorName input operator material = Inr d"
  obtains repositoryPolicy operatorPolicy configuration requested inputs policy where
    "NormalizeRequest (rc_policy (cloneRepositoryConfiguration (rm_configuration material))) = Inr repositoryPolicy"
    "NormalizeRequest operator = Inr operatorPolicy"
    "NewSnapshot (json_RepositoryConfiguration
       ((cloneRepositoryConfiguration (rm_configuration material))\<lparr>rc_policy := repositoryPolicy\<rparr>)) = Inr configuration"
    "NewSnapshot (json_PolicyRequest repositoryPolicy) = Inr requested"
    "NewSnapshot (json_TaskInput input) = Inr inputs"
    "NewSnapshot (json_EffectivePolicy (Resolve operatorPolicy repositoryPolicy None)) = Inr policy"
    "material_complete material" "input_ok input" "\<not> time_IsZero now"
    "is_ok (ParseTaskID (newID ''task_''))" "is_ok (ParseResourceID (newID ''resource_''))"
    "d = make_draft (newID ''task_'') (newID ''resource_'') resourceName connectorName material
           configuration requested inputs policy (time_UTC now)"
  using assms
  by (auto simp: build_draft_def Let_def rbind_eq_Inr map_err_eq_Inr fail_if_eq_Inr is_ok_iff make_draft_def)

text \<open>Every draft the service builds is one a store may accept, and stores its creation time twice.\<close>

lemma build_draft_valid:
  assumes "build_draft newID now resourceName connectorName input operator material = Inr d"
    and "resourceName \<noteq> ''''" "connectorName \<noteq> ''''"
  shows "draft_valid d"
proof -
  from assms(1) obtain configuration requested inputs policy repositoryPolicy operatorPolicy where
    s: "NewSnapshot (json_RepositoryConfiguration
       ((cloneRepositoryConfiguration (rm_configuration material))\<lparr>rc_policy := repositoryPolicy\<rparr>)) = Inr configuration"
    "NewSnapshot (json_PolicyRequest repositoryPolicy) = Inr requested"
    "NewSnapshot (json_TaskInput input) = Inr inputs"
    "NewSnapshot (json_EffectivePolicy (Resolve operatorPolicy repositoryPolicy None)) = Inr policy"
    and m: "material_complete material" "\<not> time_IsZero now"
    "is_ok (ParseTaskID (newID ''task_''))" "is_ok (ParseResourceID (newID ''resource_''))"
    and d: "d = make_draft (newID ''task_'') (newID ''resource_'') resourceName connectorName material
           configuration requested inputs policy (time_UTC now)"
    by (rule build_draft_facts)
  note c = s [THEN NewSnapshot_canonical, unfolded canonical_iff]
  show ?thesis
    using m assms(2,3) c
    by (auto simp: d make_draft_def draft_valid_def material_complete_def ResourceKindRepository_def
        time_UTC_def time_IsZero_def)
qed

lemma submit_Inr:
  assumes "SubmitManualRepository (Some create) newID now ctx rn cn input operator source s = (Inr t, s')"
  obtains material d where "source = Some (Inr material)" "contextError ctx 0 = None"
    "build_draft newID now rn cn input operator material = Inr d" "create d s = (Inr t, s')" "draft_valid d"
proof -
  have "\<exists>material d. source = Some (Inr material) \<and> contextError ctx 0 = None \<and> rn \<noteq> '''' \<and> cn \<noteq> '''' \<and>
      build_draft newID now rn cn input operator material = Inr d \<and> create d s = (Inr t, s')"
    using assms unfolding SubmitManualRepository_def
    by (simp split: option.splits if_splits sum.splits prod.splits)
  with that build_draft_valid show ?thesis by metis
qed

lemma submit_Inl:
  assumes "SubmitManualRepository (Some create) newID now ctx rn cn input operator source s = (Inl e, s')"
  obtains "s' = s"
  | material d e' where "source = Some (Inr material)"
    "build_draft newID now rn cn input operator material = Inr d" "create d s = (Inl e', s')"
proof -
  have "s' = s \<or> (\<exists>material d e'. source = Some (Inr material) \<and>
      build_draft newID now rn cn input operator material = Inr d \<and> create d s = (Inl e', s'))"
    using assms unfolding SubmitManualRepository_def
    by (simp split: option.splits if_splits sum.splits prod.splits)
  with that show ?thesis by metis
qed

text \<open>The service fails with a \<open>Failure\<close> and nothing else.\<close>

lemma build_draft_failure: "build_draft newID now rn cn input operator material = Inl e \<Longrightarrow> is_failure e"
  by (auto simp: build_draft_def Let_def rbind_eq_Inl map_err_eq_Inl fail_if_eq_Inl NewFailure_def)

lemma submit_failure:
  "SubmitManualRepository create newID now ctx rn cn input operator source s = (Inl e, s') \<Longrightarrow> is_failure e"
  unfolding SubmitManualRepository_def
  by (auto simp: NewFailure_def failureFromCause_is_failure build_draft_failure
      split: option.splits sum.splits prod.splits if_splits)

lemma show_failure: "Show lookup ctx i s = Inl e \<Longrightarrow> is_failure e"
  unfolding Show_def
  by (auto simp: NewFailure_def failureFromCause_is_failure map_err_eq_Inl split: option.splits sum.splits)

text \<open>
  Whatever the store, the source, the clock and the identifier generator do, the only errors
  \<open>SubmitManualRepository\<close> and \<open>Show\<close> return are \<open>Failure\<close> values of the package, so the reason an
  operator sees is the failure's own and never the text of a store, connector or library error.
\<close>

lemma service_errors_are_failures:
  "(case SubmitManualRepository create newID now ctx rn cn input operator source s of
      (Inl e, s') \<Rightarrow> is_failure e | (Inr t, s') \<Rightarrow> create \<noteq> None) \<and>
   (case Show lookup ctx i s of Inl e \<Rightarrow> is_failure e | Inr t \<Rightarrow> is_ok (ParseTaskID i))"
proof
  have "create \<noteq> None" if "SubmitManualRepository create newID now ctx rn cn input operator source s = (Inr t, s')" for t s'
    using that unfolding SubmitManualRepository_def by (auto split: option.splits)
  then show "case SubmitManualRepository create newID now ctx rn cn input operator source s of
      (Inl e, s') \<Rightarrow> is_failure e | (Inr t, s') \<Rightarrow> create \<noteq> None"
    by (auto dest: submit_failure split: sum.split prod.split)
  show "case Show lookup ctx i s of Inl e \<Rightarrow> is_failure e | Inr t \<Rightarrow> is_ok (ParseTaskID i)"
  proof (cases "Show lookup ctx i s")
    case (Inr t)
    then show ?thesis by (auto simp: Show_def is_ok_iff split: option.splits sum.splits)
  qed (simp add: show_failure)
qed

section \<open>The service over any store that keeps the contract\<close>

definition grants_nothing :: "EffectivePolicy \<Rightarrow> bool" where
  "grants_nothing e \<longleftrightarrow> ep_default_action e = PolicyDeny \<and>
     (\<forall>(name, d) \<in> set (elems (ep_actions e)). d = PolicyDeny)"

lemma Resolve_None_grants_nothing: "grants_nothing (Resolve op repo None)"
  using Resolve_no_grant by (auto simp: grants_nothing_def) (simp add: Resolve_def Let_def)

text \<open>What a successful submission stores: the snapshots of the normalised input, configuration and
  of an effective policy that grants nothing and protects both layers' paths.\<close>

definition stored_faithfully :: "TaskInput \<Rightarrow> PolicyRequest \<Rightarrow> RepositoryMaterial \<Rightarrow> Task \<Rightarrow> bool" where
  "stored_faithfully input operator material t \<longleftrightarrow>
     NewSnapshot (json_TaskInput input) = Inr (tk_input t) \<and>
     (\<exists>operatorPolicy repositoryPolicy.
        NormalizeRequest operator = Inr operatorPolicy \<and>
        NormalizeRequest (rc_policy (cloneRepositoryConfiguration (rm_configuration material))) = Inr repositoryPolicy \<and>
        NewSnapshot (json_RepositoryConfiguration
          ((cloneRepositoryConfiguration (rm_configuration material))\<lparr>rc_policy := repositoryPolicy\<rparr>)) =
          Inr (tk_configuration t) \<and>
        NewSnapshot (json_EffectivePolicy (Resolve operatorPolicy repositoryPolicy None)) = Inr (tk_policy t) \<and>
        grants_nothing (Resolve operatorPolicy repositoryPolicy None))"

lemma task_of_faithful:
  assumes "build_draft newID now rn cn input operator material = Inr d"
  shows "stored_faithfully input operator material (task_of d i)"
    "tk_status (task_of d i) = TaskStatusPending" "tk_created_at (task_of d i) = time_UTC now"
    "tk_id (task_of d i) = newID ''task_''"
    "rs_revision (tk_resource (task_of d i)) = rm_revision material"
    "rs_name (tk_resource (task_of d i)) = rn" "rs_connector (tk_resource (task_of d i)) = cn"
proof -
  from assms obtain configuration requested inputs policy repositoryPolicy operatorPolicy where
    p: "NormalizeRequest (rc_policy (cloneRepositoryConfiguration (rm_configuration material))) = Inr repositoryPolicy"
    "NormalizeRequest operator = Inr operatorPolicy"
    and s: "NewSnapshot (json_RepositoryConfiguration
       ((cloneRepositoryConfiguration (rm_configuration material))\<lparr>rc_policy := repositoryPolicy\<rparr>)) = Inr configuration"
    "NewSnapshot (json_PolicyRequest repositoryPolicy) = Inr requested"
    "NewSnapshot (json_TaskInput input) = Inr inputs"
    "NewSnapshot (json_EffectivePolicy (Resolve operatorPolicy repositoryPolicy None)) = Inr policy"
    and d: "d = make_draft (newID ''task_'') (newID ''resource_'') rn cn material
           configuration requested inputs policy (time_UTC now)"
    by (rule build_draft_facts)
  note c = s [THEN NewSnapshot_canonical, THEN parsed_id]
  show "stored_faithfully input operator material (task_of d i)"
    unfolding stored_faithfully_def using p s Resolve_None_grants_nothing
    by (simp add: task_of_def d make_draft_def c)
qed (use assms in \<open>auto elim!: build_draft_facts simp: task_of_def make_draft_def\<close>)

context task_store
begin

lemma submitted_task:
  assumes "inv s"
    and repr: "\<And>material d. source = Some (Inr material) \<Longrightarrow>
           build_draft newID now rn cn input operator material = Inr d \<Longrightarrow> repr d"
    and "SubmitManualRepository (Some create) newID now ctx rn cn input operator source s = (Inr t, s')"
  shows "\<exists>material. source = Some (Inr material) \<and> stored_faithfully input operator material t \<and>
           tk_id t = newID ''task_'' \<and> tk_status t = TaskStatusPending \<and> tk_created_at t = time_UTC now"
    and "inv s'" "lookup (tk_id t) s' = Inr t" "is_ok (ParseTaskID (tk_id t))"
proof -
  from assms(3) obtain material d where m: "source = Some (Inr material)"
    and b: "build_draft newID now rn cn input operator material = Inr d"
    and c: "create d s = (Inr t, s')" and v: "draft_valid d"
    by (rule submit_Inr)
  note r = repr [OF m b]
  have t: "t = task_of d (bound_id d (abs s))"
    using spec_create_fields(3) [OF create_Inr [OF assms(1) r c]] .
  note f = task_of_faithful [OF b]
  show "\<exists>material. source = Some (Inr material) \<and> stored_faithfully input operator material t \<and>
           tk_id t = newID ''task_'' \<and> tk_status t = TaskStatusPending \<and> tk_created_at t = time_UTC now"
    using m t f by auto
  show "inv s'" using create_inv [OF assms(1) r] c by simp
  have "tk_id t = td_id d" using t by (simp add: task_of_def)
  then show "lookup (tk_id t) s' = Inr t" "is_ok (ParseTaskID (tk_id t))"
    using create_then_lookup [OF assms(1) r c] v by (simp_all add: draft_valid_def)
qed

lemma submit_then_show:
  assumes "inv s"
    and "\<And>material d. source = Some (Inr material) \<Longrightarrow>
           build_draft newID now rn cn input operator material = Inr d \<Longrightarrow> repr d"
    and "SubmitManualRepository (Some create) newID now ctx rn cn input operator source s = (Inr t, s')"
    and "contextError ctx' 0 = None" "\<And>d. d \<in> set ds \<Longrightarrow> repr d"
  shows "Show (Some lookup) ctx' (tk_id t) (snd (run_store create ds s')) = Inr t"
proof -
  have t: "inv s'" "lookup (tk_id t) s' = Inr t" "is_ok (ParseTaskID (tk_id t))"
    by (rule submitted_task [OF assms(1) _ assms(3)], erule (1) assms(2))+
  have "lookup (tk_id t) (snd (run_store create ds s')) = Inr t"
    by (rule task_immutable [OF t(1) assms(5) t(2)])
  then show ?thesis using t(3) assms(4) by (auto simp: Show_def is_ok_iff)
qed

lemma failed_submission:
  assumes "inv s"
    and repr: "\<And>material d. source = Some (Inr material) \<Longrightarrow>
           build_draft newID now rn cn input operator material = Inr d \<Longrightarrow> repr d"
    and "SubmitManualRepository (Some create) newID now ctx rn cn input operator source s = (Inl e, s')"
  shows "inv s'" "abs s' = abs s" "lookup i s' = Inr t \<longleftrightarrow> lookup i s = Inr t"
proof -
  have both: "inv s' \<and> abs s' = abs s"
    using assms(3)
  proof (rule submit_Inl)
    assume "s' = s"
    then show ?thesis using assms(1) by simp
  next
    fix material d e'
    assume m: "source = Some (Inr material)" "build_draft newID now rn cn input operator material = Inr d"
      and c: "create d s = (Inl e', s')"
    note r = repr [OF m]
    show ?thesis using create_inv [OF assms(1) r] create_Inl [OF assms(1) r c] c by simp
  qed
  then show "inv s'" "abs s' = abs s" by simp_all
  with both show "lookup i s' = Inr t \<longleftrightarrow> lookup i s = Inr t"
    using assms(1) by (simp add: lookup_iff)
qed

end

section \<open>A submission for the witnesses\<close>

definition sample_time :: gotime where
  "sample_time = \<lparr>t_sec = 63904982400, t_nsec = 500, t_loc = UTC, t_mono = None\<rparr>"

definition sample_newID :: "string \<Rightarrow> string" where
  "sample_newID = NewID ''ABCDEFGHIJKLMNOPQRSTUVWXYZ''"

definition sample_input :: TaskInput where
  "sample_input = \<lparr>ti_version = 1, ti_source = TaskSourceManual, ti_instructions = ''do it''\<rparr>"

definition sample_operator :: PolicyRequest where
  "sample_operator = \<lparr>pr_actions = None, pr_protected_paths = None\<rparr>"

definition sample_commit :: string where
  "sample_commit = ''0123456789abcdef0123456789abcdef01234567''"

definition sample_material :: RepositoryMaterial where
  "sample_material = \<lparr>rm_external_ref = ''owner/repo'', rm_external_identity = ''42'', rm_revision = sample_commit,
     rm_configuration = \<lparr>rc_version = 1, rc_agent = \<lparr>ac_instructions = Some []\<rparr>,
       rc_policy = \<lparr>pr_actions = Some [], pr_protected_paths = Some []\<rparr>,
       rc_validation = \<lparr>vd_required = Some []\<rparr>\<rparr>\<rparr>"

lemma sample_one: "dec_int 1 = ''1''" "num_ok ''1''"
proof -
  have "digit 1 = CHR ''1''" by code_simp
  then show "dec_int 1 = ''1''" by (simp add: dec_int_def dec_nat.simps)
  show "num_ok ''1''"
    by (simp add: num_ok_def parse_num_def num_sign_def num_int_def num_frac_def num_exp_def is_digit_def byte_def)
qed

lemmas json_eval =
  NewSnapshot_tree json_TaskInput_def json_PolicyRequest_def json_RepositoryConfiguration_def
  json_EffectivePolicy_def json_AgentConfiguration_def json_ValidationConfiguration_def
  json_decisions_def json_strings_def json_int_def sample_one json_depth_le max_depth_def enc.simps(6)
  sort_members_def less_char_def byte_def esc_rune_def dquote_def backslash_def maxSnapshotSize_def

definition sample_draft :: TaskDraft where
  "sample_draft =
     (case build_draft sample_newID sample_time ''core'' ''github'' sample_input sample_operator sample_material of
        Inr d \<Rightarrow> d)"

lemma sample_ids: "id_body ''ABCDEFGHIJKLMNOPQRSTUVWXYZ''"
  by (simp add: id_body_def base32_def byte_def)

lemma sample_built:
  "build_draft sample_newID sample_time ''core'' ''github'' sample_input sample_operator sample_material =
     Inr sample_draft"
proof -
  let ?p = "\<lparr>pr_actions = Some [], pr_protected_paths = Some []\<rparr>"
  let ?c = "\<lparr>rc_version = 1, rc_agent = \<lparr>ac_instructions = Some []\<rparr>, rc_policy = ?p,
              rc_validation = \<lparr>vd_required = Some []\<rparr>\<rparr>"
  let ?e = "\<lparr>ep_version = 1, ep_default_action = PolicyDeny, ep_actions = Some [], ep_protected_paths = Some []\<rparr>"
  have norm: "NormalizeRequest sample_operator = Inr ?p" "NormalizeRequest ?p = Inr ?p"
    by (simp_all add: NormalizeRequest_def sample_operator_def)
  have clone: "cloneRepositoryConfiguration (rm_configuration sample_material) = ?c"
    by (simp add: cloneRepositoryConfiguration_def sample_material_def copy_map_def)
  have resolve: "Resolve ?p ?p None = ?e"
    by (simp add: Resolve_def Let_def deny_all_def)
  have snap: "is_ok (NewSnapshot (json_RepositoryConfiguration ?c))"
    "is_ok (NewSnapshot (json_PolicyRequest ?p))" "is_ok (NewSnapshot (json_TaskInput sample_input))"
    "is_ok (NewSnapshot (json_EffectivePolicy ?e))"
    by (simp_all add: json_eval sample_input_def TaskSourceManual_def PolicyDeny_def)
  have ids: "ParseTaskID (sample_newID ''task_'') = Inr (sample_newID ''task_'')"
    "ParseResourceID (sample_newID ''resource_'') = Inr (sample_newID ''resource_'')"
    using sample_ids by (simp_all add: result_simps sample_newID_def NewID_def)
  have ok: "material_complete sample_material" "input_ok sample_input" "\<not> time_IsZero sample_time"
    by (simp_all add: material_complete_def sample_material_def sample_commit_def input_ok_def sample_input_def
        sample_time_def time_IsZero_def)
  have "is_ok (build_draft sample_newID sample_time ''core'' ''github'' sample_input sample_operator sample_material)"
    using snap ids ok unfolding is_ok_iff
    by (auto simp: build_draft_def Let_def norm clone resolve make_draft_def)
  then show ?thesis by (auto simp: sample_draft_def is_ok_iff)
qed

lemma sample_draft_valid: "draft_valid sample_draft"
  by (rule build_draft_valid [OF sample_built]) simp_all

end
