(* ===== verification/Memory_Store.thy ===== *)
theory Memory_Store
  imports Task_Service
begin

text \<open>
  \<open>internal/store/memory/store.go\<close>: the in-memory task store.  A store is nil (\<open>None\<close>) or three
  maps; every operation holds the store's mutex from its first look at the maps to its last write,
  so it is one step from a state to a result and a state.  The invariant \<open>memory_inv\<close> is kept by
  every operation, an error leaves the store unchanged, and a created task is what is read back.
\<close>

section \<open>State\<close>

record mresource =
  mr_id :: resource_id
  mr_name :: string
  mr_kind :: resource_kind
  mr_connector :: string
  mr_external_ref :: string
  mr_external_identity :: string
  mr_revision :: string
  mr_configuration :: snapshot
  mr_requested_policy :: snapshot
  mr_onboarded_at :: gotime
  mr_updated_at :: gotime

record memory_store =
  ms_resources :: "(string \<times> mresource) list"
  ms_tasks :: "(task_id \<times> Task) list"
  ms_history :: "(task_id \<times> TaskHistoryEntry list) list"

definition ErrTaskNotFound :: gerr where "ErrTaskNotFound = Sentinel ''memory.ErrTaskNotFound''"
definition ErrResourceConflict :: gerr where "ErrResourceConflict = Sentinel ''memory.ErrResourceConflict''"

definition storeError :: "string \<Rightarrow> gerr \<Rightarrow> gerr" where
  "storeError reason cause = MemoryError reason (Some cause)"

definition memory_New :: memory_store where
  "memory_New = \<lparr>ms_resources = [], ms_tasks = [], ms_history = []\<rparr>"

section \<open>Drafts\<close>

fun check_snapshots :: "snapshot list \<Rightarrow> gerr + unit" where
  "check_snapshots [] = Inr ()"
| "check_snapshots (s # ss) =
     (case ParseSnapshot (Snapshot_Bytes s) of Inl e \<Rightarrow> Inl e | Inr _ \<Rightarrow> check_snapshots ss)"

definition resource_complete :: "ResourceDraft \<Rightarrow> bool" where
  "resource_complete r \<longleftrightarrow>
     rd_name r \<noteq> '''' \<and> rd_kind r \<noteq> '''' \<and> rd_connector r \<noteq> '''' \<and> rd_external_ref r \<noteq> '''' \<and>
     rd_external_identity r \<noteq> '''' \<and> rd_revision r \<noteq> ''''"

definition validateDraft :: "TaskDraft \<Rightarrow> gerr + unit" where
  "validateDraft draft =
     rbind (ParseTaskID (td_id draft)) (\<lambda>_.
     rbind (fail_if (td_status draft \<noteq> TaskStatusPending \<or> time_IsZero (td_created_at draft) \<or>
                     t_loc (td_created_at draft) \<noteq> UTC)
              (ErrNew ''invalid task metadata'')) (\<lambda>_.
     let resource = td_resource draft in
     rbind (ParseResourceID (rd_candidate_id resource)) (\<lambda>_.
     rbind (fail_if (\<not> resource_complete resource) (ErrNew ''incomplete resource metadata'')) (\<lambda>_.
     rbind (fail_if (Snapshot_Bytes (rd_configuration resource) \<noteq> Snapshot_Bytes (td_configuration draft))
              (ErrNew ''configuration snapshots differ'')) (\<lambda>_.
     rbind (check_snapshots [rd_configuration resource, rd_requested_policy resource, td_input draft,
                             td_configuration draft, td_policy draft]) (\<lambda>_.
     fail_if (he_sequence (td_initial_history draft) \<noteq> 1 \<or>
              he_status (td_initial_history draft) \<noteq> td_status draft \<or>
              \<not> time_Equal (he_occurred_at (td_initial_history draft)) (td_created_at draft) \<or>
              he_reason (td_initial_history draft) \<noteq> HistoryReasonManualSubmission)
       (ErrNew ''invalid initial task history'')))))))"

definition copyTask :: "Task \<Rightarrow> gerr + Task" where
  "copyTask t =
     rbind (ParseSnapshot (Snapshot_Bytes (tk_input t))) (\<lambda>input.
     rbind (ParseSnapshot (Snapshot_Bytes (tk_configuration t))) (\<lambda>configuration.
     rbind (ParseSnapshot (Snapshot_Bytes (tk_policy t))) (\<lambda>policy.
     Inr (t\<lparr>tk_input := input, tk_configuration := configuration, tk_policy := policy\<rparr>))))"

section \<open>Operations\<close>

text \<open>The part of \<open>CreateTask\<close> that runs under the lock.\<close>

definition conflicts_elsewhere :: "TaskDraft \<Rightarrow> memory_store \<Rightarrow> bool" where
  "conflicts_elsewhere draft s \<longleftrightarrow>
     list_ex (\<lambda>(_, existing). mr_name existing \<noteq> rd_name (td_resource draft) \<and>
                mr_connector existing = rd_connector (td_resource draft) \<and>
                mr_external_identity existing = rd_external_identity (td_resource draft))
       (ms_resources s)"

definition upsert_resource :: "TaskDraft \<Rightarrow> snapshot \<Rightarrow> snapshot \<Rightarrow> mresource option \<Rightarrow> mresource" where
  "upsert_resource draft configuration requestedPolicy stored =
     (let r = td_resource draft in
      case stored of
        Some old \<Rightarrow> old\<lparr>mr_kind := rd_kind r, mr_external_ref := rd_external_ref r,
                        mr_revision := rd_revision r, mr_configuration := configuration,
                        mr_requested_policy := requestedPolicy, mr_updated_at := td_created_at draft\<rparr>
      | None \<Rightarrow> \<lparr>mr_id = rd_candidate_id r, mr_name = rd_name r, mr_kind = rd_kind r,
                 mr_connector = rd_connector r, mr_external_ref = rd_external_ref r,
                 mr_external_identity = rd_external_identity r, mr_revision = rd_revision r,
                 mr_configuration = configuration, mr_requested_policy = requestedPolicy,
                 mr_onboarded_at = td_created_at draft, mr_updated_at = td_created_at draft\<rparr>)"

definition resource_snapshot :: "mresource \<Rightarrow> ResourceSnapshot" where
  "resource_snapshot r = \<lparr>rs_id = mr_id r, rs_name = mr_name r, rs_kind = mr_kind r,
                          rs_connector = mr_connector r, rs_revision = mr_revision r\<rparr>"

definition create_locked ::
  "TaskDraft \<Rightarrow> snapshot \<Rightarrow> snapshot \<Rightarrow> snapshot \<Rightarrow> snapshot \<Rightarrow> snapshot \<Rightarrow> memory_store \<Rightarrow> (gerr + Task) \<times> memory_store"
where
  "create_locked draft configuration requestedPolicy input taskConfiguration policy s =
     (if map_of (ms_tasks s) (td_id draft) \<noteq> None then
        (Inl (storeError ''task could not be submitted'' (ErrNew ''duplicate task'')), s)
      else if conflicts_elsewhere draft s then
        (Inl (storeError ''resource conflicts with stored onboarding'' ErrResourceConflict), s)
      else
        (let stored = map_of (ms_resources s) (rd_name (td_resource draft)) in
         if (case stored of None \<Rightarrow> False | Some r \<Rightarrow>
               mr_connector r \<noteq> rd_connector (td_resource draft) \<or>
               mr_external_identity r \<noteq> rd_external_identity (td_resource draft)) then
           (Inl (storeError ''resource conflicts with stored onboarding'' ErrResourceConflict), s)
         else
           (let resource = upsert_resource draft configuration requestedPolicy stored;
                created = \<lparr>tk_id = td_id draft, tk_status = td_status draft,
                           tk_created_at = td_created_at draft, tk_resource = resource_snapshot resource,
                           tk_input = input, tk_configuration = taskConfiguration, tk_policy = policy\<rparr>
            in (copyTask created,
                \<lparr>ms_resources = AList.update (rd_name (td_resource draft)) resource (ms_resources s),
                 ms_tasks = AList.update (td_id draft) created (ms_tasks s),
                 ms_history = AList.update (td_id draft) [td_initial_history draft] (ms_history s)\<rparr>))))"

definition create_checked :: "TaskDraft \<Rightarrow> memory_store \<Rightarrow> (gerr + Task) \<times> memory_store" where
  "create_checked draft s =
     (let failed = (\<lambda>e. (Inl (storeError ''task could not be submitted'' e), s)) in
      case validateDraft draft of Inl e \<Rightarrow> failed e | Inr _ \<Rightarrow>
      (case ParseSnapshot (Snapshot_Bytes (rd_configuration (td_resource draft))) of Inl e \<Rightarrow> failed e
       | Inr configuration \<Rightarrow>
      (case ParseSnapshot (Snapshot_Bytes (rd_requested_policy (td_resource draft))) of Inl e \<Rightarrow> failed e
       | Inr requestedPolicy \<Rightarrow>
      (case ParseSnapshot (Snapshot_Bytes (td_input draft)) of Inl e \<Rightarrow> failed e
       | Inr input \<Rightarrow>
      (case ParseSnapshot (Snapshot_Bytes (td_configuration draft)) of Inl e \<Rightarrow> failed e
       | Inr taskConfiguration \<Rightarrow>
      (case ParseSnapshot (Snapshot_Bytes (td_policy draft)) of Inl e \<Rightarrow> failed e
       | Inr policy \<Rightarrow>
           create_locked draft configuration requestedPolicy input taskConfiguration policy s))))))"

definition memory_CreateTask :: "gctx \<Rightarrow> TaskDraft \<Rightarrow> memory_store option \<Rightarrow> (gerr + Task) \<times> memory_store option" where
  "memory_CreateTask ctx draft store =
     (case contextError ctx 0 of
        Some c \<Rightarrow> (Inl (storeError ''task could not be submitted'' (CtxError c)), store)
      | None \<Rightarrow>
          (case store of
             None \<Rightarrow> (Inl (storeError ''task store is unavailable'' (ErrNew ''store is nil'')), None)
           | Some s \<Rightarrow> apsnd Some (create_checked draft s)))"

definition memory_Task :: "gctx \<Rightarrow> task_id \<Rightarrow> memory_store option \<Rightarrow> gerr + Task" where
  "memory_Task ctx i store =
     (case contextError ctx 0 of
        Some c \<Rightarrow> Inl (storeError ''task store is unavailable'' (CtxError c))
      | None \<Rightarrow>
          (case store of
             None \<Rightarrow> Inl (storeError ''task store is unavailable'' (ErrNew ''store is nil''))
           | Some s \<Rightarrow>
               (case map_of (ms_tasks s) i of
                  None \<Rightarrow> Inl (storeError ''task not found'' ErrTaskNotFound)
                | Some t \<Rightarrow> copyTask t)))"

definition memory_History :: "task_id \<Rightarrow> memory_store option \<Rightarrow> TaskHistoryEntry list" where
  "memory_History i store =
     (case store of None \<Rightarrow> []
      | Some s \<Rightarrow> (case map_of (ms_history s) i of None \<Rightarrow> [] | Some h \<Rightarrow> h))"

section \<open>Drafts accepted\<close>

lemma check_snapshots_ok: "check_snapshots ss = Inr u \<longleftrightarrow> (\<forall>s \<in> set ss. is_ok (ParseSnapshot s))"
  by (induction ss) (auto simp: Snapshot_Bytes_def is_ok_iff split: sum.splits)

text \<open>\<open>memory_repr\<close>: the recorded time of the first history entry is the creation time, not merely an
  equal instant with another location or monotonic reading.\<close>

definition memory_repr :: "TaskDraft \<Rightarrow> bool" where
  "memory_repr d \<longleftrightarrow>
     (time_Equal (he_occurred_at (td_initial_history d)) (td_created_at d) \<longrightarrow>
      he_occurred_at (td_initial_history d) = td_created_at d)"

lemma time_Equal_refl [simp]: "time_Equal t t"
  by (simp add: time_Equal_def split: option.split)

lemma validateDraft_valid: "memory_repr d \<Longrightarrow> is_ok (validateDraft d) \<longleftrightarrow> draft_valid d"
  by (auto simp: is_ok_iff validateDraft_def Let_def result_simps check_snapshots_ok draft_valid_def
      Snapshot_Bytes_def resource_complete_def memory_repr_def simp del: check_snapshots.simps fail_if_simps)

lemma validateDraft_snapshots:
  assumes "validateDraft d = Inr u"
  shows "is_ok (ParseSnapshot (rd_configuration (td_resource d)))"
    "is_ok (ParseSnapshot (rd_requested_policy (td_resource d)))"
    "is_ok (ParseSnapshot (td_input d))" "is_ok (ParseSnapshot (td_configuration d))"
    "is_ok (ParseSnapshot (td_policy d))" "is_ok (ParseTaskID (td_id d))"
  using assms
  by (auto simp: validateDraft_def Let_def result_simps check_snapshots_ok is_ok_iff Snapshot_Bytes_def
      simp del: check_snapshots.simps)

lemma copyTask_id:
  "canonical (tk_input t) \<Longrightarrow> canonical (tk_configuration t) \<Longrightarrow> canonical (tk_policy t) \<Longrightarrow> copyTask t = Inr t"
  by (simp add: copyTask_def Snapshot_Bytes_def canonical_iff)

text \<open>\<open>CreateTask\<close> after validation, with the snapshots parsed.\<close>

lemma create_checked_valid:
  assumes "validateDraft d = Inr u"
  shows "create_checked d s =
    create_locked d (parsed (rd_configuration (td_resource d))) (parsed (rd_requested_policy (td_resource d)))
      (parsed (td_input d)) (parsed (td_configuration d)) (parsed (td_policy d)) s"
  using validateDraft_snapshots [OF assms]
  by (simp add: create_checked_def assms Let_def Snapshot_Bytes_def ok_parsed)

lemma create_checked_invalid:
  "validateDraft d = Inl e \<Longrightarrow> create_checked d s = (Inl (storeError ''task could not be submitted'' e), s)"
  by (simp add: create_checked_def Let_def)

section \<open>The store as an abstract store\<close>

definition memory_abs :: "memory_store \<Rightarrow> spec_store" where
  "memory_abs s =
     \<lparr>sp_bind = (\<lambda>n. map_option (\<lambda>r. \<lparr>bd_id = mr_id r, bd_connector = mr_connector r,
                                     bd_identity = mr_external_identity r\<rparr>) (map_of (ms_resources s) n)),
      sp_tasks = map_of (ms_tasks s)\<rparr>"

lemma memory_abs_tasks [simp]: "sp_tasks (memory_abs s) = map_of (ms_tasks s)"
  by (simp add: memory_abs_def)

definition memory_inv :: "memory_store \<Rightarrow> bool" where
  "memory_inv s \<longleftrightarrow>
     keys_distinct (ms_resources s) \<and> keys_distinct (ms_tasks s) \<and> keys_distinct (ms_history s) \<and>
     (\<forall>(n, r) \<in> set (ms_resources s). mr_name r = n) \<and>
     (\<forall>(i, t) \<in> set (ms_tasks s).
        canonical (tk_input t) \<and> canonical (tk_configuration t) \<and> canonical (tk_policy t) \<and>
        is_ok (ParseTaskID i) \<and>
        (\<exists>h. map_of (ms_history s) i = Some [h] \<and> he_sequence h = 1 \<and> he_status h = tk_status t \<and>
             he_reason h = HistoryReasonManualSubmission)) \<and>
     spec_inv (memory_abs s)"

lemma map_of_set: "keys_distinct m \<Longrightarrow> (k, v) \<in> set m \<longleftrightarrow> map_of m k = Some v"
  by (simp add: keys_distinct_def)

lemma memory_conflicts:
  assumes "memory_inv s"
  shows "conflicts_elsewhere d s \<or>
     (case map_of (ms_resources s) (rd_name (td_resource d)) of None \<Rightarrow> False | Some r \<Rightarrow>
        mr_connector r \<noteq> rd_connector (td_resource d) \<or>
        mr_external_identity r \<noteq> rd_external_identity (td_resource d)) \<longleftrightarrow>
     binding_conflict d (memory_abs s)"
proof -
  have d: "keys_distinct (ms_resources s)" and n: "\<And>n r. map_of (ms_resources s) n = Some r \<Longrightarrow> mr_name r = n"
    using assms by (auto simp: memory_inv_def dest: map_of_SomeD)
  let ?n = "rd_name (td_resource d)"
  let ?own = "\<lambda>r. mr_connector r = rd_connector (td_resource d) \<and>
                mr_external_identity r = rd_external_identity (td_resource d)"
  have "binding_conflict d (memory_abs s) \<longleftrightarrow>
      (\<exists>n r. map_of (ms_resources s) n = Some r \<and> (n = ?n) \<noteq> ?own r)"
    by (fastforce simp: binding_conflict_def owns_def memory_abs_def)
  moreover have "conflicts_elsewhere d s \<longleftrightarrow>
      (\<exists>n r. map_of (ms_resources s) n = Some r \<and> n \<noteq> ?n \<and> ?own r)"
    using n by (fastforce simp: conflicts_elsewhere_def list_ex_iff map_of_set [OF d, symmetric])
  ultimately show ?thesis by (auto split: option.split)
qed

lemma upsert_binding:
  assumes "map_of (ms_resources s) (rd_name (td_resource d)) = stored"
    and "\<And>r. stored = Some r \<Longrightarrow> mr_connector r = rd_connector (td_resource d) \<and>
            mr_external_identity r = rd_external_identity (td_resource d) \<and> mr_name r = rd_name (td_resource d)"
    and "r = upsert_resource d c p stored"
  shows "mr_id r = bound_id d (memory_abs s)" "mr_name r = rd_name (td_resource d)"
    "mr_connector r = rd_connector (td_resource d)" "mr_external_identity r = rd_external_identity (td_resource d)"
    "resource_snapshot r = tk_resource (task_of d (bound_id d (memory_abs s)))"
  using assms(1,2)
  by (auto simp: assms(3) upsert_resource_def Let_def bound_id_def memory_abs_def resource_snapshot_def
      task_of_def split: option.splits)

section \<open>Creating a task\<close>

definition created_state :: "TaskDraft \<Rightarrow> memory_store \<Rightarrow> memory_store" where
  "created_state d s =
     (let r = upsert_resource d (parsed (rd_configuration (td_resource d)))
                (parsed (rd_requested_policy (td_resource d))) (map_of (ms_resources s) (rd_name (td_resource d)))
      in \<lparr>ms_resources = AList.update (rd_name (td_resource d)) r (ms_resources s),
          ms_tasks = AList.update (td_id d) (task_of d (bound_id d (memory_abs s))) (ms_tasks s),
          ms_history = AList.update (td_id d) [td_initial_history d] (ms_history s)\<rparr>)"

lemma task_of_canonical:
  assumes "draft_valid d"
  shows "canonical (tk_input (task_of d i))" "canonical (tk_configuration (task_of d i))"
    "canonical (tk_policy (task_of d i))"
  using assms by (auto simp: task_of_def draft_valid_def intro: parsed_canonical)

lemma create_checked_split:
  assumes inv: "memory_inv s" and v: "validateDraft d = Inr u"
  shows "if map_of (ms_tasks s) (td_id d) \<noteq> None \<or> binding_conflict d (memory_abs s)
    then \<exists>e. create_checked d s = (Inl e, s)
    else create_checked d s = (Inr (task_of d (bound_id d (memory_abs s))), created_state d s)"
proof -
  let ?stored = "map_of (ms_resources s) (rd_name (td_resource d))"
  let ?bad = "case ?stored of None \<Rightarrow> False | Some r \<Rightarrow>
        mr_connector r \<noteq> rd_connector (td_resource d) \<or>
        mr_external_identity r \<noteq> rd_external_identity (td_resource d)"
  note conf = memory_conflicts [OF inv, of d]
  show ?thesis
  proof (cases "map_of (ms_tasks s) (td_id d) \<noteq> None \<or> binding_conflict d (memory_abs s)")
    case True
    then have "map_of (ms_tasks s) (td_id d) \<noteq> None \<or> conflicts_elsewhere d s \<or> ?bad" using conf by blast
    then have "\<exists>e. create_checked d s = (Inl e, s)"
      unfolding create_checked_valid [OF v] create_locked_def Let_def by auto
    with True show ?thesis by simp
  next
    case False
    then have free: "map_of (ms_tasks s) (td_id d) = None" "\<not> conflicts_elsewhere d s" "\<not> ?bad"
      using conf by blast+
    have own: "mr_connector r = rd_connector (td_resource d) \<and>
        mr_external_identity r = rd_external_identity (td_resource d) \<and> mr_name r = rd_name (td_resource d)"
      if "?stored = Some r" for r
      using free(3) that inv by (auto simp: memory_inv_def dest: map_of_SomeD)
    define r where "r = upsert_resource d (parsed (rd_configuration (td_resource d)))
      (parsed (rd_requested_policy (td_resource d))) ?stored"
    note ub = upsert_binding [OF refl own r_def]
    let ?t = "task_of d (bound_id d (memory_abs s))"
    have "\<lparr>tk_id = td_id d, tk_status = td_status d, tk_created_at = td_created_at d,
        tk_resource = resource_snapshot r, tk_input = parsed (td_input d),
        tk_configuration = parsed (td_configuration d), tk_policy = parsed (td_policy d)\<rparr> = ?t"
      using ub(5) by (simp add: task_of_def)
    moreover have "copyTask ?t = Inr ?t"
      using validateDraft_snapshots [OF v]
      by (intro copyTask_id) (auto simp: task_of_def intro: parsed_canonical)
    ultimately have "create_checked d s = (Inr ?t, created_state d s)"
      unfolding create_checked_valid [OF v] create_locked_def Let_def created_state_def
      using free by (simp add: r_def [symmetric])
    with False show ?thesis by simp
  qed
qed

lemma created_state_abs:
  assumes inv: "memory_inv s" and v: "draft_valid d"
    and free: "map_of (ms_tasks s) (td_id d) = None" "\<not> binding_conflict d (memory_abs s)"
  shows "spec_create d (memory_abs s) =
    Some (task_of d (bound_id d (memory_abs s)), memory_abs (created_state d s))"
proof -
  let ?n = "rd_name (td_resource d)"
  let ?stored = "map_of (ms_resources s) ?n"
  have own: "mr_connector r = rd_connector (td_resource d) \<and>
        mr_external_identity r = rd_external_identity (td_resource d) \<and> mr_name r = ?n"
    if "?stored = Some r" for r
    using memory_conflicts [OF inv, of d] free(2) that inv by (auto simp: memory_inv_def dest: map_of_SomeD)
  define r where "r = upsert_resource d (parsed (rd_configuration (td_resource d)))
      (parsed (rd_requested_policy (td_resource d))) ?stored"
  note ub = upsert_binding [OF refl own r_def]
  have "memory_abs (created_state d s) =
    \<lparr>sp_bind = (sp_bind (memory_abs s))(?n \<mapsto>
       \<lparr>bd_id = bound_id d (memory_abs s), bd_connector = rd_connector (td_resource d),
        bd_identity = rd_external_identity (td_resource d)\<rparr>),
     sp_tasks = (sp_tasks (memory_abs s))(td_id d \<mapsto> task_of d (bound_id d (memory_abs s)))\<rparr>"
    using ub by (auto simp: memory_abs_def [of "created_state d s"] created_state_def Let_def map_of_update
        r_def [symmetric] memory_abs_def fun_eq_iff)
  then show ?thesis
    using v free by (simp add: spec_create_def Let_def)
qed

lemma created_state_inv:
  assumes inv: "memory_inv s" and v: "draft_valid d"
    and free: "map_of (ms_tasks s) (td_id d) = None" "\<not> binding_conflict d (memory_abs s)"
  shows "memory_inv (created_state d s)"
proof -
  let ?n = "rd_name (td_resource d)"
  let ?t = "task_of d (bound_id d (memory_abs s))"
  let ?s' = "created_state d s"
  have own: "mr_connector r = rd_connector (td_resource d) \<and>
        mr_external_identity r = rd_external_identity (td_resource d) \<and> mr_name r = ?n"
    if "map_of (ms_resources s) ?n = Some r" for r
    using memory_conflicts [OF inv, of d] free(2) that inv by (auto simp: memory_inv_def dest: map_of_SomeD)
  define r where "r = upsert_resource d (parsed (rd_configuration (td_resource d)))
      (parsed (rd_requested_policy (td_resource d))) (map_of (ms_resources s) ?n)"
  have name: "mr_name r = ?n" by (rule upsert_binding(2) [OF refl own r_def])
  have d: "keys_distinct (ms_resources ?s')" "keys_distinct (ms_tasks ?s')" "keys_distinct (ms_history ?s')"
    using inv by (simp_all add: created_state_def Let_def keys_distinct_update memory_inv_def)
  have "mr_name x = n" if "(n, x) \<in> set (ms_resources ?s')" for n x
  proof -
    have "map_of (ms_resources ?s') n = Some x" using that d by (simp add: map_of_set)
    then show ?thesis using inv name
      by (auto simp: created_state_def Let_def map_of_update r_def [symmetric] memory_inv_def
          split: if_splits dest: map_of_SomeD)
  qed
  moreover have "canonical (tk_input t) \<and> canonical (tk_configuration t) \<and> canonical (tk_policy t) \<and>
        is_ok (ParseTaskID i) \<and>
        (\<exists>h. map_of (ms_history ?s') i = Some [h] \<and> he_sequence h = 1 \<and> he_status h = tk_status t \<and>
             he_reason h = HistoryReasonManualSubmission)"
    if "(i, t) \<in> set (ms_tasks ?s')" for i t
  proof (cases "i = td_id d")
    case True
    have "map_of (ms_tasks ?s') i = Some t" using that d by (simp add: map_of_set)
    then have "t = ?t" using True by (simp add: created_state_def Let_def map_of_update)
    then show ?thesis using True v task_of_canonical [OF v]
      by (simp add: created_state_def Let_def map_of_update draft_valid_def task_of_def)
  next
    case False
    have "map_of (ms_tasks ?s') i = Some t" using that d by (simp add: map_of_set)
    then have "(i, t) \<in> set (ms_tasks s)"
      using False by (auto simp: created_state_def Let_def map_of_update dest: map_of_SomeD)
    then show ?thesis using inv False by (auto simp: memory_inv_def created_state_def Let_def map_of_update)
  qed
  moreover have "spec_inv (memory_abs ?s')"
    using spec_create_inv [OF created_state_abs [OF assms]] inv by (simp add: memory_inv_def)
  ultimately show ?thesis using d unfolding memory_inv_def by auto
qed

section \<open>The memory store satisfies the contract\<close>

definition memory_lookup :: "task_id \<Rightarrow> memory_store \<Rightarrow> gerr + Task" where
  "memory_lookup i s = memory_Task None i (Some s)"

lemma memory_Task_live: "live ctx \<Longrightarrow> memory_Task ctx i (Some s) = memory_lookup i s"
  by (simp add: memory_lookup_def memory_Task_def)

lemma memory_CreateTask_live: "live ctx \<Longrightarrow> memory_CreateTask ctx d (Some s) = apsnd Some (create_checked d s)"
  by (simp add: memory_CreateTask_def)

lemma memory_lookup_inv:
  assumes "memory_inv s"
  shows "memory_lookup i s =
    (case map_of (ms_tasks s) i of None \<Rightarrow> Inl (storeError ''task not found'' ErrTaskNotFound) | Some t \<Rightarrow> Inr t)"
proof -
  have "copyTask t = Inr t" if "map_of (ms_tasks s) i = Some t" for t
    using assms map_of_SomeD [OF that] by (intro copyTask_id) (auto simp: memory_inv_def)
  then show ?thesis by (simp add: memory_lookup_def memory_Task_def contextError_def split: option.split)
qed

lemma memory_create_cases:
  assumes "memory_inv s" "memory_repr d"
  shows "if spec_create d (memory_abs s) = None then \<exists>e. create_checked d s = (Inl e, s)
    else create_checked d s = (Inr (task_of d (bound_id d (memory_abs s))), created_state d s) \<and>
      draft_valid d \<and> map_of (ms_tasks s) (td_id d) = None \<and> \<not> binding_conflict d (memory_abs s)"
proof (cases "validateDraft d")
  case (Inl e)
  then have "\<not> draft_valid d" using validateDraft_valid [OF assms(2)] by simp
  then show ?thesis using Inl by (simp add: create_checked_invalid spec_create_def)
next
  case (Inr u)
  then have "draft_valid d" using validateDraft_valid [OF assms(2)] by simp
  then show ?thesis
    using create_checked_split [OF assms(1) Inr] by (auto simp: spec_create_def Let_def split: if_splits)
qed

interpretation memory: task_store create_checked memory_lookup memory_inv memory_abs memory_repr
proof unfold_locales
  fix s d assume *: "memory_inv s" "memory_repr d"
  show "memory_inv (snd (create_checked d s))"
    using memory_create_cases [OF *] created_state_inv [OF *(1), of d] *(1) by (auto split: if_splits)
next
  fix s d assume *: "memory_inv s" "memory_repr d"
  show "case create_checked d s of
      (Inl e, s') \<Rightarrow> (spec_create d (memory_abs s) = None \<or> id_clash d (memory_abs s)) \<and>
        memory_abs s' = memory_abs s
    | (Inr t, s') \<Rightarrow> spec_create d (memory_abs s) = Some (t, memory_abs s')"
  proof (cases "spec_create d (memory_abs s) = None")
    case True
    then obtain e where "create_checked d s = (Inl e, s)" using memory_create_cases [OF *] by auto
    with True show ?thesis by simp
  next
    case False
    note c = memory_create_cases [OF *, unfolded if_not_P [OF False]]
    then have "spec_create d (memory_abs s) =
        Some (task_of d (bound_id d (memory_abs s)), memory_abs (created_state d s))"
      by (intro created_state_abs [OF *(1)]) simp_all
    with c show ?thesis by simp
  qed
next
  fix s i assume "memory_inv s"
  then show "case memory_lookup i s of Inl e \<Rightarrow> sp_tasks (memory_abs s) i = None
    | Inr t \<Rightarrow> sp_tasks (memory_abs s) i = Some t"
    by (simp add: memory_lookup_inv memory_abs_def split: option.split)
qed

section \<open>Properties\<close>

lemma memory_inv_New: "memory_inv memory_New"
  by (simp add: memory_inv_def memory_New_def keys_distinct_def spec_inv_def memory_abs_def)

lemma built_draft_repr:
  "build_draft newID now rn cn input operator material = Inr d \<Longrightarrow> memory_repr d"
  by (auto elim!: build_draft_facts simp: make_draft_def memory_repr_def)

lemma sample_draft_repr: "memory_repr sample_draft"
  by (rule built_draft_repr [OF sample_built])

lemma sample_created: "create_checked sample_draft memory_New =
    (Inr (task_of sample_draft (bound_id sample_draft (memory_abs memory_New))), created_state sample_draft memory_New)"
  using memory_create_cases [OF memory_inv_New sample_draft_repr] sample_draft_valid
  by (simp add: spec_create_def Let_def memory_New_def binding_conflict_def memory_abs_def)

text \<open>What \<open>CreateTask\<close> may do to a store, whatever the context, the draft and the store.\<close>

lemma canonical_parsed_valid:
  assumes "validateDraft d = Inr u"
  shows "copyTask \<lparr>tk_id = i, tk_status = st, tk_created_at = c, tk_resource = r, tk_input = parsed (td_input d),
    tk_configuration = parsed (td_configuration d), tk_policy = parsed (td_policy d)\<rparr> =
   Inr \<lparr>tk_id = i, tk_status = st, tk_created_at = c, tk_resource = r, tk_input = parsed (td_input d),
    tk_configuration = parsed (td_configuration d), tk_policy = parsed (td_policy d)\<rparr>"
  using validateDraft_snapshots [OF assms] by (intro copyTask_id) (simp_all add: parsed_canonical)

lemma create_checked_outcome:
  "case create_checked d s of
     (Inl e, s') \<Rightarrow> s' = s \<and>
       (\<exists>c. e = storeError ''task could not be submitted'' c \<or>
            e = storeError ''resource conflicts with stored onboarding'' c)
   | (Inr t, s') \<Rightarrow> map_of (ms_tasks s) (td_id d) = None \<and> map_of (ms_tasks s') = (map_of (ms_tasks s))(td_id d \<mapsto> t)
       \<and> copyTask t = Inr t"
proof (cases "validateDraft d")
  case (Inl e)
  then show ?thesis by (auto simp: create_checked_invalid)
next
  case (Inr u)
  show ?thesis
    unfolding create_checked_valid [OF Inr] create_locked_def Let_def
    by (auto simp: map_of_update canonical_parsed_valid [OF Inr])
qed

text \<open>
  C13.  A failing \<open>CreateTask\<close> of the memory store leaves the store exactly as it was and says so with
  one of three fixed reasons; a succeeding one was a fresh identifier, and afterwards that identifier
  reads back the returned task and every other identifier reads back what it did.  This holds for
  every context, draft and store, also for a nil store and a cancelled context.
\<close>

theorem memory_CreateTask_atomic:
  "case memory_CreateTask ctx d store of
     (Inl e, store') \<Rightarrow> store' = store \<and>
       (\<exists>r c. e = storeError r c \<and>
          r \<in> {''task could not be submitted'', ''task store is unavailable'', ''resource conflicts with stored onboarding''})
   | (Inr t, store') \<Rightarrow>
       memory_Task None (td_id d) store = Inl (storeError ''task not found'' ErrTaskNotFound) \<and>
       (\<forall>i. memory_Task None i store' = (if i = td_id d then Inr t else memory_Task None i store))"
proof (cases "contextError ctx 0")
  case (Some c)
  then show ?thesis by (auto simp: memory_CreateTask_def)
next
  case live: None
  show ?thesis
  proof (cases store)
    case None
    then show ?thesis using live by (auto simp: memory_CreateTask_def)
  next
    case (Some s)
    obtain r s' where c: "create_checked d s = (r, s')" by fastforce
    then have m: "memory_CreateTask ctx d store = (r, Some s')"
      using live Some by (simp add: memory_CreateTask_def)
    show ?thesis
      unfolding m using create_checked_outcome [where d = d and s = s] Some
      by (cases r) (auto simp: c memory_Task_def contextError_def)
  qed
qed

text \<open>
  C12.  The memory store implements the contract of a task store: with a live context a submission is
  refused exactly when the abstract store refuses it (invalid draft, identifier taken, resource name
  and identity bound differently), otherwise it returns the task the abstract store creates and moves
  to a state that represents the abstract result, and the invariant is kept.
\<close>

theorem memory_refines_contract:
  assumes "live ctx" and "memory_inv s" and "memory_repr d"
  shows "case memory_CreateTask ctx d (Some s) of
      (Inl e, store') \<Rightarrow> spec_create d (memory_abs s) = None \<and> store' = Some s
    | (Inr t, store') \<Rightarrow> \<exists>s'. store' = Some s' \<and> memory_inv s' \<and>
        spec_create d (memory_abs s) = Some (t, memory_abs s')"
proof -
  obtain r s' where c: "create_checked d s = (r, s')" by fastforce
  show ?thesis
  proof (cases r)
    case (Inl e)
    then have "spec_create d (memory_abs s) = None"
      using memory_create_cases [OF assms(2,3)] c by (auto split: if_splits)
    then show ?thesis using create_checked_outcome [where d = d and s = s] Inl
      by (simp add: memory_CreateTask_live [OF assms(1)] c)
  next
    case (Inr t)
    then show ?thesis
      using memory.create_inv [OF assms(2,3)] memory.create_refines [OF assms(2,3)]
      by (simp add: memory_CreateTask_live [OF assms(1)] c)
  qed
qed

lemma memory_refines_contract_witness:
  "case memory_CreateTask None sample_draft (Some memory_New) of
      (Inl e, store') \<Rightarrow> spec_create sample_draft (memory_abs memory_New) = None \<and> store' = Some memory_New
    | (Inr t, store') \<Rightarrow> \<exists>s'. store' = Some s' \<and> memory_inv s' \<and>
        spec_create sample_draft (memory_abs memory_New) = Some (t, memory_abs s')"
  by (rule memory_refines_contract) (simp_all add: memory_inv_New sample_draft_repr)

text \<open>A submission writes the history of its own, fresh identifier only.\<close>

lemma create_checked_history:
  "case create_checked d s of
     (Inl e, s') \<Rightarrow> s' = s
   | (Inr t, s') \<Rightarrow> map_of (ms_tasks s) (td_id d) = None \<and>
       map_of (ms_history s') = (map_of (ms_history s))(td_id d \<mapsto> [td_initial_history d])"
proof (cases "validateDraft d")
  case (Inl e)
  then show ?thesis by (simp add: create_checked_invalid)
next
  case (Inr u)
  show ?thesis
    unfolding create_checked_valid [OF Inr] create_locked_def Let_def
    by (auto simp: map_of_update canonical_parsed_valid [OF Inr])
qed

lemma run_store_history:
  "map_of (ms_tasks s) i \<noteq> None \<Longrightarrow>
     map_of (ms_history (snd (run_store create_checked ds s))) i = map_of (ms_history s) i"
proof (induction ds arbitrary: s)
  case (Cons d ds)
  obtain r s' where c: "create_checked d s = (r, s')" by fastforce
  have "map_of (ms_history s') i = map_of (ms_history s) i" "map_of (ms_tasks s') i \<noteq> None"
    using create_checked_history [where d = d and s = s] create_checked_outcome [where d = d and s = s] Cons.prems c
    by (auto split: sum.splits)
  then show ?case using Cons.IH [of s'] by (simp add: c)
qed simp

text \<open>
  C14.  Tasks are immutable: a task that can be read from the memory store is read back unchanged after
  any further submissions, accepted or refused.  Its history is, after them, the very list it was before:
  the one entry with which the task was created, which has sequence 1, the task's status and the reason
  of a manual submission.
\<close>

theorem memory_task_immutable:
  assumes "memory_inv s" and "list_all memory_repr ds" and "memory_lookup i s = Inr t"
  shows "memory_lookup i (snd (run_store create_checked ds s)) = Inr t \<and>
    memory_History i (Some (snd (run_store create_checked ds s))) = memory_History i (Some s) \<and>
    (\<exists>h. memory_History i (Some s) = [h] \<and> he_sequence h = 1 \<and> he_status h = tk_status t \<and>
       he_reason h = HistoryReasonManualSubmission)"
proof (intro conjI)
  have task: "map_of (ms_tasks s) i = Some t"
    using assms(1,3) by (simp add: memory.lookup_iff)
  show "memory_lookup i (snd (run_store create_checked ds s)) = Inr t"
    by (rule memory.task_immutable [OF assms(1) _ assms(3)]) (use assms(2) in \<open>simp add: list_all_iff\<close>)
  show "memory_History i (Some (snd (run_store create_checked ds s))) = memory_History i (Some s)"
    using run_store_history [of s i ds] task by (simp add: memory_History_def)
  show "\<exists>h. memory_History i (Some s) = [h] \<and> he_sequence h = 1 \<and> he_status h = tk_status t \<and>
      he_reason h = HistoryReasonManualSubmission"
    using assms(1) map_of_SomeD [OF task] by (fastforce simp: memory_inv_def memory_History_def)
qed

lemma memory_task_immutable_witness:
  "\<exists>t. memory_lookup (td_id sample_draft)
     (snd (run_store create_checked [sample_draft] (created_state sample_draft memory_New))) = Inr t \<and>
   memory_History (td_id sample_draft)
     (Some (snd (run_store create_checked [sample_draft] (created_state sample_draft memory_New)))) =
   [td_initial_history sample_draft]"
proof -
  have inv: "memory_inv (created_state sample_draft memory_New)"
    using memory.create_inv [OF memory_inv_New sample_draft_repr] by (simp add: sample_created)
  have "memory_lookup (td_id sample_draft) (created_state sample_draft memory_New) =
      Inr (task_of sample_draft (bound_id sample_draft (memory_abs memory_New)))"
    by (rule memory.create_then_lookup [OF memory_inv_New sample_draft_repr sample_created])
  from memory_task_immutable [OF inv _ this, of "[sample_draft]"] sample_draft_repr
  show ?thesis by (auto simp: memory_History_def created_state_def Let_def map_of_update)
qed

text \<open>
  A task submitted through the service over the memory store is pending, holds the snapshots of
  the normalised input, of the repository configuration and of an effective policy that denies
  everything, and is shown unchanged after any further submissions.
\<close>

lemma memory_submit_then_show:
  assumes "memory_inv s" and "list_all memory_repr ds"
    and "SubmitManualRepository (Some create_checked) newID now ctx rn cn input operator source s = (Inr t, s')"
  shows "Show (Some memory_lookup) None (tk_id t) (snd (run_store create_checked ds s')) = Inr t \<and>
    tk_status t = TaskStatusPending \<and> tk_created_at t = time_UTC now \<and>
    (\<exists>material. source = Some (Inr material) \<and> stored_faithfully input operator material t)"
proof -
  have "Show (Some memory_lookup) None (tk_id t) (snd (run_store create_checked ds s')) = Inr t"
    by (rule memory.submit_then_show [OF assms(1) built_draft_repr assms(3)])
      (use assms(2) in \<open>auto simp: contextError_def list_all_iff\<close>)
  moreover have "\<exists>material. source = Some (Inr material) \<and> stored_faithfully input operator material t \<and>
      tk_id t = newID ''task_'' \<and> tk_status t = TaskStatusPending \<and> tk_created_at t = time_UTC now"
    by (rule memory.submitted_task(1) [OF assms(1) _ assms(3)]) (rule built_draft_repr)
  ultimately show ?thesis by blast
qed

lemma sample_submitted:
  "SubmitManualRepository (Some create_checked) sample_newID sample_time None ''core'' ''github'' sample_input
     sample_operator (Some (Inr sample_material)) memory_New =
   (Inr (task_of sample_draft (bound_id sample_draft (memory_abs memory_New))), created_state sample_draft memory_New)"
  by (simp add: SubmitManualRepository_def contextError_def sample_built sample_created)

lemma memory_submit_then_show_witness:
  "Show (Some memory_lookup) None ''task_ABCDEFGHIJKLMNOPQRSTUVWXYZ''
     (snd (run_store create_checked [sample_draft] (created_state sample_draft memory_New))) =
   Inr (task_of sample_draft (bound_id sample_draft (memory_abs memory_New)))"
  using memory_submit_then_show [OF memory_inv_New _ sample_submitted, of "[sample_draft]"]
    sample_draft_repr task_of_faithful(4) [OF sample_built]
  by (simp add: sample_newID_def NewID_def)

end
