(* ===== verification/Go_Numbers.thy ===== *)
theory Go_Numbers
  imports Go_Time
begin

text \<open>
  What the program uses of Go's \<open>strconv\<close>: \<open>ParseInt\<close> in base 10 with 64 bits, \<open>ParseBool\<close>, and
  \<open>FormatInt\<close> (\<open>dec_int\<close>).  Integers read are kept as \<open>int\<close> with the range written out.
\<close>

section \<open>Decimal text\<close>

lemma dec_nat_decimal: "set (dec_nat n) \<subseteq> {c. is_dec c}"
proof (induction n rule: dec_nat.induct)
  case (1 n)
  then show ?case by (subst dec_nat.simps) auto
qed

lemma dec_nat_is_dec: "c \<in> set (dec_nat n) \<Longrightarrow> is_dec c"
  using dec_nat_decimal by blast

lemma dec_nat_val [simp]: "digits_val 0 (dec_nat n) = n"
proof (induction n rule: dec_nat.induct)
  case (1 n)
  then show ?case
    by (subst dec_nat.simps) (auto simp: digits_val_append byte_digit)
qed

lemma digits_val_linear: "digits_val a ds = a * 10 ^ length ds + digits_val 0 ds"
proof (induction ds arbitrary: a)
  case Nil
  then show ?case by simp
next
  case (Cons c ds)
  have "digits_val (10 * a + (byte c - 48)) ds = (10 * a + (byte c - 48)) * 10 ^ length ds + digits_val 0 ds"
    by (rule Cons.IH)
  moreover have "digits_val (byte c - 48) ds = (byte c - 48) * 10 ^ length ds + digits_val 0 ds"
    by (rule Cons.IH)
  ultimately show ?case by (simp add: algebra_simps)
qed

lemma is_dec_head: "is_dec c \<Longrightarrow> c \<noteq> CHR ''+'' \<and> c \<noteq> CHR ''-''"
  by (auto simp: is_dec_def byte_def)

lemma dec_nat_head: "\<exists>c r. dec_nat n = c # r \<and> is_dec c"
proof -
  obtain c r where "dec_nat n = c # r" using dec_nat_nonempty [of n] by (cases "dec_nat n") auto
  then show ?thesis using dec_nat_is_dec [of c n] by auto
qed

section \<open>Parsing\<close>

definition int64 :: "int \<Rightarrow> bool" where
  "int64 i \<longleftrightarrow> - (2 ^ 63) \<le> i \<and> i < 2 ^ 63"

text \<open>\<open>strconv.ParseInt(s, 10, 64)\<close>.\<close>

definition signed :: "string \<Rightarrow> bool \<times> string" where
  "signed s = (case s of [] \<Rightarrow> (False, []) | c # r \<Rightarrow>
     if c = CHR ''+'' then (False, r) else if c = CHR ''-'' then (True, r) else (False, s))"

definition ParseInt :: "string \<Rightarrow> int option" where
  "ParseInt s =
     (case signed s of (neg, ds) \<Rightarrow>
        if ds = [] \<or> \<not> list_all is_dec ds then None
        else (let n = int (digits_val 0 ds); i = (if neg then - n else n)
              in if int64 i then Some i else None))"

text \<open>\<open>strconv.ParseBool\<close>.\<close>

definition ParseBool :: "string \<Rightarrow> bool option" where
  "ParseBool s =
     (if s \<in> set [''1'', ''t'', ''T'', ''true'', ''TRUE'', ''True''] then Some True
      else if s \<in> set [''0'', ''f'', ''F'', ''false'', ''FALSE'', ''False''] then Some False
      else None)"

lemma signed_dec_int: "signed (dec_int i) = (i < 0, dec_nat (nat \<bar>i\<bar>))"
proof -
  obtain c r where "dec_nat (nat i) = c # r" "is_dec c" using dec_nat_head by blast
  then show ?thesis using is_dec_head by (auto simp: dec_int_def signed_def)
qed

lemma ParseInt_dec_int: "ParseInt (dec_int i) = (if int64 i then Some i else None)"
  by (auto simp: ParseInt_def signed_dec_int Let_def list_all_iff dest: dec_nat_is_dec)

lemma ParseInt_int64: "ParseInt s = Some i \<Longrightarrow> int64 i"
  by (auto simp: ParseInt_def Let_def split: prod.splits if_splits)

end
