(* ===== verification/Json_Struct.thy ===== *)
theory Json_Struct
  imports Snapshots Go_Numbers
begin

text \<open>
  \<open>encoding/json\<close> reading into Go structs: \<open>json.Unmarshal\<close> of one value, the match of an object's
  keys with the fields of a struct, and the fields the program's response types have.  A value of the
  wrong type is an error even though Go goes on decoding the rest: the callers look at the error first.
\<close>

section \<open>Keys\<close>

text \<open>
  Object keys match a field exactly or up to case folding, also through U+212A and U+017F, which fold
  to \<open>K\<close> and \<open>S\<close>.
\<close>

fun fold_key :: "string \<Rightarrow> string" where
  "fold_key [] = []"
| "fold_key (c # s) =
     (if 97 \<le> byte c \<and> byte c \<le> 122 then char_of (byte c - 32) # fold_key s
      else if prefix (utf8_enc 8490) (c # s) then CHR ''K'' # fold_key (drop 2 s)
      else if prefix (utf8_enc 383) (c # s) then CHR ''S'' # fold_key (drop 1 s)
      else c # fold_key s)"

text \<open>\<open>strings.EqualFold(s, t)\<close> where one of the strings is ASCII.\<close>

definition equal_fold_ascii :: "string \<Rightarrow> string \<Rightarrow> bool" where
  "equal_fold_ascii s t \<longleftrightarrow> fold_key s = fold_key t"

section \<open>Fields\<close>

definition set_string :: "json \<Rightarrow> string \<Rightarrow> gerr + string" where
  "set_string v old = (case v of JStr s \<Rightarrow> Inr s | JNull \<Rightarrow> Inr old | _ \<Rightarrow> Inl json_error)"

text \<open>\<open>*string\<close>, and \<open>*int\<close> or \<open>*int64\<close>: null makes the pointer nil.\<close>

definition set_string_ptr :: "json \<Rightarrow> gerr + string option" where
  "set_string_ptr v = (case v of JStr s \<Rightarrow> Inr (Some s) | JNull \<Rightarrow> Inr None | _ \<Rightarrow> Inl json_error)"

definition set_int_ptr :: "json \<Rightarrow> gerr + int option" where
  "set_int_ptr v =
     (case v of
        JNum n \<Rightarrow> (case ParseInt n of Some i \<Rightarrow> Inr (Some i) | None \<Rightarrow> Inl json_error)
      | JNull \<Rightarrow> Inr None
      | _ \<Rightarrow> Inl json_error)"

text \<open>\<open>map[string]string\<close>: a second occurrence of the field adds to the map, null makes it nil.\<close>

fun put_strings :: "(string \<times> json) list \<Rightarrow> (string \<times> string) list \<Rightarrow> gerr + (string \<times> string) list" where
  "put_strings [] m = Inr m"
| "put_strings ((k, v) # kvs) m =
     rbind (set_string v []) (\<lambda>s. put_strings kvs (AList.update k s m))"

definition set_string_map :: "json \<Rightarrow> string gomap \<Rightarrow> gerr + string gomap" where
  "set_string_map v old =
     (case v of
        JObj kvs \<Rightarrow> rbind (put_strings kvs (elems old)) (\<lambda>m. Inr (Some m))
      | JNull \<Rightarrow> Inr None
      | _ \<Rightarrow> Inl json_error)"

section \<open>Structs\<close>

text \<open>The members of an object, one after the other; the argument sets one field.\<close>

fun set_fields :: "(string \<Rightarrow> json \<Rightarrow> 'r \<Rightarrow> gerr + 'r) \<Rightarrow> (string \<times> json) list \<Rightarrow> 'r \<Rightarrow> gerr + 'r" where
  "set_fields f [] r = Inr r"
| "set_fields f ((k, v) # kvs) r = rbind (f (fold_key k) v r) (set_fields f kvs)"

definition set_struct :: "(string \<Rightarrow> json \<Rightarrow> 'r \<Rightarrow> gerr + 'r) \<Rightarrow> 'r \<Rightarrow> json \<Rightarrow> gerr + 'r" where
  "set_struct f zero v =
     (case v of JObj kvs \<Rightarrow> set_fields f kvs zero | JNull \<Rightarrow> Inr zero | _ \<Rightarrow> Inl json_error)"

text \<open>\<open>json.Unmarshal\<close>: exactly one value, with white space around it.\<close>

definition json_value :: "string \<Rightarrow> gerr + json" where
  "json_value data =
     (case decode_one data of
        Some (v, r) \<Rightarrow> if skip_ws r = [] then Inr v else Inl json_error
      | None \<Rightarrow> Inl json_error)"

definition json_Unmarshal :: "(json \<Rightarrow> gerr + 'a) \<Rightarrow> string \<Rightarrow> gerr + 'a" where
  "json_Unmarshal f data = rbind (json_value data) f"

lemma set_int_ptr_int64: "set_int_ptr v = Inr (Some i) \<Longrightarrow> int64 i"
  by (auto simp: set_int_ptr_def split: json.splits option.splits dest: ParseInt_int64)

text \<open>An invariant of the record that every field keeps holds of what is read.\<close>

lemma set_fields_inv:
  assumes step: "\<And>k v r r'. P r \<Longrightarrow> f k v r = Inr r' \<Longrightarrow> P r'"
  shows "set_fields f kvs r = Inr r' \<Longrightarrow> P r \<Longrightarrow> P r'"
proof (induction kvs arbitrary: r)
  case (Cons kv kvs)
  then show ?case using step by (cases kv) (auto simp: rbind_eq_Inr)
qed simp

lemma set_struct_inv:
  assumes "\<And>k v r r'. P r \<Longrightarrow> f k v r = Inr r' \<Longrightarrow> P r'" "P zero" "set_struct f zero v = Inr r"
  shows "P r"
  using assms(2,3)
  by (auto simp: set_struct_def split: json.splits intro: set_fields_inv [of P, OF assms(1) _ assms(2)])

lemma decode_one_skip: "is_ws c \<Longrightarrow> decode_one (c # s) = decode_one s"
proof -
  assume c: "is_ws c"
  obtain n where n: "json_fuel (c # s) = Suc n" "json_fuel s \<le> Suc n" by (simp add: json_fuel_def)
  have "skip_ws (c # s) = skip_ws s" using c by (simp add: skip_ws_def)
  then have "decode_one (c # s) = parse_value (Suc n) max_depth s"
    unfolding decode_one_def n(1) by (simp only: parse_value.simps(2))
  then show ?thesis using decode_one_fuel [OF n(2)] by simp
qed

lemma json_value_enc:
  assumes "json_wf v" and "json_depth v \<le> max_depth"
  shows "json_value (enc h v) = Inr v"
  using decode_enc [OF assms, of "[]" h] by (simp add: json_value_def)

end
