(* ===== verification/Sqlite_Store.thy ===== *)
theory Sqlite_Store
  imports Task_Service Json_Struct
begin

text \<open>
  \<open>internal/store/sqlite/store.go\<close>: the durable task store.  The three tables are lists of rows with
  the keys, unique constraints and checks of their \<open>CREATE TABLE\<close> statements; each SQL statement of
  the Go code is a function on the tables.  The driver is an argument: \<open>drv k = Some e\<close> makes the
  \<open>k\<close>-th driver call of an operation fail with \<open>e\<close> (I/O errors, a busy database, a cancelled
  context).  A transaction works on a copy of the tables that \<open>Commit\<close> installs and that every
  other way out of the function discards (the deferred \<open>Rollback\<close>).
\<close>

section \<open>Tables\<close>

record resource_row =
  rr_id :: string
  rr_name :: string
  rr_kind :: string
  rr_connector_instance :: string
  rr_external_ref :: string
  rr_external_identity :: string
  rr_revision :: string
  rr_configuration_json :: string
  rr_policy_request_json :: string
  rr_onboarded_at :: string
  rr_updated_at :: string

record task_row =
  tr_id :: string
  tr_resource_id :: string
  tr_status :: string
  tr_resource_json :: string
  tr_input_json :: string
  tr_configuration_json :: string
  tr_policy_json :: string
  tr_created_at :: string

record history_row =
  hr_task_id :: string
  hr_sequence :: int
  hr_status :: string
  hr_occurred_at :: string
  hr_reason :: string

record database =
  db_resources :: "resource_row list"
  db_tasks :: "task_row list"
  db_history :: "history_row list"

definition empty_database :: database where
  "empty_database = \<lparr>db_resources = [], db_tasks = [], db_history = []\<rparr>"

section \<open>Statements\<close>

type_synonym driver = "nat \<Rightarrow> gerr option"

definition call :: "driver \<Rightarrow> nat \<Rightarrow> gerr + 'a \<Rightarrow> gerr + 'a" where
  "call drv k r = (case drv k of Some e \<Rightarrow> Inl e | None \<Rightarrow> r)"

lemma call_none [simp]: "call (\<lambda>_. None) k r = r"
  by (simp add: call_def)

lemma call_Inr: "call drv k r = Inr x \<longleftrightarrow> drv k = None \<and> r = Inr x"
  by (simp add: call_def split: option.split)

definition ErrNoRows :: gerr where "ErrNoRows = Sentinel ''sql.ErrNoRows''"
definition constraint_error :: gerr where "constraint_error = ErrNew ''constraint failed''"

definition query_row :: "('a \<Rightarrow> bool) \<Rightarrow> 'a list \<Rightarrow> gerr + 'a" where
  "query_row P rows = (case List.find P rows of None \<Rightarrow> Inl ErrNoRows | Some r \<Rightarrow> Inr r)"

text \<open>\<open>SELECT ... FROM resources WHERE name = ?\<close>, and by identity.\<close>

definition select_resource :: "string \<Rightarrow> database \<Rightarrow> gerr + resource_row" where
  "select_resource name db = query_row (\<lambda>r. rr_name r = name) (db_resources db)"

definition select_owner :: "string \<Rightarrow> string \<Rightarrow> database \<Rightarrow> gerr + resource_row" where
  "select_owner connector ident db =
     query_row (\<lambda>r. rr_connector_instance r = connector \<and> rr_external_identity r = ident) (db_resources db)"

text \<open>\<open>INSERT INTO resources\<close>: \<open>id\<close> is the primary key, \<open>name\<close> and the identity are unique.\<close>

definition insert_resource :: "resource_row \<Rightarrow> database \<Rightarrow> gerr + database" where
  "insert_resource row db =
     (if list_ex (\<lambda>r. rr_id r = rr_id row \<or> rr_name r = rr_name row \<or>
                   rr_connector_instance r = rr_connector_instance row \<and>
                   rr_external_identity r = rr_external_identity row) (db_resources db)
      then Inl constraint_error
      else Inr (db\<lparr>db_resources := db_resources db @ [row]\<rparr>))"

text \<open>\<open>UPDATE resources SET ... WHERE id = ?\<close>, which touches no unique column.\<close>

definition update_resource ::
  "string \<Rightarrow> string \<Rightarrow> string \<Rightarrow> string \<Rightarrow> string \<Rightarrow> string \<Rightarrow> string \<Rightarrow> database \<Rightarrow> gerr + database"
where
  "update_resource kind external_ref revision configuration policy_request updated_at i db =
     Inr (db\<lparr>db_resources := map (\<lambda>r. if rr_id r = i then
               r\<lparr>rr_kind := kind, rr_external_ref := external_ref, rr_revision := revision,
                 rr_configuration_json := configuration, rr_policy_request_json := policy_request,
                 rr_updated_at := updated_at\<rparr> else r) (db_resources db)\<rparr>)"

definition insert_task :: "task_row \<Rightarrow> database \<Rightarrow> gerr + database" where
  "insert_task row db =
     (if list_ex (\<lambda>t. tr_id t = tr_id row) (db_tasks db) then Inl constraint_error
      else Inr (db\<lparr>db_tasks := db_tasks db @ [row]\<rparr>))"

definition insert_history :: "history_row \<Rightarrow> database \<Rightarrow> gerr + database" where
  "insert_history row db =
     (if \<not> 0 < hr_sequence row \<or>
         list_ex (\<lambda>h. hr_task_id h = hr_task_id row \<and> hr_sequence h = hr_sequence row) (db_history db)
      then Inl constraint_error
      else Inr (db\<lparr>db_history := db_history db @ [row]\<rparr>))"

definition select_task :: "string \<Rightarrow> database \<Rightarrow> gerr + task_row" where
  "select_task i db = query_row (\<lambda>t. tr_id t = i) (db_tasks db)"

section \<open>Errors and drafts\<close>

definition sqlite_ErrTaskNotFound :: gerr where
  "sqlite_ErrTaskNotFound = Sentinel ''sqlite.ErrTaskNotFound''"
definition sqlite_ErrResourceConflict :: gerr where
  "sqlite_ErrResourceConflict = Sentinel ''sqlite.ErrResourceConflict''"
definition errStoreCorrupt :: gerr where "errStoreCorrupt = Sentinel ''sqlite.errStoreCorrupt''"
definition errStoreUnsupported :: gerr where "errStoreUnsupported = Sentinel ''sqlite.errStoreUnsupported''"

definition sqlite_storeError :: "string \<Rightarrow> gerr \<Rightarrow> gerr" where
  "sqlite_storeError reason cause = SqliteError reason (Some cause)"

definition not_submitted :: "gerr \<Rightarrow> gerr" where
  "not_submitted = sqlite_storeError ''task could not be submitted''"
definition unavailable :: "gerr \<Rightarrow> gerr" where
  "unavailable = sqlite_storeError ''state store is unavailable''"
definition conflict :: gerr where
  "conflict = sqlite_storeError ''resource conflicts with stored onboarding'' sqlite_ErrResourceConflict"

fun check_all_snapshots :: "snapshot list \<Rightarrow> gerr + unit" where
  "check_all_snapshots [] = Inr ()"
| "check_all_snapshots (s # ss) =
     (case ParseSnapshot (Snapshot_Bytes s) of Inl e \<Rightarrow> Inl e | Inr _ \<Rightarrow> check_all_snapshots ss)"

definition validateTaskDraft :: "TaskDraft \<Rightarrow> gerr + unit" where
  "validateTaskDraft draft =
     rbind (ParseTaskID (td_id draft)) (\<lambda>_.
     rbind (fail_if (td_status draft \<noteq> TaskStatusPending \<or> time_IsZero (td_created_at draft) \<or>
                     t_loc (td_created_at draft) \<noteq> UTC)
              (ErrNew ''invalid task metadata'')) (\<lambda>_.
     let resource = td_resource draft in
     rbind (ParseResourceID (rd_candidate_id resource)) (\<lambda>_.
     rbind (fail_if (rd_name resource = '''' \<or> rd_kind resource = '''' \<or> rd_connector resource = '''' \<or>
                     rd_external_ref resource = '''' \<or> rd_external_identity resource = '''' \<or>
                     rd_revision resource = '''')
              (ErrNew ''incomplete resource metadata'')) (\<lambda>_.
     rbind (fail_if (Snapshot_Bytes (rd_configuration resource) \<noteq> Snapshot_Bytes (td_configuration draft))
              (ErrNew ''configuration snapshots differ'')) (\<lambda>_.
     rbind (check_all_snapshots [rd_configuration resource, rd_requested_policy resource, td_input draft,
                                 td_configuration draft, td_policy draft]) (\<lambda>_.
     let history = td_initial_history draft in
     fail_if (he_sequence history \<noteq> 1 \<or> he_status history \<noteq> td_status draft \<or>
              he_occurred_at history \<noteq> td_created_at draft \<or>
              he_reason history \<noteq> HistoryReasonManualSubmission)
       (ErrNew ''invalid initial task history'')))))))"

section \<open>CreateTask\<close>

text \<open>A handle: nil or without a database (\<open>None\<close>), or opened, read-only or not.\<close>

datatype handle = Writable | ReadOnly

definition new_resource_row :: "TaskDraft \<Rightarrow> string \<Rightarrow> string \<Rightarrow> resource_row" where
  "new_resource_row draft configuration requestedPolicy =
     (let r = td_resource draft; createdAt = formatTime (td_created_at draft) in
      \<lparr>rr_id = rd_candidate_id r, rr_name = rd_name r, rr_kind = rd_kind r,
       rr_connector_instance = rd_connector r, rr_external_ref = rd_external_ref r,
       rr_external_identity = rd_external_identity r, rr_revision = rd_revision r,
       rr_configuration_json = configuration, rr_policy_request_json = requestedPolicy,
       rr_onboarded_at = createdAt, rr_updated_at = createdAt\<rparr>)"

text \<open>The switch on the stored resource: its identifier and the tables after the upsert.\<close>

definition bind_resource :: "driver \<Rightarrow> TaskDraft \<Rightarrow> string \<Rightarrow> string \<Rightarrow> database \<Rightarrow> gerr + (string \<times> database)" where
  "bind_resource drv draft configuration requestedPolicy db =
     (let r = td_resource draft in
      case call drv 1 (select_resource (rd_name r) db) of
        Inl err \<Rightarrow>
          if errors_is err ErrNoRows then
            (case call drv 2 (select_owner (rd_connector r) (rd_external_identity r) db) of
               Inr _ \<Rightarrow> Inl conflict
             | Inl identityErr \<Rightarrow>
                 if \<not> errors_is identityErr ErrNoRows then Inl (not_submitted identityErr)
                 else (case call drv 3 (insert_resource (new_resource_row draft configuration requestedPolicy) db) of
                         Inl e \<Rightarrow> Inl (not_submitted e)
                       | Inr db' \<Rightarrow> Inr (rd_candidate_id r, db')))
          else Inl (not_submitted err)
      | Inr row \<Rightarrow>
          if rr_connector_instance row \<noteq> rd_connector r \<or> rr_external_identity row \<noteq> rd_external_identity r
          then Inl conflict
          else if \<not> is_ok (ParseResourceID (rr_id row)) \<or> rr_kind row = '''' then Inl (unavailable errStoreCorrupt)
          else (case call drv 3 (update_resource (rd_kind r) (rd_external_ref r) (rd_revision r) configuration
                                   requestedPolicy (formatTime (td_created_at draft)) (rr_id row) db) of
                  Inl e \<Rightarrow> Inl (not_submitted e)
                | Inr db' \<Rightarrow> Inr (rr_id row, db')))"

definition draft_resource_snapshot :: "TaskDraft \<Rightarrow> string \<Rightarrow> ResourceSnapshot" where
  "draft_resource_snapshot draft resourceID =
     \<lparr>rs_id = resourceID, rs_name = rd_name (td_resource draft), rs_kind = rd_kind (td_resource draft),
      rs_connector = rd_connector (td_resource draft), rs_revision = rd_revision (td_resource draft)\<rparr>"

text \<open>The transaction after \<open>BeginTx\<close>: the resource snapshot returned and the tables committed.\<close>

definition create_transaction :: "driver \<Rightarrow> TaskDraft \<Rightarrow> database \<Rightarrow> gerr + (ResourceSnapshot \<times> database)" where
  "create_transaction drv draft db =
     (let configuration = Snapshot_Bytes (td_configuration draft);
          requestedPolicy = Snapshot_Bytes (rd_requested_policy (td_resource draft));
          input = Snapshot_Bytes (td_input draft);
          effectivePolicy = Snapshot_Bytes (td_policy draft) in
      rbind (bind_resource drv draft configuration requestedPolicy db) (\<lambda>(resourceID, db1).
      let snapshot = draft_resource_snapshot draft resourceID in
      rbind (map_err not_submitted (NewSnapshot (json_ResourceSnapshot snapshot))) (\<lambda>resourceJSON.
      rbind (map_err not_submitted (call drv 4 (insert_task
               \<lparr>tr_id = td_id draft, tr_resource_id = resourceID, tr_status = td_status draft,
                tr_resource_json = Snapshot_Bytes resourceJSON, tr_input_json = input,
                tr_configuration_json = configuration, tr_policy_json = effectivePolicy,
                tr_created_at = formatTime (td_created_at draft)\<rparr> db1))) (\<lambda>db2.
      rbind (map_err not_submitted (call drv 5 (insert_history
               \<lparr>hr_task_id = td_id draft, hr_sequence = he_sequence (td_initial_history draft),
                hr_status = he_status (td_initial_history draft),
                hr_occurred_at = formatTime (he_occurred_at (td_initial_history draft)),
                hr_reason = he_reason (td_initial_history draft)\<rparr> db2))) (\<lambda>db3.
      Inr (snapshot, db3))))))"

text \<open>\<open>mustSnapshot\<close> panics (\<open>None\<close>) when the bytes are no snapshot.\<close>

definition mustSnapshot :: "string \<Rightarrow> snapshot option" where
  "mustSnapshot data = (case ParseSnapshot data of Inl e \<Rightarrow> None | Inr s \<Rightarrow> Some s)"

text \<open>The result is \<open>None\<close> if the call panics.\<close>

definition sqlite_CreateTask ::
  "handle option \<Rightarrow> driver \<Rightarrow> TaskDraft \<Rightarrow> database \<Rightarrow> (gerr + Task) option \<times> database"
where
  "sqlite_CreateTask h drv draft db =
     (if h = None \<or> h = Some ReadOnly then
        (Some (Inl (unavailable (ErrNew ''store is read-only or closed''))), db)
      else case validateTaskDraft draft of Inl e \<Rightarrow> (Some (Inl (not_submitted e)), db) | Inr _ \<Rightarrow>
      (case call drv 0 (Inr ()) of Inl e \<Rightarrow> (Some (Inl (not_submitted e)), db) | Inr _ \<Rightarrow>
      (case create_transaction drv draft db of Inl e \<Rightarrow> (Some (Inl e), db) | Inr (snapshot, db') \<Rightarrow>
      (case call drv 6 (Inr ()) of Inl e \<Rightarrow> (Some (Inl (not_submitted e)), db) | Inr _ \<Rightarrow>
         (case (mustSnapshot (Snapshot_Bytes (td_input draft)), mustSnapshot (Snapshot_Bytes (td_configuration draft)),
                mustSnapshot (Snapshot_Bytes (td_policy draft))) of
            (Some input, Some configuration, Some policy) \<Rightarrow>
              (Some (Inr \<lparr>tk_id = td_id draft, tk_status = td_status draft, tk_created_at = td_created_at draft,
                          tk_resource = snapshot, tk_input = input, tk_configuration = configuration,
                          tk_policy = policy\<rparr>), db')
          | _ \<Rightarrow> (None, db'))))))"

section \<open>Task\<close>

text \<open>
  Decoding the stored resource into the struct with \<open>DisallowUnknownFields\<close>: an unknown key or a
  value that is no string is an error, \<open>null\<close> leaves a field as it is, the last duplicate wins.
\<close>

definition set_member :: "string \<Rightarrow> json \<Rightarrow> ResourceSnapshot \<Rightarrow> gerr + ResourceSnapshot" where
  "set_member key v r =
     (let k = fold_key key in
      if k = ''ID'' then rbind (set_string v (rs_id r)) (\<lambda>s. Inr (r\<lparr>rs_id := s\<rparr>))
      else if k = ''NAME'' then rbind (set_string v (rs_name r)) (\<lambda>s. Inr (r\<lparr>rs_name := s\<rparr>))
      else if k = ''KIND'' then rbind (set_string v (rs_kind r)) (\<lambda>s. Inr (r\<lparr>rs_kind := s\<rparr>))
      else if k = ''CONNECTOR'' then rbind (set_string v (rs_connector r)) (\<lambda>s. Inr (r\<lparr>rs_connector := s\<rparr>))
      else if k = ''REVISION'' then rbind (set_string v (rs_revision r)) (\<lambda>s. Inr (r\<lparr>rs_revision := s\<rparr>))
      else Inl json_error)"

fun set_members :: "(string \<times> json) list \<Rightarrow> ResourceSnapshot \<Rightarrow> gerr + ResourceSnapshot" where
  "set_members [] r = Inr r"
| "set_members ((k, v) # kvs) r = rbind (set_member k v r) (set_members kvs)"

definition zero_resource :: ResourceSnapshot where
  "zero_resource = \<lparr>rs_id = '''', rs_name = '''', rs_kind = '''', rs_connector = '''', rs_revision = ''''\<rparr>"

definition decodeResourceSnapshot :: "string \<Rightarrow> gerr + ResourceSnapshot" where
  "decodeResourceSnapshot data =
     (case decode_one data of
        None \<Rightarrow> Inl json_error
      | Some (v, rest) \<Rightarrow>
          rbind (case v of JObj kvs \<Rightarrow> set_members kvs zero_resource
                 | JNull \<Rightarrow> Inr zero_resource
                 | _ \<Rightarrow> Inl json_error) (\<lambda>r.
          if skip_ws rest = [] then Inr r
          else (case decode_one rest of
                  Some _ \<Rightarrow> Inl (ErrNew ''resource snapshot contains multiple values'')
                | None \<Rightarrow> Inl json_error)))"

definition stored_time_error :: gerr where
  "stored_time_error = ErrNew ''stored timestamp is not UTC''"

text \<open>What \<open>Task\<close> makes of a row.\<close>

definition decode_task_row :: "task_id \<Rightarrow> task_row \<Rightarrow> gerr + Task" where
  "decode_task_row i row =
     rbind (fail_if (tr_status row \<noteq> TaskStatusPending) (unavailable errStoreCorrupt)) (\<lambda>_.
     rbind (map_err unavailable (decodeResourceSnapshot (tr_resource_json row))) (\<lambda>resource.
     rbind (fail_if (\<not> is_ok (ParseResourceID (rs_id resource)) \<or> rs_name resource = '''' \<or>
                     rs_kind resource = '''' \<or> rs_connector resource = '''' \<or> rs_revision resource = '''')
              (unavailable errStoreCorrupt)) (\<lambda>_.
     rbind (case parseStoredTime (tr_created_at row) of
              None \<Rightarrow> Inl (unavailable stored_time_error) | Some t \<Rightarrow> Inr t) (\<lambda>created.
     rbind (map_err unavailable (ParseSnapshot (tr_input_json row))) (\<lambda>input.
     rbind (map_err unavailable (ParseSnapshot (tr_configuration_json row))) (\<lambda>configuration.
     rbind (map_err unavailable (ParseSnapshot (tr_policy_json row))) (\<lambda>policy.
     Inr \<lparr>tk_id = i, tk_status = tr_status row, tk_created_at = created, tk_resource = resource,
          tk_input = input, tk_configuration = configuration, tk_policy = policy\<rparr>)))))))"

definition sqlite_Task :: "handle option \<Rightarrow> driver \<Rightarrow> task_id \<Rightarrow> database \<Rightarrow> gerr + Task" where
  "sqlite_Task h drv i db =
     (if h = None then Inl (unavailable (ErrNew ''store is closed''))
      else if \<not> is_ok (ParseTaskID i) then Inl (sqlite_storeError ''task not found'' sqlite_ErrTaskNotFound)
      else case call drv 0 (select_task i db) of
        Inl e \<Rightarrow> if errors_is e ErrNoRows then Inl (sqlite_storeError ''task not found'' sqlite_ErrTaskNotFound)
                 else Inl (unavailable e)
      | Inr row \<Rightarrow> decode_task_row i row)"

end
