(* ===== verification/Sqlite_Contract.thy ===== *)
theory Sqlite_Contract
  imports Sqlite_Store
begin

text \<open>
  The SQLite store satisfies the contract of \<open>Task_Store\<close>.  The invariant says that the unique keys
  hold, that every stored row decodes, and that tasks and history correspond one to one; the
  abstract store reads the tables back through \<open>decode_task_row\<close>.  A draft is represented exactly
  when its texts are valid UTF-8 and its creation time is a UTC time in the years 0 to 9999.
\<close>

section \<open>Rows\<close>

lemma query_row_Inr: "query_row P rows = Inr r \<longleftrightarrow> List.find P rows = Some r"
  by (simp add: query_row_def split: option.split)

lemma query_row_cases:
  "query_row P rows = (case List.find P rows of None \<Rightarrow> Inl ErrNoRows | Some r \<Rightarrow> Inr r)"
  by (simp add: query_row_def)

lemma errors_is_NoRows [simp]: "errors_is ErrNoRows ErrNoRows"
  by (simp add: errors_is_def ErrNoRows_def)

lemma find_key: "distinct (map f xs) \<Longrightarrow> List.find (\<lambda>x. f x = k) xs = Some x \<longleftrightarrow> x \<in> set xs \<and> f x = k"
  by (induction xs) auto

lemma find_key_None: "List.find (\<lambda>x. f x = k) xs = None \<longleftrightarrow> k \<notin> f ` set xs"
  by (induction xs) auto

lemma find_append: "List.find P (xs @ [y]) = (case List.find P xs of Some x \<Rightarrow> Some x | None \<Rightarrow> if P y then Some y else None)"
  by (induction xs) auto

definition row_identity :: "resource_row \<Rightarrow> string \<times> string" where
  "row_identity r = (rr_connector_instance r, rr_external_identity r)"

definition row_binding :: "resource_row \<Rightarrow> binding" where
  "row_binding r = \<lparr>bd_id = rr_id r, bd_connector = rr_connector_instance r, bd_identity = rr_external_identity r\<rparr>"

definition resources_inv :: "resource_row list \<Rightarrow> bool" where
  "resources_inv rs \<longleftrightarrow>
     distinct (map rr_id rs) \<and> distinct (map rr_name rs) \<and> distinct (map row_identity rs) \<and>
     (\<forall>r \<in> set rs. is_ok (ParseResourceID (rr_id r)) \<and> rr_kind r \<noteq> '''')"

definition decoded :: "task_row \<Rightarrow> Task option" where
  "decoded row = (case decode_task_row (tr_id row) row of Inr t \<Rightarrow> Some t | Inl e \<Rightarrow> None)"

definition sqlite_abs :: "database \<Rightarrow> spec_store" where
  "sqlite_abs db =
     \<lparr>sp_bind = (\<lambda>n. map_option row_binding (List.find (\<lambda>r. rr_name r = n) (db_resources db))),
      sp_tasks = (\<lambda>i. Option.bind (List.find (\<lambda>t. tr_id t = i) (db_tasks db)) decoded)\<rparr>"

definition tasks_inv :: "database \<Rightarrow> bool" where
  "tasks_inv db \<longleftrightarrow>
     distinct (map tr_id (db_tasks db)) \<and>
     (\<forall>t \<in> set (db_tasks db). is_ok (ParseTaskID (tr_id t)) \<and> decoded t \<noteq> None \<and>
        tr_resource_id t \<in> rr_id ` set (db_resources db))"

definition history_inv :: "database \<Rightarrow> bool" where
  "history_inv db \<longleftrightarrow>
     map hr_task_id (db_history db) = map tr_id (db_tasks db) \<and>
     (\<forall>h \<in> set (db_history db). hr_sequence h = 1 \<and> hr_status h = TaskStatusPending \<and>
        hr_reason h = HistoryReasonManualSubmission)"

definition sqlite_inv :: "database \<Rightarrow> bool" where
  "sqlite_inv db \<longleftrightarrow>
     resources_inv (db_resources db) \<and> tasks_inv db \<and> history_inv db \<and> spec_inv (sqlite_abs db)"

lemma sqlite_inv_empty: "sqlite_inv empty_database"
  by (simp add: sqlite_inv_def empty_database_def resources_inv_def tasks_inv_def history_inv_def
      spec_inv_def sqlite_abs_def)

section \<open>Binding the resource\<close>

definition row_owns :: "TaskDraft \<Rightarrow> resource_row \<Rightarrow> bool" where
  "row_owns d r \<longleftrightarrow> row_identity r = (rd_connector (td_resource d), rd_external_identity (td_resource d))"

lemma sqlite_abs_bind:
  assumes "resources_inv (db_resources db)"
  shows "sp_bind (sqlite_abs db) n = Some b \<longleftrightarrow>
    (\<exists>r \<in> set (db_resources db). rr_name r = n \<and> b = row_binding r)"
proof -
  have "distinct (map rr_name (db_resources db))" using assms by (simp add: resources_inv_def)
  then show ?thesis by (auto simp: sqlite_abs_def find_key)
qed

lemma sqlite_conflict:
  assumes "resources_inv (db_resources db)"
  shows "binding_conflict d (sqlite_abs db) \<longleftrightarrow>
    (\<exists>r \<in> set (db_resources db). (rr_name r = rd_name (td_resource d)) \<noteq> row_owns d r)"
proof -
  have own: "owns d (row_binding r) = row_owns d r" for r
    by (simp add: owns_def row_binding_def row_owns_def row_identity_def)
  have "binding_conflict d (sqlite_abs db) \<longleftrightarrow>
      (\<exists>n b r. r \<in> set (db_resources db) \<and> rr_name r = n \<and> b = row_binding r \<and>
         (n = rd_name (td_resource d)) \<noteq> owns d b)"
    unfolding binding_conflict_def sqlite_abs_bind [OF assms] by blast
  also have "\<dots> \<longleftrightarrow> (\<exists>r \<in> set (db_resources db). (rr_name r = rd_name (td_resource d)) \<noteq> row_owns d r)"
    unfolding own [symmetric] by blast
  finally show ?thesis .
qed

definition updated_row :: "TaskDraft \<Rightarrow> string \<Rightarrow> string \<Rightarrow> resource_row \<Rightarrow> resource_row" where
  "updated_row d configuration requested r =
     r\<lparr>rr_kind := rd_kind (td_resource d), rr_external_ref := rd_external_ref (td_resource d),
       rr_revision := rd_revision (td_resource d), rr_configuration_json := configuration,
       rr_policy_request_json := requested, rr_updated_at := formatTime (td_created_at d)\<rparr>"

lemma updated_row_keys [simp]:
  "rr_id (updated_row d c p r) = rr_id r" "rr_name (updated_row d c p r) = rr_name r"
  "row_identity (updated_row d c p r) = row_identity r" "row_binding (updated_row d c p r) = row_binding r"
  "rr_kind (updated_row d c p r) = rd_kind (td_resource d)"
  by (simp_all add: updated_row_def row_identity_def row_binding_def)

definition bound_rows :: "TaskDraft \<Rightarrow> string \<Rightarrow> string \<Rightarrow> resource_row list \<Rightarrow> resource_row list" where
  "bound_rows d configuration requested rs =
     (if rd_name (td_resource d) \<in> rr_name ` set rs
      then map (\<lambda>r. if rr_name r = rd_name (td_resource d) then updated_row d configuration requested r else r) rs
      else rs @ [new_resource_row d configuration requested])"

lemma bind_resource_conflict:
  assumes inv: "resources_inv (db_resources db)" and "binding_conflict d (sqlite_abs db)"
  shows "bind_resource (\<lambda>_. None) d c p db = Inl conflict"
proof -
  let ?rs = "db_resources db" and ?n = "rd_name (td_resource d)"
  from assms(2) obtain r where r: "r \<in> set ?rs" "(rr_name r = ?n) \<noteq> row_owns d r"
    unfolding sqlite_conflict [OF inv] by blast
  have dn: "distinct (map rr_name ?rs)" and di: "distinct (map row_identity ?rs)"
    using inv by (simp_all add: resources_inv_def)
  show ?thesis
  proof (cases "List.find (\<lambda>r. rr_name r = ?n) ?rs")
    case None
    then have "rr_name r \<noteq> ?n" using r(1) by (metis find_key_None imageI)
    then have "row_owns d r" using r(2) by blast
    then have "List.find (\<lambda>r. rr_connector_instance r = rd_connector (td_resource d) \<and>
        rr_external_identity r = rd_external_identity (td_resource d)) ?rs \<noteq> None"
      using r(1) by (auto simp: find_None_iff row_owns_def row_identity_def)
    then show ?thesis using None
      by (auto simp: bind_resource_def Let_def select_resource_def select_owner_def query_row_def)
  next
    case (Some x)
    then have x: "x \<in> set ?rs" "rr_name x = ?n" using find_key [OF dn] by blast+
    have "\<not> row_owns d x"
    proof
      assume own: "row_owns d x"
      have "r = x" if "row_owns d r"
        using that own r(1) x(1) di by (auto simp: row_owns_def distinct_map inj_on_def)
      moreover have "r = x" if "rr_name r = ?n"
        using that r(1) x dn by (auto simp: distinct_map inj_on_def)
      ultimately show False using r own x(2) by blast
    qed
    then show ?thesis using Some
      by (auto simp: bind_resource_def Let_def select_resource_def query_row_def row_owns_def row_identity_def)
  qed
qed

lemma sqlite_id_clash:
  assumes "resources_inv (db_resources db)" "sp_bind (sqlite_abs db) (rd_name (td_resource d)) = None"
  shows "id_clash d (sqlite_abs db) \<longleftrightarrow>
    (\<exists>r \<in> set (db_resources db). rr_id r = rd_candidate_id (td_resource d))"
proof -
  have "bd_id (row_binding r) = rr_id r" for r by (simp add: row_binding_def)
  then show ?thesis unfolding id_clash_def sqlite_abs_bind [OF assms(1)] using assms(2) by metis
qed

text \<open>Without a conflict the draft's name is free, or its row is the one that owns the draft's identity.\<close>

lemma bound_rows_cases [consumes 2, case_names new known]:
  assumes inv: "resources_inv (db_resources db)" and nc: "\<not> binding_conflict d (sqlite_abs db)"
  obtains "\<forall>r \<in> set (db_resources db). rr_name r \<noteq> rd_name (td_resource d) \<and> \<not> row_owns d r"
      "sp_bind (sqlite_abs db) (rd_name (td_resource d)) = None"
      "bound_id d (sqlite_abs db) = rd_candidate_id (td_resource d)"
      "id_clash d (sqlite_abs db) \<longleftrightarrow> rd_candidate_id (td_resource d) \<in> rr_id ` set (db_resources db)"
      "bound_rows d c p (db_resources db) = db_resources db @ [new_resource_row d c p]"
    | x where "x \<in> set (db_resources db)" "rr_name x = rd_name (td_resource d)" "row_owns d x"
      "sp_bind (sqlite_abs db) (rd_name (td_resource d)) = Some (row_binding x)"
      "bound_id d (sqlite_abs db) = rr_id x" "\<not> id_clash d (sqlite_abs db)"
      "bound_rows d c p (db_resources db) =
         map (\<lambda>r. if rr_id r = rr_id x then updated_row d c p r else r) (db_resources db)"
proof -
  let ?rs = "db_resources db" and ?n = "rd_name (td_resource d)"
  have same: "rr_name r = ?n \<longleftrightarrow> row_owns d r" if "r \<in> set ?rs" for r
    using nc that unfolding sqlite_conflict [OF inv] by blast
  have dn: "distinct (map rr_name ?rs)" and did: "distinct (map rr_id ?rs)"
    using inv by (simp_all add: resources_inv_def)
  show ?thesis
  proof (cases "List.find (\<lambda>r. rr_name r = ?n) ?rs")
    case None
    then have free: "?n \<notin> rr_name ` set ?rs" by (simp add: find_key_None)
    have nobind: "sp_bind (sqlite_abs db) ?n = None" using None by (simp add: sqlite_abs_def)
    show ?thesis
    proof (rule that(1))
      show "\<forall>r \<in> set ?rs. rr_name r \<noteq> ?n \<and> \<not> row_owns d r" using free same by force
      show "id_clash d (sqlite_abs db) \<longleftrightarrow> rd_candidate_id (td_resource d) \<in> rr_id ` set ?rs"
        using sqlite_id_clash [OF inv nobind] by (auto intro: rev_image_eqI)
    qed (simp_all add: nobind bound_id_def bound_rows_def free)
  next
    case (Some x)
    then have x: "x \<in> set ?rs" "rr_name x = ?n" using find_key [OF dn] by blast+
    have bind: "sp_bind (sqlite_abs db) ?n = Some (row_binding x)" using Some by (simp add: sqlite_abs_def)
    have "rr_id r = rr_id x \<longleftrightarrow> rr_name r = ?n" if "r \<in> set ?rs" for r
      using that x dn did by (auto simp: distinct_map inj_on_def)
    then have "bound_rows d c p ?rs = map (\<lambda>r. if rr_id r = rr_id x then updated_row d c p r else r) ?rs"
      using x imageI [OF x(1), of rr_name] by (auto simp: bound_rows_def)
    then show ?thesis
      using same [OF x(1)] x by (intro that(2) [of x]) (simp_all add: bind bound_id_def row_binding_def id_clash_def)
  qed
qed

lemma bind_resource_ok:
  assumes inv: "resources_inv (db_resources db)" and nc: "\<not> binding_conflict d (sqlite_abs db)"
  shows "bind_resource (\<lambda>_. None) d c p db =
    (if id_clash d (sqlite_abs db) then Inl (not_submitted constraint_error)
     else Inr (bound_id d (sqlite_abs db), db\<lparr>db_resources := bound_rows d c p (db_resources db)\<rparr>))"
  using inv nc
proof (cases rule: bound_rows_cases [where c = c and p = p])
  case new
  let ?rs = "db_resources db" and ?new = "new_resource_row d c p"
  have "List.find (\<lambda>r. rr_name r = rd_name (td_resource d)) ?rs = None" using new(1) by (simp add: find_None_iff)
  moreover have "List.find (\<lambda>r. rr_connector_instance r = rd_connector (td_resource d) \<and>
      rr_external_identity r = rd_external_identity (td_resource d)) ?rs = None"
    using new(1) by (auto simp: find_None_iff row_owns_def row_identity_def)
  moreover have "list_ex (\<lambda>r. rr_id r = rr_id ?new \<or> rr_name r = rr_name ?new \<or>
        rr_connector_instance r = rr_connector_instance ?new \<and>
        rr_external_identity r = rr_external_identity ?new) ?rs \<longleftrightarrow> id_clash d (sqlite_abs db)"
    using new(1) unfolding new(4) row_owns_def row_identity_def
    by (auto simp: list_ex_iff new_resource_row_def Let_def intro: rev_image_eqI)
  ultimately show ?thesis using new(3,5)
    by (simp add: bind_resource_def Let_def select_resource_def select_owner_def query_row_def insert_resource_def)
next
  case (known x)
  have "List.find (\<lambda>r. rr_name r = rd_name (td_resource d)) (db_resources db) = Some x"
    using inv known(1,2) by (simp add: find_key resources_inv_def)
  moreover have "is_ok (ParseResourceID (rr_id x))" "rr_kind x \<noteq> ''''" using inv known(1) by (auto simp: resources_inv_def)
  moreover have "update_resource (rd_kind (td_resource d)) (rd_external_ref (td_resource d))
      (rd_revision (td_resource d)) c p (formatTime (td_created_at d)) (rr_id x) db =
    Inr (db\<lparr>db_resources := bound_rows d c p (db_resources db)\<rparr>)"
    unfolding known(7) by (simp add: update_resource_def updated_row_def)
  ultimately show ?thesis using known(2,3,5,6)
    by (simp add: bind_resource_def Let_def select_resource_def query_row_def row_owns_def row_identity_def)
qed

lemma find_updated:
  "map_option row_binding (List.find (\<lambda>r. rr_name r = n)
      (map (\<lambda>r. if P r then updated_row d c p r else r) rs)) =
   map_option row_binding (List.find (\<lambda>r. rr_name r = n) rs)"
  by (induction rs) auto

lemma resources_inv_snoc:
  "resources_inv rs \<Longrightarrow> rr_id r \<notin> rr_id ` set rs \<Longrightarrow> row_identity r \<notin> row_identity ` set rs \<Longrightarrow>
     rr_name r \<notin> rr_name ` set rs \<Longrightarrow> rr_kind r \<noteq> '''' \<Longrightarrow> is_ok (ParseResourceID (rr_id r)) \<Longrightarrow>
     resources_inv (rs @ [r])"
  by (simp add: resources_inv_def)

lemma resources_inv_updated:
  assumes "resources_inv rs" and "rd_kind (td_resource d) \<noteq> ''''"
  shows "resources_inv (map (\<lambda>r. if P r then updated_row d c p r else r) rs)"
proof -
  let ?rs' = "map (\<lambda>r. if P r then updated_row d c p r else r) rs"
  have "map rr_id ?rs' = map rr_id rs" "map rr_name ?rs' = map rr_name rs" "map row_identity ?rs' = map row_identity rs"
    by simp_all
  moreover have "\<forall>r \<in> set ?rs'. is_ok (ParseResourceID (rr_id r)) \<and> rr_kind r \<noteq> ''''"
    using assms by (auto simp: resources_inv_def)
  ultimately show ?thesis using assms(1) unfolding resources_inv_def by metis
qed

lemma new_row_keys:
  "rr_id (new_resource_row d c p) = rd_candidate_id (td_resource d)"
  "rr_name (new_resource_row d c p) = rd_name (td_resource d)"
  "row_identity (new_resource_row d c p) = (rd_connector (td_resource d), rd_external_identity (td_resource d))"
  "rr_kind (new_resource_row d c p) = rd_kind (td_resource d)"
  "row_binding (new_resource_row d c p) = \<lparr>bd_id = rd_candidate_id (td_resource d),
     bd_connector = rd_connector (td_resource d), bd_identity = rd_external_identity (td_resource d)\<rparr>"
  by (simp_all add: new_resource_row_def Let_def row_identity_def row_binding_def)

lemma bound_rows_facts:
  assumes inv: "resources_inv (db_resources db)" and nc: "\<not> binding_conflict d (sqlite_abs db)"
    and clash: "\<not> id_clash d (sqlite_abs db)" and v: "draft_valid d"
    and rs'_def: "rs' = bound_rows d c p (db_resources db)"
  shows "resources_inv rs'" "rr_id ` set rs' = insert (bound_id d (sqlite_abs db)) (rr_id ` set (db_resources db))"
    "map_option row_binding (List.find (\<lambda>r. rr_name r = n) rs') =
      ((sp_bind (sqlite_abs db))(rd_name (td_resource d) \<mapsto>
         \<lparr>bd_id = bound_id d (sqlite_abs db), bd_connector = rd_connector (td_resource d),
          bd_identity = rd_external_identity (td_resource d)\<rparr>)) n" (is ?binding)
proof -
  have kind: "rd_kind (td_resource d) \<noteq> ''''" and cand: "is_ok (ParseResourceID (rd_candidate_id (td_resource d)))"
    using v by (auto simp: draft_valid_def)
  have "resources_inv rs' \<and> rr_id ` set rs' = insert (bound_id d (sqlite_abs db)) (rr_id ` set (db_resources db)) \<and> ?binding"
    using inv nc
  proof (cases rule: bound_rows_cases [where c = c and p = p])
    case new
    have "resources_inv rs'"
      unfolding rs'_def new(5) using new(1,4) clash kind cand
      by (intro resources_inv_snoc [OF inv]) (auto simp: new_row_keys row_owns_def)
    moreover have ?binding
      using new(2,3) by (auto simp: rs'_def new(5) find_append new_row_keys sqlite_abs_def split: option.split)
    ultimately show ?thesis using new(3,5) by (simp add: rs'_def new_row_keys)
  next
    case (known x)
    have ids: "map rr_id rs' = map rr_id (db_resources db)" by (simp add: rs'_def known(7))
    have "resources_inv rs'" unfolding rs'_def known(7) by (rule resources_inv_updated [OF inv kind])
    moreover have "rr_id ` set rs' = insert (bound_id d (sqlite_abs db)) (rr_id ` set (db_resources db))"
      using ids known(1,5) by (metis image_eqI insert_absorb list.set_map)
    moreover have ?binding
      using known(3,4,5) unfolding rs'_def known(7) find_updated
      by (auto simp: sqlite_abs_def row_binding_def row_owns_def row_identity_def)
    ultimately show ?thesis by blast
  qed
  then show "resources_inv rs'" "rr_id ` set rs' = insert (bound_id d (sqlite_abs db)) (rr_id ` set (db_resources db))"
    ?binding by blast+
qed

section \<open>The stored resource snapshot\<close>

lemma esc_rune_length: "u \<noteq> [] \<Longrightarrow> length (esc_rune h u) \<le> 6 * length u"
  by (cases u; cases "tl u") (simp_all add: esc_rune_def hex_esc_def)

lemma esc_length: "length (esc h s) \<le> 6 * length s"
proof (induction h s rule: esc.induct)
  case (2 h a s)
  show ?case
  proof (cases "rune_len (a # s)")
    case 0
    then show ?thesis using 2 by (simp add: hex_esc_def)
  next
    case (Suc n)
    then have "n \<le> length s" by (rule rune_len_drop_split)
    moreover have "length (esc_rune h (a # take n s)) \<le> 6 * length (a # take n s)"
      by (rule esc_rune_length) simp
    moreover have "length (esc h (drop n s)) \<le> 6 * length (drop n s)" using 2 Suc by simp
    ultimately show ?thesis using Suc by simp
  qed
qed simp

definition resource_texts_ok :: "ResourceSnapshot \<Rightarrow> bool" where
  "resource_texts_ok r \<longleftrightarrow>
     (\<forall>s \<in> {rs_id r, rs_name r, rs_kind r, rs_connector r, rs_revision r}.
        utf8_valid s \<and> length s \<le> 512 * 1024)"

lemma resource_tree:
  assumes "resource_texts_ok r"
  shows "json_wf (json_ResourceSnapshot r)" "json_depth (json_ResourceSnapshot r) \<le> max_depth"
    "jnorm (json_ResourceSnapshot r) =
       JObj [(''connector'', JStr (rs_connector r)), (''id'', JStr (rs_id r)), (''kind'', JStr (rs_kind r)),
             (''name'', JStr (rs_name r)), (''revision'', JStr (rs_revision r))]"
    "length (enc False (jnorm (json_ResourceSnapshot r))) \<le> maxSnapshotSize"
proof -
  have "utf8_valid ''id''" "utf8_valid ''name''" "utf8_valid ''kind''" "utf8_valid ''connector''"
    "utf8_valid ''revision''"
    by (simp_all add: byte_def)
  then show "json_wf (json_ResourceSnapshot r)"
    using assms by (simp add: json_ResourceSnapshot_def resource_texts_ok_def del: utf8_valid.simps)
  show "json_depth (json_ResourceSnapshot r) \<le> max_depth"
    by (simp add: json_ResourceSnapshot_def json_depth_le max_depth_def)
  show norm: "jnorm (json_ResourceSnapshot r) =
       JObj [(''connector'', JStr (rs_connector r)), (''id'', JStr (rs_id r)), (''kind'', JStr (rs_kind r)),
             (''name'', JStr (rs_name r)), (''revision'', JStr (rs_revision r))]"
    by (simp add: json_ResourceSnapshot_def sort_members_def less_char_def)
  have "length (enc False (jnorm (json_ResourceSnapshot r))) \<le>
      6 * (length (rs_id r) + length (rs_name r) + length (rs_kind r) + length (rs_connector r) + length (rs_revision r)) + 500"
  proof -
    have keys: "length (esc False k) \<le> 60" if "k \<in> {''connector'', ''id'', ''kind'', ''name'', ''revision''}" for k
      using esc_length [of False k] that by auto
    show ?thesis
      unfolding norm
      using esc_length [of False "rs_id r"] esc_length [of False "rs_name r"] esc_length [of False "rs_kind r"]
        esc_length [of False "rs_connector r"] esc_length [of False "rs_revision r"]
        keys [of "''connector''"] keys [of "''id''"] keys [of "''kind''"] keys [of "''name''"] keys [of "''revision''"]
      by (simp add: enc.simps(6) del: esc.simps)
  qed
  also have "\<dots> \<le> maxSnapshotSize"
    using assms by (simp add: resource_texts_ok_def maxSnapshotSize_def)
  finally show "length (enc False (jnorm (json_ResourceSnapshot r))) \<le> maxSnapshotSize" .
qed

lemma NewSnapshot_resource:
  assumes "resource_texts_ok r"
  shows "NewSnapshot (json_ResourceSnapshot r) = Inr (enc False (jnorm (json_ResourceSnapshot r)))"
  unfolding NewSnapshot_def ParseSnapshot_def
  using canonicalJSON_enc [OF resource_tree(1,2) [OF assms], of True] resource_tree(4) [OF assms] by simp

lemma fold_key_lower: "97 \<le> byte c \<Longrightarrow> byte c \<le> 122 \<Longrightarrow> fold_key (c # s) = char_of (byte c - 32) # fold_key s"
  by simp

lemma field_keys:
  "fold_key ''connector'' = ''CONNECTOR''" "fold_key ''id'' = ''ID''" "fold_key ''kind'' = ''KIND''"
  "fold_key ''name'' = ''NAME''" "fold_key ''revision'' = ''REVISION''"
  by (simp_all add: fold_key_lower byte_def char_of_eq_iff take_bit_eq_mod del: fold_key.simps(2))

lemma decode_stored_resource:
  assumes "resource_texts_ok r"
  shows "decodeResourceSnapshot (enc False (jnorm (json_ResourceSnapshot r))) = Inr r"
proof -
  let ?v = "jnorm (json_ResourceSnapshot r)"
  have "json_wf ?v" "json_depth ?v \<le> max_depth"
    using resource_tree(1,2) [OF assms] by (simp_all add: jnorm_wf jnorm_depth)
  from decode_enc [OF this, of "[]" False]
  have d: "decode_one (enc False ?v) = Some (?v, [])" unfolding append_Nil2 by (simp only: delim_simps)
  have "set_members [(''connector'', JStr (rs_connector r)), (''id'', JStr (rs_id r)), (''kind'', JStr (rs_kind r)),
             (''name'', JStr (rs_name r)), (''revision'', JStr (rs_revision r))] zero_resource = Inr r"
    by (simp add: set_member_def Let_def field_keys set_string_def zero_resource_def del: fold_key.simps)
  then show ?thesis
    unfolding decodeResourceSnapshot_def d by (simp add: resource_tree(3) [OF assms] del: set_members.simps)
qed

section \<open>Creating a task\<close>

definition sqlite_repr :: "TaskDraft \<Rightarrow> bool" where
  "sqlite_repr d \<longleftrightarrow>
     (\<forall>s \<in> {rd_name (td_resource d), rd_kind (td_resource d), rd_connector (td_resource d), rd_revision (td_resource d)}.
        utf8_valid s \<and> length s \<le> 512 * 1024) \<and>
     storable (td_created_at d) \<and> t_mono (td_created_at d) = None"

lemma check_all_snapshots_ok: "check_all_snapshots ss = Inr u \<longleftrightarrow> (\<forall>s \<in> set ss. is_ok (ParseSnapshot s))"
  by (induction ss) (auto simp: Snapshot_Bytes_def is_ok_iff split: sum.splits)

text \<open>The SQLite store accepts exactly the valid drafts.\<close>

lemma validateTaskDraft_valid: "is_ok (validateTaskDraft d) \<longleftrightarrow> draft_valid d"
proof -
  have "is_ok (validateTaskDraft d) \<longleftrightarrow> validateTaskDraft d = Inr ()" by (simp add: is_ok_iff)
  also have "\<dots> \<longleftrightarrow> draft_valid d"
    unfolding validateTaskDraft_def Let_def rbind_eq_Inr fail_if_eq_Inr check_all_snapshots_ok draft_valid_def
      Snapshot_Bytes_def is_ok_iff
    by auto
  finally show ?thesis .
qed

definition created_row :: "TaskDraft \<Rightarrow> resource_id \<Rightarrow> task_row" where
  "created_row d i =
     \<lparr>tr_id = td_id d, tr_resource_id = i, tr_status = td_status d,
      tr_resource_json = enc False (jnorm (json_ResourceSnapshot (draft_resource_snapshot d i))),
      tr_input_json = td_input d, tr_configuration_json = td_configuration d, tr_policy_json = td_policy d,
      tr_created_at = formatTime (td_created_at d)\<rparr>"

lemma draft_snapshot_texts:
  assumes "sqlite_repr d" and "is_ok (ParseResourceID i)"
  shows "resource_texts_ok (draft_resource_snapshot d i)"
proof -
  from assms(2) have "utf8_valid i" "length i \<le> 512 * 1024"
    using resource_id_valid_utf8 by (auto simp: is_ok_iff result_simps id_body_def)
  then show ?thesis using assms(1) by (simp add: resource_texts_ok_def draft_resource_snapshot_def sqlite_repr_def)
qed

lemma decode_created_row:
  assumes "sqlite_repr d" "draft_valid d" "is_ok (ParseResourceID i)"
  shows "decode_task_row (td_id d) (created_row d i) = Inr (task_of d i)"
proof -
  have time: "parseStoredTime (formatTime (td_created_at d)) = Some (td_created_at d)"
  proof -
    have "time_UTC (td_created_at d) = td_created_at d"
      using assms(1,2) by (simp add: time_UTC_def sqlite_repr_def draft_valid_def)
    moreover have "storable (td_created_at d)" using assms(1) by (simp add: sqlite_repr_def)
    ultimately show ?thesis using parse_format by metis
  qed
  have snap: "ParseSnapshot (td_input d) = Inr (parsed (td_input d))"
    "ParseSnapshot (td_configuration d) = Inr (parsed (td_configuration d))"
    "ParseSnapshot (td_policy d) = Inr (parsed (td_policy d))"
    using assms(2) by (auto simp: draft_valid_def intro!: ok_parsed)
  have fields: "rd_name (td_resource d) \<noteq> ''''" "rd_kind (td_resource d) \<noteq> ''''"
    "rd_connector (td_resource d) \<noteq> ''''" "rd_revision (td_resource d) \<noteq> ''''" "td_status d = TaskStatusPending"
    using assms(2) by (auto simp: draft_valid_def)
  have stored: "decodeResourceSnapshot (enc False (jnorm (json_ResourceSnapshot (draft_resource_snapshot d i)))) =
      Inr (draft_resource_snapshot d i)"
    by (rule decode_stored_resource [OF draft_snapshot_texts [OF assms(1,3)]])
  have rs: "rs_id (draft_resource_snapshot d i) = i" "rs_name (draft_resource_snapshot d i) = rd_name (td_resource d)"
    "rs_kind (draft_resource_snapshot d i) = rd_kind (td_resource d)"
    "rs_connector (draft_resource_snapshot d i) = rd_connector (td_resource d)"
    "rs_revision (draft_resource_snapshot d i) = rd_revision (td_resource d)"
    by (simp_all add: draft_resource_snapshot_def)
  show ?thesis
    unfolding decode_task_row_def created_row_def
    by (simp add: stored rs time snap fields assms(3)) (simp add: task_of_def draft_resource_snapshot_def fields)
qed

definition created_history :: "TaskDraft \<Rightarrow> history_row" where
  "created_history d =
     \<lparr>hr_task_id = td_id d, hr_sequence = he_sequence (td_initial_history d),
      hr_status = he_status (td_initial_history d),
      hr_occurred_at = formatTime (he_occurred_at (td_initial_history d)),
      hr_reason = he_reason (td_initial_history d)\<rparr>"

definition sqlite_created :: "TaskDraft \<Rightarrow> database \<Rightarrow> database" where
  "sqlite_created d db =
     \<lparr>db_resources = bound_rows d (td_configuration d) (rd_requested_policy (td_resource d)) (db_resources db),
      db_tasks = db_tasks db @ [created_row d (bound_id d (sqlite_abs db))],
      db_history = db_history db @ [created_history d]\<rparr>"

lemma bound_id_ok:
  assumes "resources_inv (db_resources db)" "draft_valid d"
  shows "is_ok (ParseResourceID (bound_id d (sqlite_abs db)))"
proof (cases "sp_bind (sqlite_abs db) (rd_name (td_resource d))")
  case None
  then show ?thesis using assms(2) by (simp add: bound_id_def draft_valid_def)
next
  case (Some b)
  then obtain r where "r \<in> set (db_resources db)" "b = row_binding r"
    using sqlite_abs_bind [OF assms(1)] by blast
  then show ?thesis using Some assms(1) by (simp add: bound_id_def row_binding_def resources_inv_def)
qed

lemma sqlite_task_free:
  assumes "sqlite_inv db"
  shows "sp_tasks (sqlite_abs db) i = None \<longleftrightarrow> i \<notin> tr_id ` set (db_tasks db)"
proof (cases "List.find (\<lambda>t. tr_id t = i) (db_tasks db)")
  case None
  then show ?thesis by (simp add: sqlite_abs_def find_key_None [symmetric])
next
  case (Some t)
  have "distinct (map tr_id (db_tasks db))" using assms by (simp add: sqlite_inv_def tasks_inv_def)
  from find_key [OF this] Some have t: "t \<in> set (db_tasks db)" "tr_id t = i" by blast+
  then have "decoded t \<noteq> None" using assms by (simp add: sqlite_inv_def tasks_inv_def)
  then show ?thesis using Some t imageI [OF t(1), of tr_id] by (auto simp: sqlite_abs_def)
qed

lemma insert_created_task:
  "insert_task (created_row d i) db =
    (if td_id d \<in> tr_id ` set (db_tasks db) then Inl constraint_error
     else Inr (db\<lparr>db_tasks := db_tasks db @ [created_row d i]\<rparr>))"
  by (auto simp: insert_task_def list_ex_iff created_row_def intro: rev_image_eqI)

lemma insert_created_history:
  assumes "history_inv db" and "draft_valid d" and "td_id d \<notin> tr_id ` set (db_tasks db)"
    and "db_history db' = db_history db"
  shows "insert_history (created_history d) db' = Inr (db'\<lparr>db_history := db_history db @ [created_history d]\<rparr>)"
proof -
  have "set (map hr_task_id (db_history db)) = tr_id ` set (db_tasks db)"
    using assms(1) by (simp add: history_inv_def del: set_map) simp
  then have "\<forall>h \<in> set (db_history db). hr_task_id h \<noteq> td_id d" using assms(3) by (metis imageI set_map)
  then show ?thesis using assms(2,4)
    by (auto simp: insert_history_def created_history_def list_ex_iff draft_valid_def)
qed

lemma create_transaction_cases:
  assumes inv: "sqlite_inv db" and v: "draft_valid d" and repr: "sqlite_repr d"
  shows "if spec_create d (sqlite_abs db) = None \<or> id_clash d (sqlite_abs db)
    then \<exists>e. create_transaction (\<lambda>_. None) d db = Inl e
    else create_transaction (\<lambda>_. None) d db =
      Inr (draft_resource_snapshot d (bound_id d (sqlite_abs db)), sqlite_created d db)"
proof -
  let ?c = "td_configuration d" and ?p = "rd_requested_policy (td_resource d)"
  have r: "resources_inv (db_resources db)" using inv by (simp add: sqlite_inv_def)
  have refuse: "spec_create d (sqlite_abs db) = None \<longleftrightarrow>
      td_id d \<in> tr_id ` set (db_tasks db) \<or> binding_conflict d (sqlite_abs db)"
    using sqlite_task_free [OF inv, of "td_id d"] v by (auto simp: spec_create_def Let_def)
  show ?thesis
  proof (cases "binding_conflict d (sqlite_abs db) \<or> id_clash d (sqlite_abs db)")
    case True
    then have "\<exists>e. bind_resource (\<lambda>_. None) d ?c ?p db = Inl e"
      using bind_resource_conflict [OF r, of d ?c ?p] bind_resource_ok [OF r, of d ?c ?p]
      by (cases "binding_conflict d (sqlite_abs db)") auto
    then have "\<exists>e. create_transaction (\<lambda>_. None) d db = Inl e"
      by (auto simp: create_transaction_def Let_def Snapshot_Bytes_def)
    then show ?thesis using True refuse by auto
  next
    case False
    let ?i = "bound_id d (sqlite_abs db)"
    let ?db1 = "db\<lparr>db_resources := bound_rows d ?c ?p (db_resources db)\<rparr>"
    have bind: "bind_resource (\<lambda>_. None) d ?c ?p db = Inr (?i, ?db1)"
      using bind_resource_ok [OF r, of d ?c ?p] False by simp
    have snap: "NewSnapshot (json_ResourceSnapshot (draft_resource_snapshot d ?i)) =
        Inr (tr_resource_json (created_row d ?i))"
      using NewSnapshot_resource [OF draft_snapshot_texts [OF repr bound_id_ok [OF r v]]]
      by (simp add: created_row_def)
    note tasks = insert_created_task [of d ?i ?db1, simplified]
    have hist: "insert_history (created_history d) (?db1\<lparr>db_tasks := db_tasks db @ [created_row d ?i]\<rparr>) =
        Inr (sqlite_created d db)" if "td_id d \<notin> tr_id ` set (db_tasks db)"
      using insert_created_history [OF _ v that] inv by (simp add: sqlite_created_def sqlite_inv_def)
    have "create_transaction (\<lambda>_. None) d db =
        rbind (map_err not_submitted (insert_task (created_row d ?i) ?db1)) (\<lambda>db2.
        rbind (map_err not_submitted (insert_history (created_history d) db2)) (\<lambda>db3.
        Inr (draft_resource_snapshot d ?i, db3)))"
      using snap
      by (simp add: create_transaction_def Let_def Snapshot_Bytes_def bind created_row_def created_history_def)
    then show ?thesis using tasks hist False refuse by auto
  qed
qed

text \<open>\<open>mustSnapshot\<close> never panics: the draft has been validated.\<close>

lemma sqlite_CreateTask_returns: "fst (sqlite_CreateTask h drv d db) \<noteq> None"
proof (cases "validateTaskDraft d")
  case (Inr u)
  then have "draft_valid d" using validateTaskDraft_valid [of d] by simp
  then have "mustSnapshot (td_input d) \<noteq> None" "mustSnapshot (td_configuration d) \<noteq> None"
    "mustSnapshot (td_policy d) \<noteq> None"
    by (auto simp: draft_valid_def mustSnapshot_def is_ok_iff)
  then show ?thesis
    by (auto simp: sqlite_CreateTask_def Snapshot_Bytes_def split: sum.splits option.splits prod.splits)
qed (simp add: sqlite_CreateTask_def)

definition sqlite_create :: "TaskDraft \<Rightarrow> database \<Rightarrow> (gerr + Task) \<times> database" where
  "sqlite_create d db = apfst the (sqlite_CreateTask (Some Writable) (\<lambda>_. None) d db)"

definition sqlite_lookup :: "task_id \<Rightarrow> database \<Rightarrow> gerr + Task" where
  "sqlite_lookup i db = sqlite_Task (Some Writable) (\<lambda>_. None) i db"

lemma sqlite_create_cases:
  assumes "sqlite_inv db" "sqlite_repr d"
  shows "if spec_create d (sqlite_abs db) = None \<or> id_clash d (sqlite_abs db)
    then \<exists>e. sqlite_create d db = (Inl e, db)
    else sqlite_create d db = (Inr (task_of d (bound_id d (sqlite_abs db))), sqlite_created d db) \<and>
      draft_valid d \<and> \<not> binding_conflict d (sqlite_abs db) \<and> td_id d \<notin> tr_id ` set (db_tasks db)"
proof (cases "validateTaskDraft d")
  case (Inl e)
  then have "\<not> draft_valid d" using validateTaskDraft_valid [of d] by simp
  then show ?thesis using Inl by (simp add: sqlite_create_def sqlite_CreateTask_def spec_create_def)
next
  case (Inr u)
  then have v: "draft_valid d" using validateTaskDraft_valid [of d] by simp
  then have must: "mustSnapshot (td_input d) = Some (parsed (td_input d))"
    "mustSnapshot (td_configuration d) = Some (parsed (td_configuration d))"
    "mustSnapshot (td_policy d) = Some (parsed (td_policy d))"
    by (auto simp: draft_valid_def mustSnapshot_def ok_parsed)
  note t = create_transaction_cases [OF assms(1) v assms(2)]
  show ?thesis
  proof (cases "spec_create d (sqlite_abs db) = None \<or> id_clash d (sqlite_abs db)")
    case True
    with t obtain e where "create_transaction (\<lambda>_. None) d db = Inl e" by auto
    then have "sqlite_create d db = (Inl e, db)"
      by (simp add: sqlite_create_def sqlite_CreateTask_def Inr)
    with True show ?thesis by auto
  next
    case False
    with t have tx: "create_transaction (\<lambda>_. None) d db =
      Inr (draft_resource_snapshot d (bound_id d (sqlite_abs db)), sqlite_created d db)" by simp
    have "sqlite_create d db = (Inr (task_of d (bound_id d (sqlite_abs db))), sqlite_created d db)"
      by (simp add: sqlite_create_def sqlite_CreateTask_def Inr tx Snapshot_Bytes_def must task_of_def
          draft_resource_snapshot_def)
    moreover have "\<not> binding_conflict d (sqlite_abs db)" "td_id d \<notin> tr_id ` set (db_tasks db)"
      using False v sqlite_task_free [OF assms(1), of "td_id d"]
      by (auto simp: spec_create_def Let_def split: if_splits)
    ultimately show ?thesis using False v by simp
  qed
qed

lemma sqlite_created_abs:
  assumes inv: "sqlite_inv db" and v: "draft_valid d" and repr: "sqlite_repr d"
    and nc: "\<not> binding_conflict d (sqlite_abs db)" and clash: "\<not> id_clash d (sqlite_abs db)"
    and free: "td_id d \<notin> tr_id ` set (db_tasks db)"
  shows "spec_create d (sqlite_abs db) =
    Some (task_of d (bound_id d (sqlite_abs db)), sqlite_abs (sqlite_created d db))"
proof -
  let ?i = "bound_id d (sqlite_abs db)"
  have r: "resources_inv (db_resources db)" using inv by (simp add: sqlite_inv_def)
  have "sp_bind (sqlite_abs (sqlite_created d db)) = (sp_bind (sqlite_abs db))(rd_name (td_resource d) \<mapsto>
         \<lparr>bd_id = ?i, bd_connector = rd_connector (td_resource d), bd_identity = rd_external_identity (td_resource d)\<rparr>)"
  proof
    fix n
    have rows: "db_resources (sqlite_created d db) =
        bound_rows d (td_configuration d) (rd_requested_policy (td_resource d)) (db_resources db)"
      by (simp add: sqlite_created_def)
    show "sp_bind (sqlite_abs (sqlite_created d db)) n = ((sp_bind (sqlite_abs db))(rd_name (td_resource d) \<mapsto>
         \<lparr>bd_id = ?i, bd_connector = rd_connector (td_resource d), bd_identity = rd_external_identity (td_resource d)\<rparr>)) n"
      unfolding sqlite_abs_def [of "sqlite_created d db"] spec_store.simps rows
      by (rule bound_rows_facts(3) [OF r nc clash v refl])
  qed
  moreover have "sp_tasks (sqlite_abs (sqlite_created d db)) = (sp_tasks (sqlite_abs db))(td_id d \<mapsto> task_of d ?i)"
  proof
    fix j
    have dec: "decoded (created_row d ?i) = Some (task_of d ?i)" and id: "tr_id (created_row d ?i) = td_id d"
      using decode_created_row [OF repr v bound_id_ok [OF r v]] by (simp_all add: decoded_def created_row_def)
    have "List.find (\<lambda>t. tr_id t = td_id d) (db_tasks db) = None" using free by (simp add: find_key_None)
    then show "sp_tasks (sqlite_abs (sqlite_created d db)) j = ((sp_tasks (sqlite_abs db))(td_id d \<mapsto> task_of d ?i)) j"
      using dec id by (auto simp: sqlite_abs_def sqlite_created_def find_append split: option.split)
  qed
  ultimately show ?thesis
    using v nc sqlite_task_free [OF inv, of "td_id d"] free by (simp add: spec_create_def Let_def)
qed

lemma sqlite_created_inv:
  assumes inv: "sqlite_inv db" and v: "draft_valid d" and repr: "sqlite_repr d"
    and nc: "\<not> binding_conflict d (sqlite_abs db)" and clash: "\<not> id_clash d (sqlite_abs db)"
    and free: "td_id d \<notin> tr_id ` set (db_tasks db)"
  shows "sqlite_inv (sqlite_created d db)"
proof -
  let ?i = "bound_id d (sqlite_abs db)"
  have r: "resources_inv (db_resources db)" and t: "tasks_inv db" and h: "history_inv db"
    using inv by (simp_all add: sqlite_inv_def)
  note rows = bound_rows_facts [OF r nc clash v refl]
  have "decoded (created_row d ?i) \<noteq> None"
    using decode_created_row [OF repr v bound_id_ok [OF r v]] by (simp add: decoded_def created_row_def)
  moreover have "tr_id (created_row d ?i) = td_id d" "tr_resource_id (created_row d ?i) = ?i"
    by (simp_all add: created_row_def)
  moreover have "is_ok (ParseTaskID (td_id d))" using v by (simp add: draft_valid_def)
  ultimately have "tasks_inv (sqlite_created d db)"
    using t free rows(2) by (auto simp: tasks_inv_def sqlite_created_def)
  moreover have "history_inv (sqlite_created d db)"
    using h v by (auto simp: history_inv_def sqlite_created_def created_history_def created_row_def draft_valid_def)
  moreover have "resources_inv (db_resources (sqlite_created d db))"
    using rows(1) by (simp add: sqlite_created_def)
  moreover have "spec_inv (sqlite_abs (sqlite_created d db))"
    using spec_create_inv [OF sqlite_created_abs [OF assms]] inv by (simp add: sqlite_inv_def)
  ultimately show ?thesis by (simp add: sqlite_inv_def)
qed

lemma sqlite_lookup_refines:
  assumes "sqlite_inv db"
  shows "case sqlite_lookup i db of Inl e \<Rightarrow> sp_tasks (sqlite_abs db) i = None
    | Inr t \<Rightarrow> sp_tasks (sqlite_abs db) i = Some t"
proof (cases "List.find (\<lambda>t. tr_id t = i) (db_tasks db)")
  case None
  then show ?thesis
    by (simp add: sqlite_lookup_def sqlite_Task_def select_task_def query_row_def sqlite_abs_def)
next
  case (Some row)
  have "distinct (map tr_id (db_tasks db))" using assms by (simp add: sqlite_inv_def tasks_inv_def)
  from find_key [OF this] Some have row: "row \<in> set (db_tasks db)" "tr_id row = i" by blast+
  then have "is_ok (ParseTaskID i)" "decoded row \<noteq> None"
    using assms by (auto simp: sqlite_inv_def tasks_inv_def)
  then show ?thesis using Some row(2)
    by (auto simp: sqlite_lookup_def sqlite_Task_def select_task_def query_row_def sqlite_abs_def decoded_def
        split: sum.splits)
qed

interpretation sqlite: task_store sqlite_create sqlite_lookup sqlite_inv sqlite_abs sqlite_repr
proof unfold_locales
  fix s d assume *: "sqlite_inv s" "sqlite_repr d"
  show "sqlite_inv (snd (sqlite_create d s))"
  proof (cases "spec_create d (sqlite_abs s) = None \<or> id_clash d (sqlite_abs s)")
    case True
    then show ?thesis using sqlite_create_cases [OF *] *(1) by auto
  next
    case False
    then show ?thesis using sqlite_create_cases [OF *] sqlite_created_inv [OF *(1) _ *(2)] by simp
  qed
next
  fix s d assume *: "sqlite_inv s" "sqlite_repr d"
  show "case sqlite_create d s of
      (Inl e, s') \<Rightarrow> (spec_create d (sqlite_abs s) = None \<or> id_clash d (sqlite_abs s)) \<and> sqlite_abs s' = sqlite_abs s
    | (Inr t, s') \<Rightarrow> spec_create d (sqlite_abs s) = Some (t, sqlite_abs s')"
  proof (cases "spec_create d (sqlite_abs s) = None \<or> id_clash d (sqlite_abs s)")
    case True
    then obtain e where "sqlite_create d s = (Inl e, s)" using sqlite_create_cases [OF *] by auto
    with True show ?thesis by simp
  next
    case False
    note c = sqlite_create_cases [OF *, unfolded if_not_P [OF False]]
    then have "spec_create d (sqlite_abs s) =
        Some (task_of d (bound_id d (sqlite_abs s)), sqlite_abs (sqlite_created d s))"
      using False by (intro sqlite_created_abs [OF *(1) _ *(2)]) simp_all
    with c show ?thesis by simp
  qed
next
  fix s i assume "sqlite_inv s"
  then show "case sqlite_lookup i s of Inl e \<Rightarrow> sp_tasks (sqlite_abs s) i = None
    | Inr t \<Rightarrow> sp_tasks (sqlite_abs s) i = Some t"
    by (rule sqlite_lookup_refines)
qed

end
