(* ===== verification/Sqlite_Properties.thy ===== *)
theory Sqlite_Properties
  imports Sqlite_Contract
begin

text \<open>
  What the SQLite store guarantees: all or nothing under any driver failure, the contract of
  \<open>Task_Store\<close>, the round trip of a submission through the tables, and well-formed results even
  from a corrupt database.
\<close>

section \<open>All or nothing\<close>

lemma rbind_InrE:
  assumes "rbind r f = Inr y"
  obtains x where "r = Inr x" "f x = Inr y"
  using assms by (cases r) auto

lemma bind_resource_tables:
  "bind_resource drv d c p db = Inr (i, db') \<Longrightarrow> db_tasks db' = db_tasks db \<and> db_history db' = db_history db"
  by (auto simp: bind_resource_def Let_def call_Inr insert_resource_def update_resource_def
      split: sum.splits if_splits)

lemma create_transaction_tables:
  assumes "create_transaction drv d db = Inr (rs, db')"
  shows "\<exists>row. tr_id row = td_id d \<and> td_id d \<notin> tr_id ` set (db_tasks db) \<and>
    db_tasks db' = db_tasks db @ [row] \<and> db_history db' = db_history db @ [created_history d] \<and>
    0 < he_sequence (td_initial_history d)"
proof -
  from assms obtain i db1 json db2 where
    b: "bind_resource drv d (Snapshot_Bytes (td_configuration d)) (Snapshot_Bytes (rd_requested_policy (td_resource d))) db = Inr (i, db1)"
    and t: "insert_task \<lparr>tr_id = td_id d, tr_resource_id = i, tr_status = td_status d,
                tr_resource_json = Snapshot_Bytes json, tr_input_json = Snapshot_Bytes (td_input d),
                tr_configuration_json = Snapshot_Bytes (td_configuration d),
                tr_policy_json = Snapshot_Bytes (td_policy d),
                tr_created_at = formatTime (td_created_at d)\<rparr> db1 = Inr db2"
    and h: "insert_history (created_history d) db2 = Inr db'"
    unfolding create_transaction_def Let_def created_history_def
    by (elim rbind_InrE) (auto simp: map_err_eq_Inr call_Inr elim!: rbind_InrE)
  note b' = bind_resource_tables [OF b]
  from h have "0 < he_sequence (td_initial_history d)" "db_tasks db' = db_tasks db2"
    "db_history db' = db_history db2 @ [created_history d]"
    by (auto simp: insert_history_def created_history_def split: if_splits)
  moreover from t have "td_id d \<notin> tr_id ` set (db_tasks db1)" "db_history db2 = db_history db1"
    "\<exists>row. tr_id row = td_id d \<and> db_tasks db2 = db_tasks db1 @ [row]"
    by (auto simp: insert_task_def list_ex_iff split: if_splits)
  ultimately show ?thesis using b' by auto
qed

text \<open>
  C6.  \<open>CreateTask\<close> of the SQLite store is all or nothing whatever the driver does: it never panics;
  any error, at any of its driver calls, leaves the tables exactly as they were; a success needs a
  writable handle and a valid draft with an unused identifier, and adds one task row and its one
  history row.
\<close>

theorem sqlite_CreateTask_atomic:
  "case sqlite_CreateTask h drv d db of
     (None, db') \<Rightarrow> False
   | (Some (Inl e), db') \<Rightarrow> db' = db
   | (Some (Inr t), db') \<Rightarrow> h = Some Writable \<and> draft_valid d \<and> td_id d \<notin> tr_id ` set (db_tasks db) \<and>
       (\<exists>row. tr_id row = td_id d \<and> db_tasks db' = db_tasks db @ [row]) \<and>
       db_history db' = db_history db @ [created_history d]"
proof (cases "sqlite_CreateTask h drv d db")
  case (Pair r db')
  then obtain r' where r: "r = Some r'" using sqlite_CreateTask_returns [of h drv d db] by (cases r) auto
  show ?thesis
  proof (cases r')
    case (Inl e)
    then have "db' = db" using Pair r
      by (auto simp: sqlite_CreateTask_def split: if_splits sum.splits option.splits prod.splits)
    then show ?thesis using Pair r Inl by simp
  next
    case (Inr t)
    obtain u rs where v: "validateTaskDraft d = Inr u" and c: "create_transaction drv d db = Inr (rs, db')"
      and h: "h \<noteq> None" "h \<noteq> Some ReadOnly"
      using Pair r Inr by (auto simp: sqlite_CreateTask_def split: if_splits sum.splits option.splits prod.splits)
    have "h = Some Writable" using h by (metis handle.exhaust not_None_eq)
    moreover have "draft_valid d" using validateTaskDraft_valid [of d] v by simp
    ultimately show ?thesis using create_transaction_tables [OF c] Pair r Inr by auto
  qed
qed

section \<open>Well-formed results\<close>

lemma parseStoredTime_UTC: "parseStoredTime s = Some t \<Longrightarrow> t_loc t = UTC \<and> t_mono t = None"
  by (auto simp: parseStoredTime_def make_time_def bind_eq_Some_conv case_prod_beta split: if_splits)

text \<open>
  C9.  Whatever the database file holds, \<open>Task\<close> of the SQLite store returns either one of its two
  safe errors or a well-formed task with the identifier asked for: pending, in UTC, with a valid
  resource identifier, no empty resource field and canonical snapshots.
\<close>

theorem sqlite_Task_wellformed:
  "case sqlite_Task h drv i db of
     Inl e \<Rightarrow> (\<exists>c. e = unavailable c) \<or> e = sqlite_storeError ''task not found'' sqlite_ErrTaskNotFound
   | Inr t \<Rightarrow> is_ok (ParseTaskID i) \<and> tk_id t = i \<and> tk_status t = TaskStatusPending \<and> t_loc (tk_created_at t) = UTC \<and>
       is_ok (ParseResourceID (rs_id (tk_resource t))) \<and>
       '''' \<notin> {rs_name (tk_resource t), rs_kind (tk_resource t), rs_connector (tk_resource t), rs_revision (tk_resource t)} \<and>
       canonical (tk_input t) \<and> canonical (tk_configuration t) \<and> canonical (tk_policy t)"
proof -
  have ok: "tk_id t = i \<and> tk_status t = TaskStatusPending \<and> t_loc (tk_created_at t) = UTC \<and>
       is_ok (ParseResourceID (rs_id (tk_resource t))) \<and>
       '''' \<notin> {rs_name (tk_resource t), rs_kind (tk_resource t), rs_connector (tk_resource t), rs_revision (tk_resource t)} \<and>
       canonical (tk_input t) \<and> canonical (tk_configuration t) \<and> canonical (tk_policy t)"
    if "decode_task_row i row = Inr t" for row t
    using that unfolding decode_task_row_def
    by (elim rbind_InrE)
      (auto simp: fail_if_eq_Inr map_err_eq_Inr dest: ParseSnapshot_canonical parseStoredTime_UTC split: option.splits)
  have bad: "\<exists>c. e = unavailable c" if "decode_task_row i row = Inl e" for row e
    using that unfolding decode_task_row_def
    by (auto simp: rbind_eq_Inl fail_if_eq_Inl map_err_eq_Inl split: option.splits)
  show ?thesis
    unfolding sqlite_Task_def by (auto split: sum.split dest: ok bad)
qed

section \<open>The contract\<close>

lemma sqlite_create_writable:
  "sqlite_CreateTask (Some Writable) (\<lambda>_. None) d db = apfst Some (sqlite_create d db)"
  using sqlite_CreateTask_returns [of "Some Writable" "\<lambda>_. None" d db]
  by (cases "sqlite_CreateTask (Some Writable) (\<lambda>_. None) d db") (auto simp: sqlite_create_def)

text \<open>
  C5.  With a driver that does not fail, the SQLite store implements the contract of a task store:
  it refuses a submission exactly when the abstract store does or the new resource's candidate
  identifier is taken, otherwise it returns the abstract store's task and moves to tables that
  represent the abstract result; the invariant of the tables is kept.
\<close>

theorem sqlite_refines_contract:
  assumes "sqlite_inv db" and "sqlite_repr d"
  shows "case sqlite_CreateTask (Some Writable) (\<lambda>_. None) d db of
      (None, db') \<Rightarrow> False
    | (Some (Inl e), db') \<Rightarrow> (spec_create d (sqlite_abs db) = None \<or> id_clash d (sqlite_abs db)) \<and> db' = db
    | (Some (Inr t), db') \<Rightarrow> sqlite_inv db' \<and> spec_create d (sqlite_abs db) = Some (t, sqlite_abs db')"
proof -
  obtain r db' where c: "sqlite_create d db = (r, db')" by fastforce
  show ?thesis
  proof (cases r)
    case (Inl e)
    then show ?thesis
      using sqlite.create_Inl [OF assms c [unfolded Inl]] sqlite_create_cases [OF assms] c
      by (auto simp: sqlite_create_writable split: if_splits)
  next
    case (Inr t)
    then show ?thesis
      using sqlite.create_Inr [OF assms c [unfolded Inr]] sqlite.create_inv [OF assms] c
      by (simp add: sqlite_create_writable)
  qed
qed

lemma sqlite_repr_built:
  assumes "build_draft newID now rn cn input operator material = Inr d"
    and "utf8_valid rn" "length rn \<le> 512 * 1024" "utf8_valid cn" "length cn \<le> 512 * 1024"
    and "utf8_valid (rm_revision material)" "length (rm_revision material) \<le> 512 * 1024"
    and "storable (time_UTC now)"
  shows "sqlite_repr d"
proof -
  have kind: "utf8_valid ResourceKindRepository" "length ResourceKindRepository \<le> 512 * 1024"
    by (simp_all add: ResourceKindRepository_def byte_def)
  from assms(1) obtain c r i p where
    "d = make_draft (newID ''task_'') (newID ''resource_'') rn cn material c r i p (time_UTC now)"
    by (rule build_draft_facts)
  then show ?thesis
    using assms(2-) kind by (simp add: sqlite_repr_def make_draft_def time_UTC_def)
qed

lemma storable_sample: "storable (time_UTC sample_time)"
  by (simp add: storable_def time_wf_def time_UTC_def sample_time_def min_days_def max_days_def days_before_year_def)

lemma sample_draft_sqlite: "sqlite_repr sample_draft"
  by (rule sqlite_repr_built [OF sample_built])
    (simp_all add: byte_def storable_sample sample_material_def sample_commit_def)

lemma sqlite_refines_contract_witness:
  "case sqlite_CreateTask (Some Writable) (\<lambda>_. None) sample_draft empty_database of
      (None, db') \<Rightarrow> False
    | (Some (Inl e), db') \<Rightarrow> (spec_create sample_draft (sqlite_abs empty_database) = None \<or>
          id_clash sample_draft (sqlite_abs empty_database)) \<and> db' = empty_database
    | (Some (Inr t), db') \<Rightarrow> sqlite_inv db' \<and>
        spec_create sample_draft (sqlite_abs empty_database) = Some (t, sqlite_abs db')"
  by (rule sqlite_refines_contract [OF sqlite_inv_empty sample_draft_sqlite])

text \<open>
  A task submitted through the service over the SQLite store survives the round trip through
  the tables: after any further submissions it is shown exactly as it was returned, to the
  nanosecond and the byte, when the names and the revision are valid UTF-8 of at most 512 KiB and
  the clock shows a year from 0 to 9999.
\<close>

lemma sqlite_submit_then_show:
  assumes "sqlite_inv db" and "list_all sqlite_repr ds"
    and "SubmitManualRepository (Some sqlite_create) newID now ctx rn cn input operator (Some (Inr material)) db = (Inr t, db')"
    and "list_all (\<lambda>s. utf8_valid s \<and> length s \<le> 512 * 1024) [rn, cn, rm_revision material]"
    and "storable (time_UTC now)"
  shows "Show (Some sqlite_lookup) None (tk_id t) (snd (run_store sqlite_create ds db')) = Inr t \<and>
    tk_created_at t = time_UTC now \<and> stored_faithfully input operator material t"
proof -
  have repr: "sqlite_repr d"
    if "Some (Inr material) = Some (Inr m)" "build_draft newID now rn cn input operator m = Inr d"
    for m :: RepositoryMaterial and d
    using that sqlite_repr_built [of newID now rn cn input operator material d] assms(4,5) by simp
  have "Show (Some sqlite_lookup) None (tk_id t) (snd (run_store sqlite_create ds db')) = Inr t"
    by (rule sqlite.submit_then_show [OF assms(1) _ assms(3)])
      (use assms(2) in \<open>auto simp: contextError_def list_all_iff intro: repr\<close>)
  moreover have "\<exists>m. (Some (Inr material) :: (gerr + RepositoryMaterial) option) = Some (Inr m) \<and> stored_faithfully input operator m t \<and>
      tk_id t = newID ''task_'' \<and> tk_status t = TaskStatusPending \<and> tk_created_at t = time_UTC now"
    by (rule sqlite.submitted_task(1) [OF assms(1) _ assms(3)]) (rule repr)
  ultimately show ?thesis by auto
qed

lemma sample_sqlite_created:
  "sqlite_create sample_draft empty_database =
     (Inr (task_of sample_draft (bound_id sample_draft (sqlite_abs empty_database))), sqlite_created sample_draft empty_database)"
  using sqlite_create_cases [OF sqlite_inv_empty sample_draft_sqlite] sample_draft_valid
  by (auto simp: spec_create_def Let_def binding_conflict_def id_clash_def sqlite_abs_def empty_database_def
      split: if_splits)

lemma sqlite_submit_then_show_witness:
  "Show (Some sqlite_lookup) None ''task_ABCDEFGHIJKLMNOPQRSTUVWXYZ''
     (snd (run_store sqlite_create [sample_draft] (sqlite_created sample_draft empty_database))) =
   Inr (task_of sample_draft (bound_id sample_draft (sqlite_abs empty_database)))"
proof -
  have "SubmitManualRepository (Some sqlite_create) sample_newID sample_time None ''core'' ''github'' sample_input
     sample_operator (Some (Inr sample_material)) empty_database =
   (Inr (task_of sample_draft (bound_id sample_draft (sqlite_abs empty_database))), sqlite_created sample_draft empty_database)"
    by (simp add: SubmitManualRepository_def contextError_def sample_built sample_sqlite_created)
  from sqlite_submit_then_show [OF sqlite_inv_empty _ this _ storable_sample, of "[sample_draft]"]
  show ?thesis
    using sample_draft_sqlite task_of_faithful(4) [OF sample_built]
    by (simp add: sample_newID_def NewID_def sample_material_def sample_commit_def byte_def)
qed

end
