(* ===== verification/Store_Conformance.thy ===== *)
theory Store_Conformance
  imports Memory_Store Sqlite_Properties
begin

text \<open>
  \<open>internal/storetest/task_store.go\<close>: the tests every store implementation runs, as predicates of a store's
  operations and a fresh store.  They follow from the contract of a store and the texts of its two errors, which the
  locale \<open>conforming_store\<close> states; both stores meet it, so both pass.
\<close>

section \<open>The tests\<close>

text \<open>\<open>err.Error()\<close> of an error of a store; \<open>None\<close> for any other error.\<close>

definition store_error_text :: "gerr \<Rightarrow> string option" where
  "store_error_text e =
     (case e of MemoryError r c \<Rightarrow> Some (Memory_Error r) | SqliteError r c \<Rightarrow> Some (Sqlite_Error r) | _ \<Rightarrow> None)"

text \<open>\<open>s, _ := domain.NewSnapshot(value)\<close>: the zero snapshot on an error.\<close>

definition snapshot_of :: "json \<Rightarrow> snapshot" where
  "snapshot_of v = (case NewSnapshot v of Inr s \<Rightarrow> s | Inl e \<Rightarrow> [])"

definition test_policy :: PolicyRequest where
  "test_policy = \<lparr>pr_actions = Some [], pr_protected_paths = Some []\<rparr>"

definition test_configuration :: RepositoryConfiguration where
  "test_configuration =
     \<lparr>rc_version = 1, rc_agent = \<lparr>ac_instructions = Some [''AGENTS.md'']\<rparr>, rc_policy = test_policy,
      rc_validation = \<lparr>vd_required = Some []\<rparr>\<rparr>"

definition test_input :: TaskInput where
  "test_input = \<lparr>ti_version = 1, ti_source = TaskSourceManual, ti_instructions = ''repair README''\<rparr>"

definition test_effective :: EffectivePolicy where
  "test_effective =
     \<lparr>ep_version = 1, ep_default_action = PolicyDeny, ep_actions = Some [], ep_protected_paths = Some []\<rparr>"

definition test_created_at :: gotime where
  "test_created_at = make_time 2026 9 1 12 0 0 0"

definition testDraft :: "string \<Rightarrow> string \<Rightarrow> string \<Rightarrow> TaskDraft" where
  "testDraft taskID resourceID revision =
     (let configuration = snapshot_of (json_RepositoryConfiguration test_configuration) in
      \<lparr>td_id = taskID, td_status = TaskStatusPending,
       td_resource =
         \<lparr>rd_candidate_id = resourceID, rd_name = ''api-service'', rd_kind = ResourceKindRepository,
          rd_connector = ''github-main'', rd_external_ref = ''acme/api'', rd_external_identity = ''123'',
          rd_revision = revision, rd_configuration = configuration,
          rd_requested_policy = snapshot_of (json_PolicyRequest test_policy)\<rparr>,
       td_input = snapshot_of (json_TaskInput test_input), td_configuration = configuration,
       td_policy = snapshot_of (json_EffectivePolicy test_effective), td_created_at = test_created_at,
       td_initial_history =
         \<lparr>he_sequence = 1, he_status = TaskStatusPending, he_occurred_at = test_created_at,
          he_reason = HistoryReasonManualSubmission\<rparr>\<rparr>)"

definition test_id :: "string \<Rightarrow> char \<Rightarrow> string" where
  "test_id pre c = pre @ replicate 26 c"

abbreviation first_draft :: TaskDraft where
  "first_draft \<equiv> testDraft (test_id ''task_'' (CHR ''A'')) (test_id ''resource_'' (CHR ''B'')) ''revision-v1''"

type_synonym 's creator = "TaskDraft \<Rightarrow> 's \<Rightarrow> (gerr + Task) \<times> 's"
type_synonym 's reader = "task_id \<Rightarrow> 's \<Rightarrow> gerr + Task"

definition round_trip_test :: "'s creator \<Rightarrow> 's reader \<Rightarrow> 's \<Rightarrow> bool" where
  "round_trip_test create lookup fresh =
     (let draft = first_draft in
      case create draft fresh of (Inl e, s) \<Rightarrow> False
      | (Inr created, s) \<Rightarrow>
        (case lookup (td_id draft) s of Inl e \<Rightarrow> False
         | Inr got \<Rightarrow> got = created \<and>
             Snapshot_Bytes (tk_configuration got) = Snapshot_Bytes (td_configuration draft) \<and>
             Snapshot_Bytes (tk_input got) = Snapshot_Bytes (td_input draft) \<and>
             Snapshot_Bytes (tk_policy got) = Snapshot_Bytes (td_policy draft)))"

definition missing_task_test :: "'s reader \<Rightarrow> 's \<Rightarrow> bool" where
  "missing_task_test lookup fresh =
     (case lookup (test_id ''task_'' (CHR ''Z'')) fresh of
        Inr t \<Rightarrow> False | Inl e \<Rightarrow> store_error_text e = Some ''task not found'')"

definition duplicate_test :: "'s creator \<Rightarrow> 's reader \<Rightarrow> 's \<Rightarrow> bool" where
  "duplicate_test create lookup fresh =
     (let first = first_draft in
      case create first fresh of (Inl e, s) \<Rightarrow> False
      | (Inr t, s) \<Rightarrow>
        let duplicate = testDraft (td_id first) (rd_candidate_id (td_resource first)) ''revision-v2'' in
        (case create duplicate s of (Inr t, s') \<Rightarrow> False
         | (Inl e, s') \<Rightarrow>
           (case lookup (td_id first) s' of Inl e \<Rightarrow> False
            | Inr got \<Rightarrow> rs_revision (tk_resource got) = ''revision-v1'')))"

definition second_draft :: TaskDraft where
  "second_draft =
     (let d = testDraft (test_id ''task_'' (CHR ''C'')) (test_id ''resource_'' (CHR ''D'')) ''revision-v2''
      in d\<lparr>td_resource := (td_resource d)\<lparr>rd_name := ''other-service''\<rparr>\<rparr>)"

definition identity_conflict_test :: "'s creator \<Rightarrow> 's reader \<Rightarrow> 's \<Rightarrow> bool" where
  "identity_conflict_test create lookup fresh =
     (case create first_draft fresh of (Inl e, s) \<Rightarrow> False
      | (Inr t, s) \<Rightarrow>
        (case create second_draft s of (Inr t, s') \<Rightarrow> False
         | (Inl e, s') \<Rightarrow>
           store_error_text e = Some ''resource conflicts with stored onboarding'' \<and>
           (case lookup (td_id second_draft) s' of Inr t \<Rightarrow> False
            | Inl e \<Rightarrow> store_error_text e = Some ''task not found'')))"

definition RunTaskStoreContract :: "'s creator \<Rightarrow> 's reader \<Rightarrow> 's \<Rightarrow> bool" where
  "RunTaskStoreContract create lookup fresh \<longleftrightarrow>
     round_trip_test create lookup fresh \<and> missing_task_test lookup fresh \<and>
     duplicate_test create lookup fresh \<and> identity_conflict_test create lookup fresh"

section \<open>The drafts\<close>

lemma test_snapshots:
  "is_ok (NewSnapshot (json_RepositoryConfiguration test_configuration))"
  "is_ok (NewSnapshot (json_PolicyRequest test_policy))"
  "is_ok (NewSnapshot (json_TaskInput test_input))"
  "is_ok (NewSnapshot (json_EffectivePolicy test_effective))"
  by (simp_all add: json_eval test_configuration_def test_policy_def test_input_def test_effective_def
      TaskSourceManual_def PolicyDeny_def)

lemma snapshot_of_canonical: "is_ok (NewSnapshot v) \<Longrightarrow> canonical (snapshot_of v)"
  by (auto simp: is_ok_iff snapshot_of_def intro: NewSnapshot_canonical)

lemmas test_canonical = test_snapshots [THEN snapshot_of_canonical]

lemma test_ids:
  "c \<in> set ''ABCDZ'' \<Longrightarrow> is_ok (ParseTaskID (test_id ''task_'' c))"
  "c \<in> set ''ABCDZ'' \<Longrightarrow> is_ok (ParseResourceID (test_id ''resource_'' c))"
  by (auto simp: is_ok_iff result_simps test_id_def id_body_def base32_def byte_def)

lemma test_time: "storable test_created_at" "t_loc test_created_at = UTC" "t_mono test_created_at = None"
    "\<not> time_IsZero test_created_at"
  by (simp_all add: test_created_at_def make_time_def storable_def time_wf_def time_IsZero_def min_days_def max_days_def
      days_of_date_def days_before_year_def month_lens_def leap_def)

lemma testDraft_valid:
  assumes "is_ok (ParseTaskID i)" and "is_ok (ParseResourceID r)" and "revision \<noteq> ''''"
  shows "draft_valid (testDraft i r revision)"
  using assms test_canonical test_time(2,4)
  by (simp add: draft_valid_def testDraft_def Let_def ResourceKindRepository_def canonical_iff)

lemma test_drafts_valid:
  "draft_valid first_draft" "draft_valid second_draft"
proof -
  show "draft_valid first_draft" by (rule testDraft_valid) (simp_all add: test_ids)
  have "draft_valid (testDraft (test_id ''task_'' (CHR ''C'')) (test_id ''resource_'' (CHR ''D'')) ''revision-v2'')"
    by (rule testDraft_valid) (simp_all add: test_ids)
  then show "draft_valid second_draft" by (simp add: second_draft_def Let_def draft_valid_def)
qed

lemma testDraft_fields:
  "td_id (testDraft i r v) = i"
  "rd_candidate_id (td_resource (testDraft i r v)) = r"
  "rd_revision (td_resource (testDraft i r v)) = v"
  "rd_name (td_resource (testDraft i r v)) = ''api-service''"
  "rd_connector (td_resource (testDraft i r v)) = ''github-main''"
  "rd_external_identity (td_resource (testDraft i r v)) = ''123''"
  by (simp_all add: testDraft_def Let_def)

lemma testDraft_parsed:
  "parsed (td_configuration (testDraft i r v)) = td_configuration (testDraft i r v)"
  "parsed (td_input (testDraft i r v)) = td_input (testDraft i r v)"
  "parsed (td_policy (testDraft i r v)) = td_policy (testDraft i r v)"
  using test_canonical by (simp_all add: testDraft_def Let_def parsed_id)

lemma spec_create_binding:
  "spec_create d st = Some (t, st') \<Longrightarrow> sp_bind st' = (sp_bind st)(rd_name (td_resource d) \<mapsto>
     \<lparr>bd_id = bound_id d st, bd_connector = rd_connector (td_resource d), bd_identity = rd_external_identity (td_resource d)\<rparr>)"
  by (auto simp: spec_create_def Let_def split: if_splits)

text \<open>What the first draft becomes in an empty store.\<close>

lemma first_fields:
  assumes "spec_create first_draft spec_empty = Some (t, st)"
  shows "tk_configuration t = td_configuration first_draft" and "tk_input t = td_input first_draft"
    and "tk_policy t = td_policy first_draft" and "rs_revision (tk_resource t) = ''revision-v1''"
    and "sp_tasks st = [td_id first_draft \<mapsto> t]"
    and "sp_bind st = [''api-service'' \<mapsto> \<lparr>bd_id = rd_candidate_id (td_resource first_draft),
      bd_connector = ''github-main'', bd_identity = ''123''\<rparr>]"
proof -
  note f = spec_create_fields [OF assms]
  show "tk_configuration t = td_configuration first_draft" "tk_input t = td_input first_draft"
    "tk_policy t = td_policy first_draft" "rs_revision (tk_resource t) = ''revision-v1''"
    unfolding f(3) task_of_def by (simp_all add: testDraft_fields testDraft_parsed)
  show "sp_tasks st = [td_id first_draft \<mapsto> t]" using f(4) by (simp add: spec_empty_def)
  show "sp_bind st = [''api-service'' \<mapsto> \<lparr>bd_id = rd_candidate_id (td_resource first_draft),
      bd_connector = ''github-main'', bd_identity = ''123''\<rparr>]"
    unfolding spec_create_binding [OF assms] by (simp add: spec_empty_def bound_id_def testDraft_fields)
qed

section \<open>Stores that pass\<close>

text \<open>A store with a fresh state that names its two errors as the tests expect.\<close>

locale conforming_store = task_store create lookup inv abs repr
  for create :: "'s creator"
    and lookup :: "'s reader"
    and inv :: "'s \<Rightarrow> bool"
    and abs :: "'s \<Rightarrow> spec_store"
    and repr :: "TaskDraft \<Rightarrow> bool" +
  fixes fresh :: 's
  assumes fresh_inv: "inv fresh"
    and fresh_empty: "abs fresh = spec_empty"
    and missing_text: "inv s \<Longrightarrow> lookup i s = Inl e \<Longrightarrow> store_error_text e = Some ''task not found''"
    and conflict_text: "inv s \<Longrightarrow> repr d \<Longrightarrow> draft_valid d \<Longrightarrow> sp_tasks (abs s) (td_id d) = None \<Longrightarrow>
      binding_conflict d (abs s) \<Longrightarrow> create d s = (Inl e, s') \<Longrightarrow>
      store_error_text e = Some ''resource conflicts with stored onboarding''"
begin

lemma missing_passes: "missing_task_test lookup fresh"
proof -
  have "lookup i fresh \<noteq> Inr t" for i t
    using lookup_iff [OF fresh_inv] by (simp add: fresh_empty spec_empty_def)
  then show ?thesis using missing_text [OF fresh_inv] by (auto simp: missing_task_test_def split: sum.split)
qed

text \<open>The first draft is accepted by a fresh store and read back.\<close>

lemma first_created:
  assumes "repr first_draft"
  obtains t s where "create first_draft fresh = (Inr t, s)" and "inv s" and "lookup (td_id first_draft) s = Inr t"
    and "spec_create first_draft spec_empty = Some (t, abs s)"
proof -
  obtain r s where c: "create first_draft fresh = (r, s)" by fastforce
  have "spec_create first_draft spec_empty \<noteq> None" "\<not> id_clash first_draft spec_empty"
    using test_drafts_valid(1) by (simp_all add: spec_create_def spec_empty_def binding_conflict_def id_clash_def Let_def)
  then obtain t where r: "r = Inr t"
    using create_Inl [OF fresh_inv assms] c fresh_empty by (cases r) auto
  note c = c [unfolded r]
  have "inv s" using create_inv [OF fresh_inv assms] c by simp
  with that c create_then_lookup [OF fresh_inv assms c] create_Inr [OF fresh_inv assms c] show ?thesis
    by (simp add: fresh_empty)
qed

lemma round_trip_passes:
  assumes "repr first_draft"
  shows "round_trip_test create lookup fresh"
proof -
  obtain t s where s: "create first_draft fresh = (Inr t, s)" "lookup (td_id first_draft) s = Inr t"
    "spec_create first_draft spec_empty = Some (t, abs s)"
    using assms by (rule first_created)
  then show ?thesis using first_fields(1-3) [OF s(3)] by (simp add: round_trip_test_def Let_def)
qed

lemma duplicate_passes:
  assumes "repr first_draft" and "repr (testDraft (td_id first_draft) (rd_candidate_id (td_resource first_draft)) ''revision-v2'')"
  shows "duplicate_test create lookup fresh"
proof -
  let ?d = "testDraft (td_id first_draft) (rd_candidate_id (td_resource first_draft)) ''revision-v2''"
  obtain t s where s: "create first_draft fresh = (Inr t, s)" "inv s" "lookup (td_id first_draft) s = Inr t"
    "spec_create first_draft spec_empty = Some (t, abs s)"
    using assms(1) by (rule first_created)
  note f = first_fields [OF s(4)]
  have "spec_create ?d (abs s) = None" using f(5) by (simp add: spec_create_def testDraft_def Let_def)
  then obtain e s' where c: "create ?d s = (Inl e, s')"
    using create_Inr [OF s(2) assms(2)] by (cases "create ?d s"; cases "fst (create ?d s)") auto
  have "lookup (td_id first_draft) s' = Inr t"
    using refused_changes_nothing [OF s(2) assms(2) c] s(3) by simp
  then show ?thesis using s(1) c f(4) by (simp add: duplicate_test_def Let_def)
qed

lemma conflict_passes:
  assumes "repr first_draft" and "repr second_draft"
  shows "identity_conflict_test create lookup fresh"
proof -
  obtain t s where s: "create first_draft fresh = (Inr t, s)" "inv s" "lookup (td_id first_draft) s = Inr t"
    "spec_create first_draft spec_empty = Some (t, abs s)"
    using assms(1) by (rule first_created)
  note f = first_fields [OF s(4)]
  have other: "td_id second_draft \<noteq> td_id first_draft"
    by (simp add: second_draft_def testDraft_def Let_def test_id_def)
  have conflict: "binding_conflict second_draft (abs s)"
    by (simp add: binding_conflict_def f(6) owns_def second_draft_def testDraft_def Let_def)
  then have none: "spec_create second_draft (abs s) = None" by (simp add: spec_create_def)
  then obtain e s' where c: "create second_draft s = (Inl e, s')"
    using create_Inr [OF s(2) assms(2)] by (cases "create second_draft s"; cases "fst (create second_draft s)") auto
  have free: "sp_tasks (abs s) (td_id second_draft) = None" using other by (simp add: f(5))
  have "inv s'" using create_inv [OF s(2) assms(2)] c by simp
  moreover have "lookup (td_id second_draft) s' \<noteq> Inr u" for u
    using refused_changes_nothing [OF s(2) assms(2) c] lookup_iff [OF s(2)] free by simp
  ultimately show ?thesis
    using s(1) c conflict_text [OF s(2) assms(2) test_drafts_valid(2) free conflict c] missing_text [of s']
    by (auto simp: identity_conflict_test_def split: sum.split)
qed

lemma passes:
  "repr first_draft \<Longrightarrow> repr second_draft \<Longrightarrow>
   repr (testDraft (td_id first_draft) (rd_candidate_id (td_resource first_draft)) ''revision-v2'') \<Longrightarrow>
   RunTaskStoreContract create lookup fresh"
  unfolding RunTaskStoreContract_def
  by (intro conjI round_trip_passes missing_passes duplicate_passes conflict_passes)

end

section \<open>Both stores\<close>

lemma memory_conflict_text:
  assumes "memory_inv s" and "memory_repr d" and "draft_valid d" and "sp_tasks (memory_abs s) (td_id d) = None"
    and "binding_conflict d (memory_abs s)" and "create_checked d s = (Inl e, s')"
  shows "store_error_text e = Some ''resource conflicts with stored onboarding''"
proof -
  obtain u where v: "validateDraft d = Inr u"
    using validateDraft_valid [OF assms(2)] assms(3) by (auto simp: is_ok_iff)
  have "map_of (ms_tasks s) (td_id d) = None" using assms(4) by (simp add: memory_abs_def)
  moreover note memory_conflicts [OF assms(1), of d]
  ultimately have "e = storeError ''resource conflicts with stored onboarding'' ErrResourceConflict"
    using assms(5,6) unfolding create_checked_valid [OF v] create_locked_def Let_def by (auto split: if_splits)
  then show ?thesis by (simp add: store_error_text_def storeError_def Memory_Error_def)
qed

interpretation conforming_memory: conforming_store create_checked memory_lookup memory_inv memory_abs memory_repr memory_New
proof unfold_locales
  show "memory_inv memory_New" by (rule memory_inv_New)
  show "memory_abs memory_New = spec_empty" by (simp add: memory_abs_def memory_New_def spec_empty_def)
  show "store_error_text e = Some ''task not found''" if "memory_inv s" "memory_lookup i s = Inl e" for s i e
    using that(2) unfolding memory_lookup_inv [OF that(1)]
    by (auto simp: store_error_text_def storeError_def Memory_Error_def split: option.splits)
qed (rule memory_conflict_text)

lemma sqlite_missing_text:
  assumes "sqlite_inv db" and "sqlite_lookup i db = Inl e"
  shows "store_error_text e = Some ''task not found''"
proof (cases "List.find (\<lambda>t. tr_id t = i) (db_tasks db)")
  case None
  then have "e = sqlite_storeError ''task not found'' sqlite_ErrTaskNotFound"
    using assms(2) chain.simps [of ErrNoRows]
    by (auto simp: sqlite_lookup_def sqlite_Task_def select_task_def query_row_def errors_is_def split: if_splits)
  then show ?thesis by (simp add: store_error_text_def sqlite_storeError_def Sqlite_Error_def)
next
  case (Some row)
  then have "sp_tasks (sqlite_abs db) i \<noteq> None"
  proof -
    have "distinct (map tr_id (db_tasks db))" using assms(1) by (simp add: sqlite_inv_def tasks_inv_def)
    from find_key [OF this] Some have "row \<in> set (db_tasks db)" by blast
    then have "decoded row \<noteq> None" using assms(1) by (auto simp: sqlite_inv_def tasks_inv_def)
    then show ?thesis using Some by (simp add: sqlite_abs_def)
  qed
  then show ?thesis using sqlite_lookup_refines [OF assms(1), of i] assms(2) by simp
qed

lemma sqlite_conflict_text:
  assumes "sqlite_inv db" and "draft_valid d" and "binding_conflict d (sqlite_abs db)"
    and "sqlite_create d db = (Inl e, db')"
  shows "store_error_text e = Some ''resource conflicts with stored onboarding''"
proof -
  obtain u where v: "validateTaskDraft d = Inr u" using validateTaskDraft_valid [of d] assms(2) by (auto simp: is_ok_iff)
  have "resources_inv (db_resources db)" using assms(1) by (simp add: sqlite_inv_def)
  from bind_resource_conflict [OF this assms(3)]
  have "create_transaction (\<lambda>_. None) d db = Inl conflict"
    by (simp add: create_transaction_def Let_def Snapshot_Bytes_def)
  then have "e = conflict" using assms(4) v by (simp add: sqlite_create_def sqlite_CreateTask_def)
  then show ?thesis by (simp add: store_error_text_def conflict_def sqlite_storeError_def Sqlite_Error_def)
qed

interpretation conforming_sqlite: conforming_store sqlite_create sqlite_lookup sqlite_inv sqlite_abs sqlite_repr empty_database
proof unfold_locales
  show "sqlite_inv empty_database" by (rule sqlite_inv_empty)
  show "sqlite_abs empty_database = spec_empty"
    by (simp add: sqlite_abs_def empty_database_def spec_empty_def)
qed (rule sqlite_missing_text sqlite_conflict_text; assumption)+

lemma test_drafts_representable:
  "memory_repr (testDraft i r v)" "utf8_valid v \<Longrightarrow> length v \<le> 512 * 1024 \<Longrightarrow> sqlite_repr (testDraft i r v)"
  "memory_repr second_draft" "sqlite_repr second_draft"
  using test_time
  by (auto simp: memory_repr_def sqlite_repr_def testDraft_def second_draft_def Let_def ResourceKindRepository_def byte_def)

text \<open>
  C4.  Both stores pass the conformance tests that the repository runs on every store implementation, each on a
  fresh store: a created task is read back equal with its snapshots intact, a missing task is reported as such,
  a duplicate leaves the original alone, and a repository under a second name is refused and not stored.
\<close>

theorem stores_pass_contract:
  "RunTaskStoreContract create_checked memory_lookup memory_New \<and>
   RunTaskStoreContract sqlite_create sqlite_lookup empty_database"
  using conforming_memory.passes conforming_sqlite.passes test_drafts_representable
  by (simp_all add: byte_def)

end
