(* ===== verification/Go_Duration.thy ===== *)
theory Go_Duration
  imports Go_Numbers
begin

text \<open>
  \<open>time.Duration\<close>: \<open>ParseDuration\<close> and \<open>Duration.String\<close> of Go's \<open>time\<close> package, which read the
  timeouts of repository validation commands and of the command line and write the normal form that is
  stored.  Durations are nanoseconds; the unsigned 64-bit accumulators of the Go code are naturals with
  the wrap-around written out where it can happen.  Fractions go through \<open>float64\<close> as in the Go code.
  \<open>ParseDuration_String\<close> is the round trip.
\<close>

section \<open>float64\<close>

text \<open>
  A nonnegative \<open>float64\<close> is a fraction \<open>(p, q)\<close>; \<open>float64 (p, q)\<close> is \<open>p / q\<close> rounded to 53 significant
  bits, ties to even.  The exponents that occur are far from the limits of the format, except where
  the result is truncated to zero anyway.
\<close>

type_synonym float = "nat \<times> nat"

fun bits :: "nat \<Rightarrow> nat" where
  "bits n = (if n = 0 then 0 else Suc (bits (n div 2)))"

declare bits.simps [simp del]

definition div_even :: "nat \<Rightarrow> nat \<Rightarrow> nat" where
  "div_even p q =
     (let n = p div q; r = 2 * (p mod q)
      in if r < q then n else if q < r then n + 1 else if even n then n else n + 1)"

definition scaled :: "nat \<Rightarrow> nat \<Rightarrow> int \<Rightarrow> nat \<times> nat" where
  "scaled p q e = (if 0 \<le> e then (p, q * 2 ^ nat e) else (p * 2 ^ nat (- e), q))"

definition float64 :: "nat \<times> nat \<Rightarrow> float" where
  "float64 pq =
     (case pq of (p, q) \<Rightarrow>
      if p = 0 then (0, 1)
      else
        (let e0 = int (bits p) - int (bits q) - 53;
             e = (case scaled p q e0 of (a, b) \<Rightarrow> if 2 ^ 53 \<le> a div b then e0 + 1 else e0)
         in case scaled p q e of (a, b) \<Rightarrow>
              (let m = div_even a b in if 0 \<le> e then (m * 2 ^ nat e, 1) else (m, 2 ^ nat (- e)))))"

definition float_of :: "nat \<Rightarrow> float" where "float_of n = float64 (n, 1)"
definition float_mul :: "float \<Rightarrow> float \<Rightarrow> float" where
  "float_mul a b = float64 (fst a * fst b, snd a * snd b)"
definition float_div :: "float \<Rightarrow> float \<Rightarrow> float" where
  "float_div a b = float64 (fst a * snd b, snd a * fst b)"
definition float_trunc :: "float \<Rightarrow> nat" where "float_trunc a = fst a div snd a"

text \<open>Integers below \<open>2^53\<close> are exact.\<close>

definition float_is :: "float \<Rightarrow> nat \<Rightarrow> bool" where
  "float_is a n \<longleftrightarrow> fst a = n * snd a \<and> 0 < snd a"

lemma bits_mono: "m \<le> n \<Longrightarrow> bits m \<le> bits n"
proof (induction n arbitrary: m rule: bits.induct)
  case (1 n)
  show ?case
  proof (cases "m = 0")
    case True
    then show ?thesis by (simp add: bits.simps)
  next
    case False
    then have "bits (m div 2) \<le> bits (n div 2)" using 1 by (intro "1.IH") auto
    then show ?thesis using False 1 by (simp add: bits.simps [of m] bits.simps [of n])
  qed
qed

lemma bits_shift: "0 < q \<Longrightarrow> bits (q * 2 ^ k) = bits q + k"
proof (induction k)
  case (Suc k)
  then have "q * 2 ^ Suc k \<noteq> 0" "q * 2 ^ Suc k div 2 = q * 2 ^ k" by simp_all
  with Suc show ?case by (simp add: bits.simps [of "q * 2 ^ Suc k"] del: power_Suc)
qed simp

lemma div_even_exact: "0 < q \<Longrightarrow> div_even (n * q) q = n"
  by (simp add: div_even_def)

lemma float64_exact:
  assumes "0 < q" and "n < 2 ^ 53"
  shows "float_is (float64 (n * q, q)) n"
proof (cases "n = 0")
  case True
  then show ?thesis by (simp add: float64_def float_is_def)
next
  case False
  define e0 where "e0 = int (bits (n * q)) - int (bits q) - 53"
  have "n * q \<le> q * 2 ^ 53" using assms(2) by (simp add: mult.commute)
  then have "bits (n * q) \<le> bits q + 53" using bits_mono bits_shift [OF assms(1), of 53] by metis
  then have e0: "e0 \<le> 0" by (simp add: e0_def)
  define e where "e = (case scaled (n * q) q e0 of (a, b) \<Rightarrow> if 2 ^ 53 \<le> a div b then e0 + 1 else e0)"
  have e: "e \<le> 0"
  proof (cases "e0 = 0")
    case True
    then show ?thesis using assms by (simp add: e_def scaled_def)
  next
    case False
    then show ?thesis using e0 by (auto simp: e_def split: prod.split)
  qed
  have "scaled (n * q) q e = (n * 2 ^ nat (- e) * q, q)"
    using e by (auto simp: scaled_def algebra_simps)
  moreover have "float64 (n * q, q) = (case scaled (n * q) q e of (a, b) \<Rightarrow>
      (let m = div_even a b in if 0 \<le> e then (m * 2 ^ nat e, 1) else (m, 2 ^ nat (- e))))"
    using False assms(1) by (simp only: float64_def prod.case Let_def e0_def e_def mult_eq_0_iff if_False) simp
  ultimately have "float64 (n * q, q) = (n * 2 ^ nat (- e), 2 ^ nat (- e))"
    using assms(1) e by (simp add: Let_def div_even_exact)
  then show ?thesis by (simp add: float_is_def)
qed

lemma float_of_exact: "n < 2 ^ 53 \<Longrightarrow> float_is (float_of n) n"
  using float64_exact [of 1 n] by (simp add: float_of_def)

lemma float_mul_exact:
  assumes "float_is a x" and "float_is b y" and "x * y < 2 ^ 53"
  shows "float_is (float_mul a b) (x * y)"
proof -
  have "float_mul a b = float64 (x * y * (snd a * snd b), snd a * snd b)"
    using assms by (simp add: float_is_def float_mul_def ac_simps)
  then show ?thesis
    using float64_exact [of "snd a * snd b" "x * y"] assms by (simp only: float_is_def) simp
qed

lemma float_div_exact:
  assumes "float_is a (x * y)" and "float_is b y" and "0 < y" and "x < 2 ^ 53"
  shows "float_is (float_div a b) x"
proof -
  have "float_div a b = float64 (x * (snd a * fst b), snd a * fst b)"
    using assms by (simp add: float_is_def float_div_def ac_simps)
  then show ?thesis
    using float64_exact [of "snd a * fst b" x] assms by (simp only: float_is_def) simp
qed

lemma float_trunc_exact: "float_is a n \<Longrightarrow> float_trunc a = n"
  by (simp add: float_is_def float_trunc_def)

section \<open>Reading\<close>

text \<open>\<open>leadingInt\<close>: digits up to the first other character, none if the number exceeds \<open>2^63\<close>.\<close>

fun leadingInt :: "nat \<Rightarrow> string \<Rightarrow> (nat \<times> string) option" where
  "leadingInt x [] = Some (x, [])"
| "leadingInt x (c # s) =
     (if \<not> is_dec c then Some (x, c # s)
      else if 2 ^ 63 div 10 < x then None
      else (let y = x * 10 + (byte c - 48) in if 2 ^ 63 < y then None else leadingInt y s))"

text \<open>\<open>leadingFraction\<close>: the digits kept, the power of ten they stand over, the rest; digits past the
  range of \<open>int64\<close> are skipped.\<close>

fun leadingFraction :: "nat \<Rightarrow> float \<Rightarrow> bool \<Rightarrow> string \<Rightarrow> nat \<times> float \<times> string" where
  "leadingFraction x scale ov [] = (x, scale, [])"
| "leadingFraction x scale ov (c # s) =
     (if \<not> is_dec c then (x, scale, c # s)
      else if ov then leadingFraction x scale True s
      else if (2 ^ 63 - 1) div 10 < x then leadingFraction x scale True s
      else (let y = x * 10 + (byte c - 48)
            in if 2 ^ 63 < y then leadingFraction x scale True s
               else leadingFraction y (float_mul scale (float_of 10)) False s))"

text \<open>The two bytes of U+00B5 and of U+03BC.\<close>

definition utf8_micro :: string where "utf8_micro = [CHR 0xC2, CHR 0xB5]"
definition utf8_mu :: string where "utf8_mu = [CHR 0xCE, CHR 0xBC]"

definition unit_of :: "string \<Rightarrow> nat option" where
  "unit_of u =
     (if u = ''ns'' then Some 1
      else if u = ''us'' \<or> u = utf8_micro @ ''s'' \<or> u = utf8_mu @ ''s'' then Some 1000
      else if u = ''ms'' then Some 1000000
      else if u = ''s'' then Some 1000000000
      else if u = ''m'' then Some 60000000000
      else if u = ''h'' then Some 3600000000000
      else None)"

definition unit_char :: "char \<Rightarrow> bool" where
  "unit_char c \<longleftrightarrow> c \<noteq> CHR ''.'' \<and> \<not> is_dec c"

text \<open>A number: its integer part, the digits and the scale of its fraction, and the rest.\<close>

definition duration_number :: "string \<Rightarrow> (nat \<times> nat \<times> float \<times> string) option" where
  "duration_number s =
     (case leadingInt 0 s of None \<Rightarrow> None | Some (v, s1) \<Rightarrow>
      (let pre = (length s1 \<noteq> length s);
           dot = (s1 \<noteq> [] \<and> hd s1 = CHR ''.'');
           (f, scale, s2) = (if dot then leadingFraction 0 (float_of 1) False (tl s1) else (0, float_of 1, s1));
           post = (dot \<and> length s2 \<noteq> length (tl s1))
       in if \<not> pre \<and> \<not> post then None else Some (v, f, scale, s2)))"

text \<open>One number with its unit, and the rest.\<close>

definition duration_part :: "string \<Rightarrow> (nat \<times> string) option" where
  "duration_part s =
     (if s = [] \<or> unit_char (hd s) then None
      else case duration_number s of None \<Rightarrow> None | Some (v, f, scale, s2) \<Rightarrow>
        (let u = takeWhile unit_char s2
         in if u = [] then None
            else case unit_of u of None \<Rightarrow> None | Some unit \<Rightarrow>
              if 2 ^ 63 div unit < v then None
              else (let v1 = v * unit;
                        v2 = (if 0 < f then v1 + float_trunc (float_mul (float_of f) (float_div (float_of unit) scale))
                              else v1)
                    in if 0 < f \<and> 2 ^ 63 < v2 then None else Some (v2, dropWhile unit_char s2))))"

lemma leadingInt_length: "leadingInt x s = Some (v, r) \<Longrightarrow> length r \<le> length s"
  by (induction x s rule: leadingInt.induct) (auto simp: Let_def le_SucI split: if_splits)

lemma leadingFraction_length: "leadingFraction x sc ov s = (f, sc', r) \<Longrightarrow> length r \<le> length s"
  by (induction x sc ov s rule: leadingFraction.induct) (auto simp: Let_def le_SucI split: if_splits)

lemma duration_number_length: "duration_number s = Some (v, f, scale, r) \<Longrightarrow> length r \<le> length s"
  by (auto simp: duration_number_def Let_def split: option.splits prod.splits if_splits
      dest!: leadingInt_length leadingFraction_length)

lemma dropWhile_shorter: "takeWhile P s \<noteq> [] \<Longrightarrow> length (dropWhile P s) < length s"
  by (metis append_same_eq dropWhile_eq_Nil_conv length_0_conv length_append length_greater_0_conv
      less_add_same_cancel2 takeWhile_dropWhile_id)

lemma duration_part_length: "duration_part s = Some (v, r) \<Longrightarrow> length r < length s"
  by (auto simp: duration_part_def Let_def split: option.splits prod.splits if_splits
      dest!: duration_number_length dropWhile_shorter)

function duration_parts :: "nat \<Rightarrow> string \<Rightarrow> nat option" where
  "duration_parts d s =
     (if s = [] then Some d
      else case duration_part s of None \<Rightarrow> None | Some (v, r) \<Rightarrow>
        (let d' = (d + v) mod 2 ^ 64 in if 2 ^ 63 < d' then None else duration_parts d' r))"
  by pat_completeness auto
termination by (relation "measure (\<lambda>(d, s). length s)") (auto dest: duration_part_length)

declare duration_parts.simps [simp del]

definition ParseDuration :: "string \<Rightarrow> int option" where
  "ParseDuration text =
     (case signed text of (neg, s) \<Rightarrow>
        if s = ''0'' then Some 0
        else if s = [] then None
        else case duration_parts 0 s of None \<Rightarrow> None | Some d \<Rightarrow>
          if neg then Some (- int d)
          else if 2 ^ 63 - 1 < d then None else Some (int d))"

section \<open>Writing\<close>

text \<open>\<open>fmtFrac\<close>: \<open>n / 10^k\<close> as a fraction without trailing zeros.\<close>

definition fmtFrac :: "nat \<Rightarrow> nat \<Rightarrow> string" where
  "fmtFrac k n = (let ds = trim_zeros (digits_msb k n) in if ds = [] then [] else CHR ''.'' # ds)"

definition Duration_String :: "int \<Rightarrow> string" where
  "Duration_String d =
     (let u = nat \<bar>d\<bar>;
          text =
            (if u < 1000000000 then
               (if u = 0 then ''0s''
                else if u < 1000 then dec_nat u @ ''ns''
                else if u < 1000000 then dec_nat (u div 1000) @ fmtFrac 3 (u mod 1000) @ utf8_micro @ ''s''
                else dec_nat (u div 1000000) @ fmtFrac 6 (u mod 1000000) @ ''ms'')
             else
               (let secs = u div 1000000000; mins = secs div 60; hours = mins div 60
                in (if hours > 0 then dec_nat hours @ ''h'' else []) @
                   (if mins > 0 then dec_nat (mins mod 60) @ ''m'' else []) @
                   dec_nat (secs mod 60) @ fmtFrac 9 (u mod 1000000000) @ ''s''))
      in if d < 0 then CHR ''-'' # text else text)"

section \<open>Reading what is written\<close>

lemma digits_val_ge: "a \<le> digits_val a ds"
  using digits_val_linear [of a ds] by (simp add: trans_le_add1)

definition no_digit :: "string \<Rightarrow> bool" where
  "no_digit r \<longleftrightarrow> (case r of [] \<Rightarrow> True | c # _ \<Rightarrow> \<not> is_dec c)"

lemma no_digit_dot: "no_digit (CHR ''.'' # r)"
  by (simp add: no_digit_def is_dec_def byte_def)

lemma leadingInt_digits:
  "\<forall>c \<in> set ds. is_dec c \<Longrightarrow> no_digit r \<Longrightarrow> digits_val x ds \<le> 2 ^ 63 \<Longrightarrow>
     leadingInt x (ds @ r) = Some (digits_val x ds, r)"
proof (induction ds arbitrary: x)
  case Nil
  then show ?case by (cases r) (simp_all add: no_digit_def)
next
  case (Cons c ds)
  let ?y = "x * 10 + (byte c - 48)"
  have y: "?y \<le> 2 ^ 63"
    using digits_val_ge [of ?y ds] Cons.prems(3) by (simp add: mult.commute)
  then have "\<not> 2 ^ 63 div 10 < x" by linarith
  with y Cons show ?case by (simp add: mult.commute)
qed

lemma leadingFraction_digits:
  "\<forall>c \<in> set ds. is_dec c \<Longrightarrow> no_digit r \<Longrightarrow> digits_val x ds < 10 ^ 9 \<Longrightarrow> j + length ds \<le> 9 \<Longrightarrow>
   float_is sc (10 ^ j) \<Longrightarrow>
     \<exists>sc'. leadingFraction x sc False (ds @ r) = (digits_val x ds, sc', r) \<and> float_is sc' (10 ^ (j + length ds))"
proof (induction ds arbitrary: x sc j)
  case Nil
  then show ?case by (cases r) (simp_all add: no_digit_def)
next
  case (Cons c ds)
  let ?y = "x * 10 + (byte c - 48)"
  have y: "?y < 10 ^ 9"
    using digits_val_ge [of ?y ds] Cons.prems(3) by (simp add: mult.commute)
  have "(10 :: nat) ^ (j + 1) \<le> 10 ^ 9" using Cons.prems(4) by (intro power_increasing) auto
  then have "float_is (float_mul sc (float_of 10)) (10 ^ j * 10)"
    using Cons.prems(5) by (intro float_mul_exact float_of_exact) simp_all
  then have "float_is (float_mul sc (float_of 10)) (10 ^ Suc j)" by (simp add: mult.commute)
  from Cons.IH [OF _ Cons.prems(2) _ _ this, of ?y] Cons.prems y show ?case
    by (auto simp: mult.commute)
qed

lemma fmtFrac_cases:
  assumes "n < 10 ^ k"
  obtains "n = 0" "fmtFrac k n = []"
  | ds where "fmtFrac k n = CHR ''.'' # ds" "ds \<noteq> []" "\<forall>c \<in> set ds. is_dec c" "length ds \<le> k"
      "digits_val 0 ds * 10 ^ (k - length ds) = n" "n \<noteq> 0"
proof -
  obtain j where j: "digits_msb k n = trim_zeros (digits_msb k n) @ replicate j CHR ''0''"
    using trim_zeros_split by blast
  let ?ds = "trim_zeros (digits_msb k n)"
  have len: "length ?ds + j = k" using arg_cong [OF j, of length] by (simp add: digits_msb_dec)
  have val: "digits_val 0 ?ds * 10 ^ j = n"
    using arg_cong [OF j, of "digits_val 0"] assms by (simp add: digits_val_append digits_val_zeros digits_msb_val)
  have dec: "\<forall>c \<in> set ?ds. is_dec c" using digits_msb_dec(2) [of k n] j by (metis UnCI mem_Collect_eq set_append subset_code(1))
  show thesis
  proof (cases "?ds = []")
    case True
    with val have "n = 0" by simp
    with True that(1) show thesis by (simp add: fmtFrac_def)
  next
    case False
    have "n \<noteq> 0"
    proof
      assume "n = 0"
      then have "set (digits_msb k n) \<subseteq> {CHR ''0''}" by (induction k)
        (auto simp: digit_def char_of_eq_iff take_bit_eq_mod)
      then have "trim_zeros (digits_msb k n) = []" by (auto simp: trim_zeros_def)
      with False show False by simp
    qed
    moreover have "k - length ?ds = j" using len by simp
    ultimately show thesis using False that(2) [of ?ds] val dec len by (simp add: fmtFrac_def Let_def)
  qed
qed


text \<open>One number with its unit reads back, without and with a fraction.\<close>

lemma no_digit_unit: "u \<noteq> [] \<Longrightarrow> \<forall>c \<in> set u. unit_char c \<Longrightarrow> no_digit (u @ r)"
  by (cases u) (auto simp: no_digit_def unit_char_def)

lemma unit_split:
  assumes "\<forall>c \<in> set u. unit_char c" and "rest = [] \<or> \<not> unit_char (hd rest)"
  shows "takeWhile unit_char (u @ rest) = u" "dropWhile unit_char (u @ rest) = rest"
  using assms by (cases rest; simp add: takeWhile_append2 dropWhile_append2)+

lemma number_head: "dec_nat n @ r \<noteq> []" "\<not> unit_char (hd (dec_nat n @ r))"
  using dec_nat_head [of n] by (auto simp: unit_char_def)

lemma duration_part_plain:
  assumes u: "u \<noteq> []" "\<forall>c \<in> set u. unit_char c" "unit_of u = Some unit" "0 < unit"
    and rest: "rest = [] \<or> \<not> unit_char (hd rest)" and n: "n * unit \<le> 2 ^ 63"
  shows "duration_part (dec_nat n @ u @ rest) = Some (n * unit, rest)"
proof -
  have "n \<le> n * unit" using u(4) by simp
  then have le: "n \<le> 2 ^ 63" using n by linarith
  have "hd (u @ rest) \<noteq> CHR ''.''" using u by (cases u) (auto simp: unit_char_def)
  then have "duration_number (dec_nat n @ u @ rest) = Some (n, 0, float_of 1, u @ rest)"
    using leadingInt_digits [of "dec_nat n" "u @ rest" 0] no_digit_unit [OF u(1,2)] le
    by (simp add: duration_number_def Let_def dec_nat_is_dec)
  moreover have "n \<le> 2 ^ 63 div unit" using n u(4) by (simp add: less_eq_div_iff_mult_less_eq)
  ultimately show ?thesis
    using u(1,3) number_head [of n "u @ rest"] unit_split [OF u(2) rest]
    by (simp add: duration_part_def Let_def)
qed

lemma duration_part_fraction:
  assumes u: "u \<noteq> []" "\<forall>c \<in> set u. unit_char c" "unit_of u = Some (10 ^ k)" "k \<le> 9"
    and rest: "rest = [] \<or> \<not> unit_char (hd rest)" and f: "f < 10 ^ k" and n: "n * 10 ^ k + f \<le> 2 ^ 63"
  shows "duration_part (dec_nat n @ fmtFrac k f @ u @ rest) = Some (n * 10 ^ k + f, rest)"
proof (rule fmtFrac_cases [OF f])
  assume "f = 0" "fmtFrac k f = []"
  then show ?thesis using duration_part_plain [OF u(1,2,3) _ rest, of n] n by simp
next
  fix ds assume ds: "fmtFrac k f = CHR ''.'' # ds" "ds \<noteq> []" "\<forall>c \<in> set ds. is_dec c" "length ds \<le> k"
    "digits_val 0 ds * 10 ^ (k - length ds) = f" "f \<noteq> 0"
  let ?d = "digits_val 0 ds" and ?l = "length ds"
  have "n * 1 \<le> n * 10 ^ k" by (intro mult_le_mono2) simp
  then have le: "n \<le> 2 ^ 63" "n * 10 ^ k \<le> 2 ^ 63" using n by linarith+
  have pow: "(10 :: nat) ^ k \<le> 10 ^ 9" using u(4) by (intro power_increasing) auto
  have "?d * 1 \<le> ?d * 10 ^ (k - ?l)" by (intro mult_le_mono2) simp
  then have d: "?d < 10 ^ 9" using ds(5) f pow by linarith
  have d0: "0 < ?d" using ds(5,6) by (metis gr0I mult_0)
  have "float_is (float_of 1) (10 ^ 0)" using float_of_exact [of 1] by simp
  then obtain sc where sc: "leadingFraction 0 (float_of 1) False (ds @ u @ rest) = (?d, sc, u @ rest)"
    "float_is sc (10 ^ ?l)"
    using leadingFraction_digits [of ds "u @ rest" 0 0 "float_of 1"] ds(3,4) d u(4) no_digit_unit [OF u(1,2)] by auto
  have num: "duration_number (dec_nat n @ CHR ''.'' # ds @ u @ rest) = Some (n, ?d, sc, u @ rest)"
    using leadingInt_digits [of "dec_nat n" "CHR ''.'' # ds @ u @ rest" 0] le(1) sc(1)
    by (simp add: duration_number_def Let_def dec_nat_is_dec no_digit_dot)
  have "(10 :: nat) ^ (k - ?l) * 10 ^ ?l = 10 ^ k" using ds(4) by (simp flip: power_add)
  moreover have "(10 :: nat) ^ (k - ?l) \<le> 10 ^ 9" using u(4) by (intro power_increasing) auto
  moreover have "float_is (float_of (10 ^ k)) (10 ^ k)" by (rule float_of_exact) (use pow in simp)
  ultimately have "float_is (float_div (float_of (10 ^ k)) sc) (10 ^ (k - ?l))"
    using sc(2) by (intro float_div_exact [of _ _ "10 ^ ?l"]) auto
  then have "float_is (float_mul (float_of ?d) (float_div (float_of (10 ^ k)) sc)) f"
    using float_mul_exact [of "float_of ?d" ?d _ "10 ^ (k - ?l)"] float_of_exact [of ?d] ds(5) d f pow by simp
  then have tr: "float_trunc (float_mul (float_of ?d) (float_div (float_of (10 ^ k)) sc)) = f"
    by (rule float_trunc_exact)
  have "n \<le> 2 ^ 63 div 10 ^ k" using le(2) by (simp add: less_eq_div_iff_mult_less_eq)
  then show ?thesis
    using u(1,3) number_head [of n "CHR ''.'' # ds @ u @ rest"] unit_split [OF u(2) rest] num tr d0 n
    by (simp add: duration_part_def Let_def ds(1))
qed


section \<open>The round trip\<close>

lemma unit_chars:
  "unit_char CHR ''s''" "unit_char CHR ''m''" "unit_char CHR ''h''" "unit_char CHR ''n''"
  "\<forall>c \<in> set utf8_micro. unit_char c"
  by (simp_all add: unit_char_def is_dec_def byte_def utf8_micro_def)

lemma unit_of_units:
  "unit_of ''ns'' = Some 1" "unit_of (utf8_micro @ ''s'') = Some (10 ^ 3)" "unit_of ''ms'' = Some (10 ^ 6)"
  "unit_of ''s'' = Some (10 ^ 9)" "unit_of ''m'' = Some 60000000000" "unit_of ''h'' = Some 3600000000000"
  by (simp_all add: unit_of_def utf8_micro_def utf8_mu_def)

lemmas unit_facts = unit_chars unit_of_units

lemma duration_parts_step:
  assumes "duration_part s = Some (v, r)" and "d + v \<le> 2 ^ 63"
  shows "duration_parts d s = duration_parts (d + v) r"
proof -
  have "s \<noteq> []" using assms(1) by (auto simp: duration_part_def)
  with assms show ?thesis by (subst duration_parts.simps) simp
qed

lemma duration_parts_end [simp]: "duration_parts d [] = Some d"
  by (subst duration_parts.simps) simp

lemma hms:
  fixes u :: nat
  assumes "secs = u div 1000000000" and "mins = secs div 60"
  shows "u = mins div 60 * 3600000000000 + (mins mod 60 * 60000000000 +
    (secs mod 60 * 1000000000 + u mod 1000000000))"
  using div_mult_mod_eq [of u 1000000000] div_mult_mod_eq [of secs 60] div_mult_mod_eq [of mins 60]
  unfolding assms [symmetric] by linarith

text \<open>The text of the magnitude reads back.\<close>

definition duration_text :: "nat \<Rightarrow> string" where
  "duration_text u = Duration_String (int u)"

lemma Duration_String_sign:
  "Duration_String d = (if d < 0 then CHR ''-'' # duration_text (nat \<bar>d\<bar>) else duration_text (nat \<bar>d\<bar>))"
  by (simp add: duration_text_def Duration_String_def Let_def)

lemma duration_text_small:
  assumes "0 < u" and "u < 1000000000"
  shows "duration_parts 0 (duration_text u) = Some u"
proof -
  consider "u < 1000" | "1000 \<le> u" "u < 1000000" | "1000000 \<le> u" by linarith
  then show ?thesis
  proof cases
    case 1
    have "duration_part (dec_nat u @ ''ns'' @ []) = Some (u * 1, [])"
      using 1 by (intro duration_part_plain) (simp_all add: unit_facts)
    then show ?thesis
      using 1 assms duration_parts_step [of "dec_nat u @ ''ns''" u "[]" 0]
      by (simp add: duration_text_def Duration_String_def Let_def)
  next
    case 2
    let ?s = "dec_nat (u div 1000) @ fmtFrac 3 (u mod 1000) @ (utf8_micro @ ''s'') @ []"
    have "duration_part ?s = Some (u div 1000 * 10 ^ 3 + u mod 1000, [])"
      using 2 by (intro duration_part_fraction) (simp_all add: unit_facts)
    then show ?thesis
      using 2 assms duration_parts_step [of ?s u "[]" 0]
      by (simp add: duration_text_def Duration_String_def Let_def)
  next
    case 3
    let ?s = "dec_nat (u div 1000000) @ fmtFrac 6 (u mod 1000000) @ ''ms'' @ []"
    have "duration_part ?s = Some (u div 1000000 * 10 ^ 6 + u mod 1000000, [])"
      using 3 assms by (intro duration_part_fraction) (simp_all add: unit_facts)
    then show ?thesis
      using 3 assms duration_parts_step [of ?s u "[]" 0]
      by (simp add: duration_text_def Duration_String_def Let_def)
  qed
qed

lemma duration_text_large:
  assumes "1000000000 \<le> u" and "u \<le> 2 ^ 63"
  shows "duration_parts 0 (duration_text u) = Some u"
proof -
  define secs where "secs = u div 1000000000"
  define h m s f where "h = secs div 60 div 60" and "m = secs div 60 mod 60" and "s = secs mod 60"
    and "f = u mod 1000000000"
  have u: "u = h * 3600000000000 + (m * 60000000000 + (s * 10 ^ 9 + f))"
    using hms [OF secs_def refl] by (simp add: h_def m_def s_def f_def)
  let ?s = "dec_nat s @ fmtFrac 9 f @ ''s'' @ []"
  let ?m = "dec_nat m @ ''m'' @ ?s"
  let ?h = "dec_nat h @ ''h'' @ ?m"
  have ps: "duration_part ?s = Some (s * 10 ^ 9 + f, [])"
    using u assms by (intro duration_part_fraction) (simp_all add: unit_facts f_def)
  have pm: "duration_part ?m = Some (m * 60000000000, ?s)"
    using u assms number_head by (intro duration_part_plain) (simp_all add: unit_facts)
  have ph: "duration_part ?h = Some (h * 3600000000000, ?m)"
    using u assms number_head by (intro duration_part_plain) (simp_all add: unit_facts)
  have s: "d + (s * 10 ^ 9 + f) \<le> 2 ^ 63 \<Longrightarrow> duration_parts d ?s = Some (d + (s * 10 ^ 9 + f))" for d
    using duration_parts_step [OF ps, of d] by simp
  have m: "d + (m * 60000000000 + (s * 10 ^ 9 + f)) \<le> 2 ^ 63 \<Longrightarrow>
      duration_parts d ?m = Some (d + (m * 60000000000 + (s * 10 ^ 9 + f)))" for d
    using duration_parts_step [OF pm, of d] s [of "d + m * 60000000000"] by (simp add: add.assoc)
  have h: "duration_parts 0 ?h = Some u"
    using duration_parts_step [OF ph, of 0] m [of "h * 3600000000000"] u assms by simp
  have str: "duration_text u = (if h > 0 then dec_nat h @ ''h'' else []) @ (if secs div 60 > 0 then dec_nat m @ ''m'' else []) @ ?s"
    using assms by (simp add: duration_text_def Duration_String_def Let_def h_def m_def s_def f_def secs_def)
  consider "0 < h" | "h = 0" "0 < secs div 60" | "secs div 60 = 0" by auto
  then show ?thesis
  proof cases
    case 1
    then have "0 < secs div 60" by (cases "secs div 60") (simp_all add: h_def)
    with 1 h str show ?thesis by simp
  next
    case 2
    with m [of 0] u assms str show ?thesis by simp
  next
    case 3
    then have "h = 0" "m = 0" by (simp_all add: h_def m_def)
    with 3 s [of 0] u assms str show ?thesis by simp
  qed
qed

lemma duration_text_head: "\<exists>c r. duration_text u = c # r \<and> is_dec c \<and> (u \<noteq> 0 \<longrightarrow> r \<noteq> [])"
proof -
  have P: "\<exists>c r. dec_nat n @ s = c # r \<and> is_dec c \<and> r \<noteq> []" if "s \<noteq> []" for n s
    using dec_nat_head [of n] that by auto
  have "is_dec CHR ''0''" by (simp add: is_dec_def byte_def)
  then show ?thesis
    by (auto simp: duration_text_def Duration_String_def Let_def utf8_micro_def intro!: P)
qed

theorem ParseDuration_String:
  assumes "int64 d"
  shows "ParseDuration (Duration_String d) = Some d"
proof -
  let ?u = "nat \<bar>d\<bar>"
  obtain c r where str: "duration_text ?u = c # r" "is_dec c" "?u \<noteq> 0 \<longrightarrow> r \<noteq> []"
    using duration_text_head by blast
  have signed: "signed (Duration_String d) = (d < 0, duration_text ?u)"
    using str is_dec_head by (auto simp: Duration_String_sign signed_def)
  show ?thesis
  proof (cases "d = 0")
    case True
    have "dec_nat 0 = ''0''"
      by (simp add: dec_nat.simps digit_def char_of_eq_iff take_bit_eq_mod)
    then have "duration_parts 0 ''0s'' = Some 0"
      using duration_parts_step [of "dec_nat 0 @ ''s''" 0 "[]" 0] duration_part_plain [of "''s''" 1000000000 "[]" 0]
      by (simp add: unit_facts)
    then show ?thesis
      using True signed by (simp add: ParseDuration_def duration_text_def Duration_String_def)
  next
    case False
    have le: "?u \<le> 2 ^ 63" "\<not> d < 0 \<longrightarrow> ?u \<le> 2 ^ 63 - 1" using assms by (auto simp: int64_def)
    then have "duration_parts 0 (duration_text ?u) = Some ?u"
      using duration_text_small [of ?u] duration_text_large [of ?u] False by (cases "?u < 1000000000") auto
    then show ?thesis
      using signed str False le by (cases "d < 0") (auto simp: ParseDuration_def)
  qed
qed


lemma duration_parts_bound: "duration_parts d s = Some d' \<Longrightarrow> d \<le> 2 ^ 63 \<Longrightarrow> d' \<le> 2 ^ 63"
proof (induction d s rule: duration_parts.induct)
  case (1 d s)
  show ?case
  proof (cases "s = []")
    case True
    with "1.prems" show ?thesis by simp
  next
    case False
    then obtain v r where p: "duration_part s = Some (v, r)" "\<not> 2 ^ 63 < (d + v) mod 2 ^ 64"
      "duration_parts ((d + v) mod 2 ^ 64) r = Some d'"
      using "1.prems"(1) by (subst (asm) duration_parts.simps) (auto simp: Let_def split: option.splits if_splits)
    then show ?thesis using "1.IH" [OF False p(1) refl refl] by simp
  qed
qed

lemma ParseDuration_int64: "ParseDuration s = Some d \<Longrightarrow> int64 d"
  by (auto simp: ParseDuration_def int64_def split: prod.splits if_splits option.splits dest!: duration_parts_bound)

end
