(* ===== verification/Go_Path.thy ===== *)
theory Go_Path
  imports Prelude
begin

text \<open>
  The functions of Go's \<open>path/filepath\<close> the program calls, on a system with slash-separated paths:
  \<open>Clean\<close>, \<open>Join\<close>, \<open>IsAbs\<close>, \<open>Abs\<close> (the working directory is an argument), \<open>Dir\<close> and \<open>Base\<close>.  A cleaned
  rooted path has no empty, \<open>.\<close> or \<open>..\<close> segments.
\<close>

fun clean_segments :: "bool \<Rightarrow> string list \<Rightarrow> string list \<Rightarrow> string list" where
  "clean_segments rooted out [] = rev out"
| "clean_segments rooted out (seg # segs) =
     (if seg = '''' \<or> seg = ''.'' then clean_segments rooted out segs
      else if seg = ''..'' then
        (if out \<noteq> [] \<and> hd out \<noteq> ''..'' then clean_segments rooted (tl out) segs
         else if \<not> rooted then clean_segments rooted (''..'' # out) segs
         else clean_segments rooted out segs)
      else clean_segments rooted (seg # out) segs)"

definition filepath_IsAbs :: "string \<Rightarrow> bool" where
  "filepath_IsAbs p = prefix ''/'' p"

definition filepath_Clean :: "string \<Rightarrow> string" where
  "filepath_Clean p =
     (if p = [] then ''.''
      else
        (let rooted = filepath_IsAbs p;
             out = (if rooted then ''/'' else []) @ join_with ''/'' (clean_segments rooted [] (split_on CHR ''/'' p))
         in if out = [] then ''.'' else out))"

fun filepath_Join :: "string list \<Rightarrow> string" where
  "filepath_Join [] = []"
| "filepath_Join (e # es) = (if e = [] then filepath_Join es else filepath_Clean (join_with ''/'' (e # es)))"

text \<open>\<open>wd\<close> is the result of \<open>os.Getwd\<close>.\<close>

definition filepath_Abs :: "'e + string \<Rightarrow> string \<Rightarrow> 'e + string" where
  "filepath_Abs wd p =
     (if filepath_IsAbs p then Inr (filepath_Clean p)
      else case wd of Inl e \<Rightarrow> Inl e | Inr d \<Rightarrow> Inr (filepath_Join [d, p]))"

definition upto_last_slash :: "string \<Rightarrow> string" where
  "upto_last_slash p = rev (dropWhile (\<lambda>c. c \<noteq> CHR ''/'') (rev p))"

definition filepath_Dir :: "string \<Rightarrow> string" where
  "filepath_Dir p = filepath_Clean (upto_last_slash p)"

definition filepath_Base :: "string \<Rightarrow> string" where
  "filepath_Base p =
     (if p = [] then ''.''
      else
        (let q = rev (dropWhile (\<lambda>c. c = CHR ''/'') (rev p));
             b = rev (takeWhile (\<lambda>c. c \<noteq> CHR ''/'') (rev q))
         in if b = [] then ''/'' else b))"

definition clean_segment :: "string \<Rightarrow> bool" where
  "clean_segment seg \<longleftrightarrow> seg \<notin> {'''', ''.'', ''..''} \<and> CHR ''/'' \<notin> set seg"

lemma clean_segments_rooted:
  "\<forall>s \<in> set out. clean_segment s \<Longrightarrow> \<forall>s \<in> set segs. CHR ''/'' \<notin> set s \<Longrightarrow>
     \<forall>s \<in> set (clean_segments True out segs). clean_segment s"
proof (induction segs arbitrary: out)
  case (Cons seg segs)
  have segs: "\<forall>s \<in> set segs. CHR ''/'' \<notin> set s" "CHR ''/'' \<notin> set seg" using Cons.prems(2) by simp_all
  have out: "\<forall>s \<in> set (tl out). clean_segment s" using Cons.prems(1) by (cases out) simp_all
  consider "seg = '''' \<or> seg = ''.''" | "seg = ''..''" | "clean_segment seg"
    using segs(2) by (auto simp: clean_segment_def)
  then show ?case
  proof cases
    case 1
    then have "clean_segments True out (seg # segs) = clean_segments True out segs" by simp
    then show ?thesis using Cons.IH [OF Cons.prems(1) segs(1)] by (simp only:)
  next
    case 2
    then have "clean_segments True out (seg # segs) = clean_segments True (tl out) segs \<or>
        clean_segments True out (seg # segs) = clean_segments True out segs" by simp
    then show ?thesis using Cons.IH [OF Cons.prems(1) segs(1)] Cons.IH [OF out segs(1)] by metis
  next
    case 3
    then have "clean_segments True out (seg # segs) = clean_segments True (seg # out) segs"
      by (simp add: clean_segment_def)
    moreover have "\<forall>s \<in> set (seg # out). clean_segment s" using 3 Cons.prems(1) by simp
    ultimately show ?thesis using Cons.IH [OF _ segs(1)] by (simp only:)
  qed
qed simp

lemma clean_segments_fixed:
  "\<forall>s \<in> set segs. clean_segment s \<Longrightarrow> clean_segments True out segs = rev out @ segs"
  by (induction segs arbitrary: out) (auto simp: clean_segment_def)

text \<open>A rooted path cleans to a rooted path of proper segments, and is then clean.\<close>

lemma filepath_Clean_rooted:
  assumes "filepath_IsAbs p"
  obtains segs where "filepath_Clean p = CHR ''/'' # join_with ''/'' segs" "\<forall>s \<in> set segs. clean_segment s"
proof -
  have p: "p \<noteq> []" using assms by (auto simp: filepath_IsAbs_def)
  let ?segs = "clean_segments True [] (split_on CHR ''/'' p)"
  have "\<forall>s \<in> set ?segs. clean_segment s"
    by (rule clean_segments_rooted) (auto dest: split_on_parts)
  moreover have "filepath_Clean p = CHR ''/'' # join_with ''/'' ?segs"
    using assms p by (simp add: filepath_Clean_def)
  ultimately show ?thesis using that by blast
qed

lemma filepath_Clean_abs: "filepath_IsAbs p \<Longrightarrow> filepath_IsAbs (filepath_Clean p)"
  by (erule filepath_Clean_rooted) (simp add: filepath_IsAbs_def)

lemma filepath_Clean_idem:
  assumes "filepath_IsAbs p"
  shows "filepath_Clean (filepath_Clean p) = filepath_Clean p"
proof -
  obtain segs where c: "filepath_Clean p = CHR ''/'' # join_with ''/'' segs" "\<forall>s \<in> set segs. clean_segment s"
    using assms by (rule filepath_Clean_rooted)
  show ?thesis
  proof (cases "segs = []")
    case True
    then show ?thesis unfolding c(1) by (simp add: filepath_Clean_def filepath_IsAbs_def)
  next
    case False
    have "split_on CHR ''/'' (CHR ''/'' # join_with ''/'' segs) = [] # segs"
      using split_join [OF False, of "CHR ''/''"] c(2) by (simp add: clean_segment_def)
    then have "clean_segments True [] (split_on CHR ''/'' (CHR ''/'' # join_with ''/'' segs)) = segs"
      using clean_segments_fixed [OF c(2), of "[]"] by simp
    then show ?thesis unfolding c(1) by (simp add: filepath_Clean_def filepath_IsAbs_def)
  qed
qed

lemma filepath_Join_abs:
  assumes "filepath_IsAbs d"
  shows "filepath_IsAbs (filepath_Join [d, p])"
proof -
  have "d \<noteq> []" "filepath_IsAbs (d @ ''/'' @ p)" using assms by (auto simp: filepath_IsAbs_def)
  then show ?thesis using filepath_Clean_abs [of "d @ ''/'' @ p"] by simp
qed

lemma filepath_Abs_abs:
  assumes "filepath_Abs wd p = Inr q" and "\<And>d. wd = Inr d \<Longrightarrow> filepath_IsAbs d"
  shows "filepath_IsAbs q"
  using assms filepath_Clean_abs filepath_Join_abs
  by (auto simp: filepath_Abs_def simp del: filepath_Join.simps split: if_splits sum.splits)

end
