(* ===== verification/Yaml.thy ===== *)
theory Yaml
  imports Policy Go_Duration Go_Path
begin

text \<open>
  The part of \<open>internal/config/config.go\<close> that works on YAML trees: the node type of
  \<open>go.yaml.in/yaml/v3\<close> as far as the program looks at it, the searches \<open>mappingValue\<close>,
  \<open>mappingCount\<close>, \<open>containsAlias\<close> and \<open>containsEnvironmentInterpolation\<close>, and \<open>Decode\<close> and
  \<open>decodeSingleDocument\<close>.  The YAML library itself is an argument: what the \<open>k\<close>-th \<open>Decode\<close> of a
  decoder returns, \<open>Marshal\<close>, and for every Go type the strict decoding of its first document.
\<close>

section \<open>Nodes\<close>

datatype ykind = DocumentNode | SequenceNode | MappingNode | ScalarNode | AliasNode | ZeroNode

text \<open>Kind, tag, value and content; the library makes no nil children.\<close>

datatype ynode = YNode (y_kind: ykind) (y_tag: string) (y_value: string) (y_content: "ynode list")

definition zero_node :: ynode where "zero_node = YNode ZeroNode '''' '''' []"

definition scalarNode :: "string \<Rightarrow> ynode" where
  "scalarNode value = YNode ScalarNode ''!!str'' value []"

text \<open>The content of a mapping as its pairs; a key without a value is not looked at.\<close>

fun node_pairs :: "ynode list \<Rightarrow> (ynode \<times> ynode) list" where
  "node_pairs (k # v # rest) = (k, v) # node_pairs rest"
| "node_pairs _ = []"

fun find_value :: "string \<Rightarrow> (ynode \<times> ynode) list \<Rightarrow> ynode option" where
  "find_value key [] = None"
| "find_value key ((k, v) # rest) = (if y_value k = key then Some v else find_value key rest)"

definition mappingValue :: "ynode \<Rightarrow> string \<Rightarrow> ynode option" where
  "mappingValue node key =
     (if y_kind node \<noteq> MappingNode then None else find_value key (node_pairs (y_content node)))"

definition mappingCount :: "ynode \<Rightarrow> string \<Rightarrow> nat" where
  "mappingCount node key =
     (if y_kind node \<noteq> MappingNode then 0
      else length (filter (\<lambda>(k, v). y_value k = key) (node_pairs (y_content node))))"

fun containsAlias :: "ynode \<Rightarrow> bool" where
  "containsAlias (YNode k t v cs) = (k = AliasNode \<or> list_ex containsAlias cs)"

text \<open>\<open>\$[A-Za-z_{]\<close>, anywhere in a string.\<close>

definition environmentInterpolationPattern :: rx where
  "environmentInterpolationPattern =
     RSeq (RCls [(CHR ''$'', CHR ''$'')])
          (RCls [(CHR ''A'', CHR ''Z''), (CHR ''a'', CHR ''z''), (CHR ''_'', CHR ''_''), (CHR ''{'', CHR ''{'')])"

definition rx_find :: "rx \<Rightarrow> string \<Rightarrow> bool" where
  "rx_find r s = list_ex (\<lambda>t. list_ex (rx_match r) (prefixes t)) (suffixes s)"

fun containsEnvironmentInterpolation :: "ynode \<Rightarrow> bool" where
  "containsEnvironmentInterpolation (YNode k t v cs) =
     (k = ScalarNode \<and> rx_find environmentInterpolationPattern v \<or> list_ex containsEnvironmentInterpolation cs)"

text \<open>All nodes of a tree.\<close>

fun nodes :: "ynode \<Rightarrow> ynode list" where
  "nodes (YNode k t v cs) = YNode k t v cs # concat (map nodes cs)"

lemma containsAlias_iff: "containsAlias n \<longleftrightarrow> (\<exists>m \<in> set (nodes n). y_kind m = AliasNode)"
  by (induction n) (auto simp: list_ex_iff)

lemma rx_find_iff: "rx_find r s \<longleftrightarrow> (\<exists>u v w. s = u @ v @ w \<and> rx_lang r v)"
proof
  assume "rx_find r s"
  then obtain t v where "suffix t s" "prefix v t" "rx_lang r v" by (auto simp: rx_find_def list_ex_iff rx_match_iff)
  then show "\<exists>u v w. s = u @ v @ w \<and> rx_lang r v" by (metis prefixE suffixE)
next
  assume "\<exists>u v w. s = u @ v @ w \<and> rx_lang r v"
  then obtain u v w where s: "s = u @ v @ w" and v: "rx_lang r v" by blast
  have "v @ w \<in> set (suffixes s)" "v \<in> set (prefixes (v @ w))" using s by (simp_all add: suffix_def)
  with v show "rx_find r s" unfolding rx_find_def list_ex_iff rx_match_iff by blast
qed

definition interpolation :: "string \<Rightarrow> bool" where
  "interpolation s \<longleftrightarrow> (\<exists>u c w. s = u @ CHR ''$'' # c # w \<and>
     (65 \<le> byte c \<and> byte c \<le> 90 \<or> 97 \<le> byte c \<and> byte c \<le> 122 \<or> c = CHR ''_'' \<or> c = CHR ''{''))"

lemma letter_bytes: "byte CHR ''A'' = 65" "byte CHR ''Z'' = 90" "byte CHR ''a'' = 97" "byte CHR ''z'' = 122"
  by (simp_all add: byte_def)

lemma in_class_single: "byte lo \<le> byte c \<and> byte c \<le> byte lo \<longleftrightarrow> c = lo"
  by (metis byte_inject le_antisym order_refl)

lemma environmentInterpolation_iff: "rx_find environmentInterpolationPattern s \<longleftrightarrow> interpolation s"
proof -
  have cls: "rx_lang environmentInterpolationPattern v \<longleftrightarrow> (\<exists>c. v = [CHR ''$'', c] \<and>
     (65 \<le> byte c \<and> byte c \<le> 90 \<or> 97 \<le> byte c \<and> byte c \<le> 122 \<or> c = CHR ''_'' \<or> c = CHR ''{''))" for v
    by (auto simp: environmentInterpolationPattern_def in_class_def in_class_single letter_bytes)
  show ?thesis
    by (auto simp: rx_find_iff cls interpolation_def) (metis append_Cons append_Nil)+
qed

lemma containsEnvironmentInterpolation_iff:
  "containsEnvironmentInterpolation n \<longleftrightarrow> (\<exists>m \<in> set (nodes n). y_kind m = ScalarNode \<and> interpolation (y_value m))"
  by (induction n) (auto simp: list_ex_iff environmentInterpolation_iff)


section \<open>Decoding\<close>

text \<open>
  The library.  \<open>ya_node data k\<close> is what the \<open>k\<close>-th \<open>Decode(&node)\<close> of a decoder over \<open>data\<close> returns
  and \<open>ya_marshal\<close> is \<open>Marshal\<close>; decoding into a Go type with known fields only is passed separately, as
  the function from the bytes to the result of the first \<open>Decode\<close>.
\<close>

datatype 'a decoded = Value 'a | EOF | Failure gerr

record yaml =
  ya_node :: "string \<Rightarrow> nat \<Rightarrow> ynode decoded"
  ya_marshal :: "ynode \<Rightarrow> gerr + string"

definition io_EOF :: gerr where "io_EOF = Sentinel ''io.EOF''"

definition validationError :: "string \<Rightarrow> gerr option \<Rightarrow> gerr" where
  "validationError reason cause = ValidationError reason cause"

definition not_a_mapping :: gerr where "not_a_mapping = ErrNew ''configuration must be a mapping''"

definition Decode :: "yaml \<Rightarrow> (string \<Rightarrow> 'a decoded) \<Rightarrow> ynode \<Rightarrow> gerr + 'a" where
  "Decode y typed node =
     rbind (if y_kind node = DocumentNode
            then (if length (y_content node) \<noteq> 1 then Inl not_a_mapping else Inr (hd (y_content node)))
            else Inr node) (\<lambda>node'.
     rbind (fail_if (y_kind node' \<noteq> MappingNode) not_a_mapping) (\<lambda>_.
     rbind (ya_marshal y node') (\<lambda>data.
     (case typed data of
        Failure e \<Rightarrow> Inl e
      | EOF \<Rightarrow> Inl io_EOF
      | Value dst \<Rightarrow>
          (case ya_node y data 1 of
             EOF \<Rightarrow> Inr dst
           | Value _ \<Rightarrow> Inl (ErrNew ''configuration contains multiple documents'')
           | Failure e \<Rightarrow> Inl e)))))"

definition yaml_invalid :: "gerr option \<Rightarrow> gerr" where
  "yaml_invalid cause = validationError ''configuration YAML is invalid'' cause"

definition decodeSingleDocument :: "yaml \<Rightarrow> string \<Rightarrow> bool \<Rightarrow> gerr + ynode" where
  "decodeSingleDocument y data rejectAliases =
     (case ya_node y data 0 of
        Failure e \<Rightarrow> Inl (yaml_invalid (Some e))
      | EOF \<Rightarrow> Inl (yaml_invalid (Some io_EOF))
      | Value document \<Rightarrow>
          if y_kind document \<noteq> DocumentNode \<or> length (y_content document) \<noteq> 1 then Inl (yaml_invalid None)
          else
            (let root = hd (y_content document) in
             if y_kind root \<noteq> MappingNode then Inl (yaml_invalid None)
             else if rejectAliases \<and> containsAlias root then Inl (yaml_invalid None)
             else (case ya_node y data 1 of
                 Value _ \<Rightarrow> Inl (validationError ''configuration must contain exactly one document'' None)
               | EOF \<Rightarrow> Inr root
               | Failure e \<Rightarrow> Inl (yaml_invalid (Some e)))))"

lemma decodeSingleDocument_Inr:
  "decodeSingleDocument y data rejectAliases = Inr root \<Longrightarrow>
     y_kind root = MappingNode \<and> (rejectAliases \<longrightarrow> \<not> containsAlias root) \<and> ya_node y data 1 = EOF"
  by (auto simp: decodeSingleDocument_def Let_def split: decoded.splits if_splits)

text \<open>The reasons a document can be refused for by the functions above.\<close>

lemma decodeSingleDocument_Inl:
  "decodeSingleDocument y data rejectAliases = Inl e \<Longrightarrow>
     \<exists>c. e = yaml_invalid c \<or> e = validationError ''configuration must contain exactly one document'' c"
  by (auto simp: decodeSingleDocument_def Let_def split: decoded.splits if_splits)

lemma mappingCount_0: "mappingCount node key = 0 \<longleftrightarrow> mappingValue node key = None"
proof -
  have "filter (\<lambda>(k, v). y_value k = key) ps = [] \<longleftrightarrow> find_value key ps = None" for ps :: "(ynode \<times> ynode) list"
    by (induction ps) auto
  then show ?thesis by (simp add: mappingCount_def mappingValue_def)
qed


section \<open>Names\<close>

text \<open>\<open>^[a-z][a-z0-9-]*$\<close>.\<close>

definition name_class :: "(char \<times> char) list" where
  "name_class = [(CHR ''a'', CHR ''z''), (CHR ''0'', CHR ''9''), (CHR ''-'', CHR ''-'')]"

definition instanceNamePattern :: rx where
  "instanceNamePattern = RSeq (RCls [(CHR ''a'', CHR ''z'')]) (RStar (RCls name_class))"

definition validKind :: "string \<Rightarrow> bool" where
  "validKind kind = rx_match instanceNamePattern kind"

definition instance_name :: "string \<Rightarrow> bool" where
  "instance_name s \<longleftrightarrow> (\<exists>c r. s = c # r \<and> 97 \<le> byte c \<and> byte c \<le> 122 \<and>
     (\<forall>d \<in> set r. 97 \<le> byte d \<and> byte d \<le> 122 \<or> 48 \<le> byte d \<and> byte d \<le> 57 \<or> d = CHR ''-''))"

lemma dash_byte: "byte CHR ''-'' = 45"
  by (simp add: byte_def)

lemma name_bytes: "byte CHR ''0'' = 48" "byte CHR ''9'' = 57"
  by (simp_all add: byte_def)

lemma instanceNamePattern_iff: "rx_match instanceNamePattern s \<longleftrightarrow> instance_name s"
proof -
  have c: "in_class name_class d \<longleftrightarrow> 97 \<le> byte d \<and> byte d \<le> 122 \<or> 48 \<le> byte d \<and> byte d \<le> 57 \<or> d = CHR ''-''" for d
    by (simp add: in_class_def name_class_def in_class_single letter_bytes name_bytes)
  have "rx_lang (RStar (RCls name_class)) r \<longleftrightarrow> (\<forall>d \<in> set r. in_class name_class d)" for r
    by (simp only: rx_lang_simps)
  then show ?thesis
    unfolding rx_match_iff instanceNamePattern_def instance_name_def
    by (simp only: rx_lang_class_seq c) (auto simp: in_class_def letter_bytes)
qed

lemma instance_name_ascii: "instance_name s \<Longrightarrow> c \<in> set s \<Longrightarrow> byte c < 128"
  by (fastforce simp: instance_name_def dash_byte)

lemma instance_name_nonempty: "instance_name s \<Longrightarrow> s \<noteq> []"
  by (auto simp: instance_name_def)

end
