(* ===== verification/Repository_Config.thy ===== *)
theory Repository_Config
  imports Yaml
begin

text \<open>
  \<open>internal/config/repository.go\<close>: decoding the configuration a repository owns and normalising it.
  What is accepted, what becomes of the content, the normal form, and that normalising is idempotent
  (\<open>DecodeRepository_normal\<close>): paths are trimmed, the policy is normalised, every validation command is kept and
  every timeout is the text of a positive duration.
\<close>

section \<open>Operations\<close>

definition maxConfigurationSize :: nat where "maxConfigurationSize = 1024 * 1024"

fun normalize_instructions :: "string list \<Rightarrow> string set \<Rightarrow> string list \<Rightarrow> gerr + string list" where
  "normalize_instructions [] seen instructions = Inr instructions"
| "normalize_instructions (raw # raws) seen instructions =
     rbind (NormalizeInstructionPath raw) (\<lambda>instruction.
     if instruction \<in> seen then Inl (ErrNew ''duplicate instruction path'')
     else normalize_instructions raws (insert instruction seen) (instructions @ [instruction]))"

definition normalize_command :: "string set \<Rightarrow> ValidationCommand \<Rightarrow> gerr + ValidationCommand" where
  "normalize_command seen command =
     (let name = trim_space (vc_name command) in
      if \<not> rx_match instanceNamePattern name then Inl (ErrNew ''validation name is invalid'')
      else if name \<in> seen then Inl (ErrNew ''duplicate validation name'')
      else if trim_space (vc_run command) = [] then Inl (ErrNew ''validation command is empty'')
      else if vc_timeout command = [] then Inl (ErrNew ''validation timeout is required'')
      else case ParseDuration (vc_timeout command) of
          None \<Rightarrow> Inl (ErrNew ''validation timeout is invalid'')
        | Some duration \<Rightarrow>
            if duration \<le> 0 then Inl (ErrNew ''validation timeout is invalid'')
            else Inr \<lparr>vc_name = name, vc_run = vc_run command, vc_timeout = Duration_String duration\<rparr>)"

fun normalize_validation ::
  "ValidationCommand list \<Rightarrow> string set \<Rightarrow> ValidationCommand list \<Rightarrow> gerr + ValidationCommand list"
where
  "normalize_validation [] seen validation = Inr validation"
| "normalize_validation (command # commands) seen validation =
     rbind (normalize_command seen command) (\<lambda>c.
     normalize_validation commands (insert (vc_name c) seen) (validation @ [c]))"

text \<open>What follows the decoding.\<close>

definition normalize_repository :: "RepositoryConfiguration \<Rightarrow> gerr + RepositoryConfiguration" where
  "normalize_repository configuration =
     rbind (fail_if (rc_version configuration \<noteq> 1) (ErrNew ''repository configuration version must be 1'')) (\<lambda>_.
     rbind (normalize_instructions (elems (ac_instructions (rc_agent configuration))) {} []) (\<lambda>instructions.
     rbind (NormalizeRequest (rc_policy configuration)) (\<lambda>normalizedPolicy.
     rbind (normalize_validation (elems (vd_required (rc_validation configuration))) {} []) (\<lambda>validation.
     Inr \<lparr>rc_version = rc_version configuration, rc_agent = \<lparr>ac_instructions = Some instructions\<rparr>,
          rc_policy = normalizedPolicy, rc_validation = \<lparr>vd_required = Some validation\<rparr>\<rparr>))))"

definition DecodeRepository ::
  "yaml \<Rightarrow> (string \<Rightarrow> RepositoryConfiguration decoded) \<Rightarrow> string \<Rightarrow> gerr + RepositoryConfiguration"
where
  "DecodeRepository y typed data =
     rbind (fail_if (length data > maxConfigurationSize) (ErrNew ''repository configuration exceeds 1 MiB'')) (\<lambda>_.
     rbind (decodeSingleDocument y data True) (\<lambda>root.
     rbind (Decode y typed root) normalize_repository))"

section \<open>What is accepted\<close>

text \<open>A command that is accepted, apart from the uniqueness of its name, and its normal form.\<close>

definition command_ok :: "ValidationCommand \<Rightarrow> bool" where
  "command_ok c \<longleftrightarrow> instance_name (trim_space (vc_name c)) \<and> trim_space (vc_run c) \<noteq> [] \<and>
     (\<exists>d. ParseDuration (vc_timeout c) = Some d \<and> 0 < d)"

definition command_normal :: "ValidationCommand \<Rightarrow> ValidationCommand" where
  "command_normal c =
     \<lparr>vc_name = trim_space (vc_name c), vc_run = vc_run c,
      vc_timeout = Duration_String (the (ParseDuration (vc_timeout c)))\<rparr>"

lemma ParseDuration_Nil: "ParseDuration [] = None"
  by (simp add: ParseDuration_def signed_def)

lemma normalize_command_Inr:
  "normalize_command seen c = Inr c' \<longleftrightarrow>
     command_ok c \<and> trim_space (vc_name c) \<notin> seen \<and> c' = command_normal c"
  by (auto simp: normalize_command_def Let_def command_ok_def command_normal_def instanceNamePattern_iff
      ParseDuration_Nil split: option.split)

lemma normalize_validation_Inr:
  "normalize_validation cs seen acc = Inr r \<longleftrightarrow>
     (\<forall>c \<in> set cs. command_ok c) \<and> distinct (map (trim_space \<circ> vc_name) cs) \<and>
     (trim_space \<circ> vc_name) ` set cs \<inter> seen = {} \<and> r = acc @ map command_normal cs"
proof (induction cs arbitrary: seen acc)
  case (Cons c cs)
  have "vc_name (command_normal c) = trim_space (vc_name c)" by (simp add: command_normal_def)
  then show ?case by (auto simp: rbind_eq_Inr normalize_command_Inr Cons.IH)
qed auto

lemma normalize_instructions_Inr:
  "normalize_instructions raws seen acc = Inr r \<longleftrightarrow>
     (\<forall>p \<in> set raws. is_ok (NormalizeInstructionPath p)) \<and> distinct (map trim_space raws) \<and>
     set (map trim_space raws) \<inter> seen = {} \<and> r = acc @ map trim_space raws"
proof (induction raws arbitrary: seen acc)
  case (Cons raw raws)
  show ?case
  proof (cases "NormalizeInstructionPath raw")
    case (Inr p)
    then have "p = trim_space raw" by (simp add: NormalizeInstructionPath_ok)
    with Inr Cons.IH show ?thesis by auto
  qed simp
qed auto

definition repository_ok :: "RepositoryConfiguration \<Rightarrow> bool" where
  "repository_ok c \<longleftrightarrow>
     rc_version c = 1 \<and>
     (let ps = elems (ac_instructions (rc_agent c)) in
      (\<forall>p \<in> set ps. is_ok (NormalizeInstructionPath p)) \<and> distinct (map trim_space ps)) \<and>
     is_ok (NormalizeRequest (rc_policy c)) \<and>
     (let cs = elems (vd_required (rc_validation c)) in
      (\<forall>v \<in> set cs. command_ok v) \<and> distinct (map (trim_space \<circ> vc_name) cs))"

lemma normalize_repository_Inr:
  "normalize_repository c = Inr c' \<longleftrightarrow> repository_ok c \<and>
     rc_version c' = 1 \<and> rc_agent c' = \<lparr>ac_instructions = Some (map trim_space (elems (ac_instructions (rc_agent c))))\<rparr> \<and>
     NormalizeRequest (rc_policy c) = Inr (rc_policy c') \<and>
     rc_validation c' = \<lparr>vd_required = Some (map command_normal (elems (vd_required (rc_validation c))))\<rparr>"
  by (cases c')
    (auto simp: normalize_repository_def rbind_eq_Inr fail_if_eq_Inr normalize_instructions_Inr
      normalize_validation_Inr repository_ok_def Let_def is_ok_iff)


section \<open>The normal form\<close>

lemma normalize_actions_inv:
  "normalize_actions m acc = Inr r \<Longrightarrow> keys_distinct acc \<Longrightarrow>
   (\<forall>(n, d) \<in> set acc. action_name n \<and> d \<in> {PolicyAllow, PolicyDeny}) \<Longrightarrow>
     keys_distinct r \<and> (\<forall>(n, d) \<in> set r. action_name n \<and> d \<in> {PolicyAllow, PolicyDeny})"
proof (induction m arbitrary: acc)
  case (Cons p m)
  obtain n d where p: "p = (n, d)" by (cases p)
  then have nd: "action_name n" "d \<in> {PolicyAllow, PolicyDeny}" "normalize_actions m (AList.update n d acc) = Inr r"
    using Cons.prems(1) by (auto simp: action_name_def split: if_splits)
  have "set (AList.update n d acc) \<subseteq> insert (n, d) (set acc)" by (induction acc) auto
  then show ?case
    using Cons.IH [OF nd(3)] Cons.prems(2,3) nd(1,2) keys_distinct_update [of acc n d] by blast
qed simp

lemma NormalizeRequest_idem: "NormalizeRequest r = Inr r' \<Longrightarrow> NormalizeRequest r' = Inr r'"
proof -
  assume "NormalizeRequest r = Inr r'"
  then obtain actions paths where a: "normalize_actions (elems (pr_actions r)) [] = Inr actions"
    and p: "normalize_paths (elems (pr_protected_paths r)) {} [] = Inr paths"
    and r': "r' = \<lparr>pr_actions = Some actions, pr_protected_paths = Some paths\<rparr>"
    by (auto simp: NormalizeRequest_def split: sum.splits)
  have "keys_distinct ([] @ actions)" "\<forall>(n, d) \<in> set actions. action_name n \<and> d \<in> {PolicyAllow, PolicyDeny}"
    using normalize_actions_inv [OF a] by (auto simp: keys_distinct_def)
  then have "normalize_actions actions [] = Inr actions" by (simp add: normalize_actions_ok)
  moreover have "normalize_paths paths {} [] = Inr paths"
    using p by (auto simp: normalize_paths_ok is_ok_iff NormalizeProtectedPath_ok comp_def)
  ultimately show ?thesis by (simp add: NormalizeRequest_def r')
qed

lemma instruction_path_facts:
  "NormalizeInstructionPath raw = Inr v \<Longrightarrow>
     relative_path v \<and> set v \<inter> set ''*?['' = {} \<and> is_ok (NormalizeInstructionPath v)"
proof -
  assume v: "NormalizeInstructionPath raw = Inr v"
  then have "is_ok (NormalizeInstructionPath v)" using NormalizeInstructionPath_fixed [OF v] by simp
  moreover have "relative_path v \<and> set v \<inter> set ''*?['' = {}"
    using v [unfolded NormalizeInstructionPath_ok contains_any_iff] by (elim conjE) (simp add: relative_path_def)
  ultimately show ?thesis by simp
qed

lemma command_normal_ok:
  assumes "command_ok c"
  shows "command_ok (command_normal c)" "command_normal (command_normal c) = command_normal c"
proof -
  obtain d where d: "ParseDuration (vc_timeout c) = Some d" "0 < d" using assms by (auto simp: command_ok_def)
  then have "ParseDuration (Duration_String d) = Some d"
    using ParseDuration_String ParseDuration_int64 by blast
  with assms d show "command_ok (command_normal c)" "command_normal (command_normal c) = command_normal c"
    by (simp_all add: command_ok_def command_normal_def)
qed

text \<open>What the rest of the program may rely on.\<close>

definition repository_normal :: "RepositoryConfiguration \<Rightarrow> bool" where
  "repository_normal c \<longleftrightarrow>
     rc_version c = 1 \<and>
     (\<forall>p \<in> set (elems (ac_instructions (rc_agent c))). relative_path p \<and> set p \<inter> set ''*?['' = {}) \<and>
     distinct (elems (ac_instructions (rc_agent c))) \<and>
     NormalizeRequest (rc_policy c) = Inr (rc_policy c) \<and>
     (\<forall>v \<in> set (elems (vd_required (rc_validation c))). instance_name (vc_name v) \<and> vc_run v \<noteq> [] \<and>
        (\<exists>d. 0 < d \<and> int64 d \<and> vc_timeout v = Duration_String d)) \<and>
     distinct (map vc_name (elems (vd_required (rc_validation c))))"

lemma normalize_repository_idem:
  assumes "normalize_repository c = Inr c'"
  shows "normalize_repository c' = Inr c'" "repository_normal c'"
proof -
  note n = assms [unfolded normalize_repository_Inr]
  let ?ps = "elems (ac_instructions (rc_agent c))" and ?cs = "elems (vd_required (rc_validation c))"
  have ok: "\<forall>p \<in> set ?ps. is_ok (NormalizeInstructionPath p)" "distinct (map trim_space ?ps)"
    "\<forall>v \<in> set ?cs. command_ok v" "distinct (map (trim_space \<circ> vc_name) ?cs)"
    using n by (auto simp: repository_ok_def Let_def)
  have paths: "is_ok (NormalizeInstructionPath (trim_space p))" "relative_path (trim_space p)"
    "set (trim_space p) \<inter> set ''*?['' = {}" if p: "p \<in> set ?ps" for p
  proof -
    obtain v where v: "NormalizeInstructionPath p = Inr v" using ok(1) p by (auto simp: is_ok_iff)
    then have "v = trim_space p" by (simp add: NormalizeInstructionPath_ok)
    with v instruction_path_facts [OF v] show "is_ok (NormalizeInstructionPath (trim_space p))"
      "relative_path (trim_space p)" "set (trim_space p) \<inter> set ''*?['' = {}"
      by simp_all
  qed
  have name: "vc_name (command_normal v) = trim_space (vc_name v)" for v by (simp add: command_normal_def)
  have pol: "NormalizeRequest (rc_policy c') = Inr (rc_policy c')"
    using n NormalizeRequest_idem by blast
  have "repository_ok c'"
    using n ok paths(1) command_normal_ok(1) pol by (auto simp: repository_ok_def Let_def comp_def name)
  then show "normalize_repository c' = Inr c'"
    using n pol ok(3) command_normal_ok(2)
    by (auto simp: normalize_repository_Inr comp_def)
  have "\<exists>d. 0 < d \<and> int64 d \<and> vc_timeout (command_normal v) = Duration_String d" if "command_ok v" for v
    using that ParseDuration_int64 by (auto simp: command_ok_def command_normal_def)
  moreover have "vc_run v \<noteq> []" "instance_name (trim_space (vc_name v))" if "command_ok v" for v
    using that by (auto simp: command_ok_def)
  ultimately show "repository_normal c'"
    using n ok paths pol by (auto simp: repository_normal_def comp_def name command_normal_def)
qed


text \<open>What becomes of a validation command: the same program, under its trimmed name, for the same time.\<close>

definition command_kept :: "ValidationCommand \<Rightarrow> ValidationCommand \<Rightarrow> bool" where
  "command_kept v w \<longleftrightarrow> vc_name w = trim_space (vc_name v) \<and> vc_run w = vc_run v \<and>
     (\<exists>d. 0 < d \<and> ParseDuration (vc_timeout v) = Some d \<and> ParseDuration (vc_timeout w) = Some d \<and>
        vc_timeout w = Duration_String d)"

lemma command_normal_kept:
  assumes "command_ok v"
  shows "command_kept v (command_normal v)"
proof -
  obtain d where d: "ParseDuration (vc_timeout v) = Some d" "0 < d" using assms by (auto simp: command_ok_def)
  then have "ParseDuration (Duration_String d) = Some d"
    using ParseDuration_String ParseDuration_int64 by blast
  with d show ?thesis by (simp add: command_kept_def command_normal_def)
qed

text \<open>What a decoded configuration \<open>c\<close> becomes: nothing is added, left out or reordered.\<close>

definition configuration_kept :: "RepositoryConfiguration \<Rightarrow> RepositoryConfiguration \<Rightarrow> bool" where
  "configuration_kept c c' \<longleftrightarrow>
     elems (ac_instructions (rc_agent c')) = map trim_space (elems (ac_instructions (rc_agent c))) \<and>
     NormalizeRequest (rc_policy c) = Inr (rc_policy c') \<and>
     list_all2 command_kept (elems (vd_required (rc_validation c))) (elems (vd_required (rc_validation c')))"

lemma normalize_repository_kept:
  assumes "normalize_repository c = Inr c'"
  shows "configuration_kept c c'"
proof -
  note n = assms [unfolded normalize_repository_Inr]
  have "\<forall>v \<in> set (elems (vd_required (rc_validation c))). command_ok v"
    using n by (auto simp: repository_ok_def Let_def)
  then have "list_all2 command_kept (elems (vd_required (rc_validation c)))
      (map command_normal (elems (vd_required (rc_validation c))))"
    by (simp add: list_all2_conv_all_nth command_normal_kept)
  then show ?thesis using n by (simp add: configuration_kept_def)
qed

lemma normalize_repository_total:
  assumes "repository_ok c"
  shows "\<exists>c'. normalize_repository c = Inr c'"
proof -
  obtain p where "NormalizeRequest (rc_policy c) = Inr p"
    using assms by (auto simp: repository_ok_def is_ok_iff)
  then show ?thesis
    using assms by (intro exI [of _ "\<lparr>rc_version = 1,
        rc_agent = \<lparr>ac_instructions = Some (map trim_space (elems (ac_instructions (rc_agent c))))\<rparr>, rc_policy = p,
        rc_validation = \<lparr>vd_required = Some (map command_normal (elems (vd_required (rc_validation c))))\<rparr>\<rparr>"])
      (simp add: normalize_repository_Inr)
qed

text \<open>
  C31.  Decoding a repository's configuration yields the document's content in normal form.  The content is
  that of the decoded document: its instruction paths, trimmed, in order; its policy, normalised; and for each of
  its validation commands, in order, one that runs the same text under the trimmed name and for the same
  duration.  The form is version 1, instruction paths that are relative, free of globs and pairwise different,
  a normalised policy, and validation commands with distinct names of the grammar, something to run, and a timeout
  that is the canonical text of a positive duration of 64 bits; normalising it once more changes nothing.  A
  document is refused exactly when it is too large, not a single YAML mapping without aliases and of known fields,
  or not acceptable (\<open>repository_ok\<close>).
\<close>

theorem DecodeRepository_normal:
  "case DecodeRepository y typed data of
     Inl e \<Rightarrow> \<not> (length data \<le> maxConfigurationSize \<and>
       (\<exists>root c. decodeSingleDocument y data True = Inr root \<and> Decode y typed root = Inr c \<and> repository_ok c))
   | Inr c' \<Rightarrow> length data \<le> maxConfigurationSize \<and>
       (\<exists>root c. decodeSingleDocument y data True = Inr root \<and> Decode y typed root = Inr c \<and> repository_ok c \<and>
          configuration_kept c c') \<and>
       repository_normal c' \<and> normalize_repository c' = Inr c'"
proof (cases "DecodeRepository y typed data")
  case (Inl e)
  have False if "length data \<le> maxConfigurationSize" "decodeSingleDocument y data True = Inr root"
    "Decode y typed root = Inr c" "repository_ok c" for root c
    using that normalize_repository_total [OF that(4)] Inl by (auto simp: DecodeRepository_def)
  with Inl show ?thesis by auto
next
  case (Inr c')
  then obtain root c where "length data \<le> maxConfigurationSize" "decodeSingleDocument y data True = Inr root"
    "Decode y typed root = Inr c" and n: "normalize_repository c = Inr c'"
    by (auto simp: DecodeRepository_def rbind_eq_Inr fail_if_eq_Inr)
  moreover have "repository_ok c" using n by (simp add: normalize_repository_Inr)
  ultimately show ?thesis
    using Inr normalize_repository_kept [OF n] normalize_repository_idem [OF n] by auto
qed

end
