(* ===== verification/Config_File.thy ===== *)
theory Config_File
  imports Repository_Config
begin

text \<open>
  \<open>internal/config/config.go\<close>: reading and validating the deployment configuration (\<open>Load\<close>) and its
  store-only projection (\<open>LoadStore\<close>).  The file system and the YAML library are arguments.  A loaded
  document satisfies \<open>config_valid\<close> (\<open>config_Load_correct\<close>), and every error carries a reason that is
  safe to print.
\<close>

section \<open>Documents\<close>

record Instance =
  in_kind :: string
  in_config :: ynode

record Resource =
  rsc_kind :: resource_kind
  rsc_connector :: string
  rsc_config :: ynode

record Config =
  cf_version :: int
  cf_store :: Instance
  cf_connectors :: "Instance gomap"
  cf_workspace_providers :: "Instance gomap"
  cf_agent_runtimes :: "Instance gomap"
  cf_resources :: "Resource gomap"
  cf_policy :: PolicyRequest

record Document =
  dc_path :: string
  dc_dir :: string
  dc_config :: Config

record StoreDocument =
  sd_path :: string
  sd_dir :: string
  sd_version :: int
  sd_store :: Instance

section \<open>Reading\<close>

text \<open>The working directory, and for a path the contents of the file it opens, the error of reading it
  and the error of closing it.\<close>

record file_system =
  fs_wd :: "gerr + string"
  fs_open :: "string \<Rightarrow> gerr + string"
  fs_read :: "string \<Rightarrow> gerr option"
  fs_close :: "string \<Rightarrow> gerr option"

definition config_unreadable :: "gerr \<Rightarrow> gerr" where
  "config_unreadable e = validationError ''configuration file is unreadable'' (Some e)"

definition readRoot :: "file_system \<Rightarrow> yaml \<Rightarrow> string \<Rightarrow> bool \<Rightarrow> gerr + (string \<times> string \<times> ynode)" where
  "readRoot fs y path rejectAliases =
     rbind (map_err config_unreadable (filepath_Abs (fs_wd fs) path)) (\<lambda>absolutePath.
     rbind (map_err config_unreadable (fs_open fs absolutePath)) (\<lambda>contents.
     let data = take (maxConfigurationSize + 1) contents in
     (case (fs_read fs absolutePath, fs_close fs absolutePath) of
        (Some readErr, _) \<Rightarrow> Inl (config_unreadable readErr)
      | (None, Some closeErr) \<Rightarrow> Inl (config_unreadable closeErr)
      | (None, None) \<Rightarrow>
          rbind (fail_if (length data > maxConfigurationSize) (validationError ''configuration exceeds 1 MiB'' None)) (\<lambda>_.
          rbind (decodeSingleDocument y data rejectAliases) (\<lambda>root.
          Inr (absolutePath, filepath_Dir absolutePath, root))))))"

section \<open>Validation\<close>

text \<open>The first failing check of a list.\<close>

fun check_all :: "('a \<Rightarrow> gerr + unit) \<Rightarrow> 'a list \<Rightarrow> gerr + unit" where
  "check_all f [] = Inr ()"
| "check_all f (x # xs) = rbind (f x) (\<lambda>_. check_all f xs)"

text \<open>The entries of a map in the order of their names.\<close>

definition sorted_names :: "'v gomap \<Rightarrow> string list" where
  "sorted_names m = sort (map fst (elems m))"

definition entry :: "'v gomap \<Rightarrow> string \<Rightarrow> 'v" where
  "entry m name = the (map_of (elems m) name)"

definition validateInstance :: "string \<Rightarrow> Instance \<Rightarrow> gerr + unit" where
  "validateInstance sec inst =
     fail_if (\<not> validKind (in_kind inst)) (validationError (sec @ '' kind is missing or invalid'') None)"

definition validateInstances :: "string \<Rightarrow> string \<Rightarrow> Instance gomap \<Rightarrow> gerr + unit" where
  "validateInstances sec checkPrefix instances =
     check_all (\<lambda>name.
       rbind (fail_if (\<not> rx_match instanceNamePattern name)
                (validationError (sec @ '' contains an invalid instance name'') None)) (\<lambda>_.
       fail_if (\<not> validKind (in_kind (entry instances name)))
         (validationError (checkPrefix @ ''.'' @ name @ '' kind is missing or invalid'') None)))
       (sorted_names instances)"

definition validateResources :: "Config \<Rightarrow> gerr + unit" where
  "validateResources cfg =
     check_all (\<lambda>name.
       let resource = entry (cf_resources cfg) name; checkID = ''resource.'' @ name in
       rbind (fail_if (\<not> rx_match instanceNamePattern name)
                (validationError ''resources contains an invalid instance name'' None)) (\<lambda>_.
       rbind (fail_if (\<not> validKind (rsc_kind resource))
                (validationError (checkID @ '' kind is missing or invalid'') None)) (\<lambda>_.
       rbind (fail_if (\<not> rx_match instanceNamePattern (rsc_connector resource))
                (validationError (checkID @ '' connector is missing or invalid'') None)) (\<lambda>_.
       rbind (fail_if (map_of (elems (cf_connectors cfg)) (rsc_connector resource) = None)
                (validationError (checkID @ '' connector is unknown'') None)) (\<lambda>_.
       fail_if (y_kind (rsc_config resource) \<noteq> MappingNode)
         (validationError (checkID @ '' configuration is invalid'') None))))))
       (sorted_names (cf_resources cfg))"

text \<open>A section that must be there and must not be empty.\<close>

definition require_section :: "ynode \<Rightarrow> string \<Rightarrow> 'v gomap \<Rightarrow> gerr + unit" where
  "require_section root key m =
     (if mappingValue root key = None then Inl (validationError (key @ '' is required'') None)
      else fail_if (elems m = []) (validationError (key @ '' must contain at least one instance'') None))"

text \<open>\<open>Load\<close> after the decoding.\<close>

definition validate_config :: "ynode \<Rightarrow> Config \<Rightarrow> gerr + Config" where
  "validate_config root cfg =
     rbind (fail_if (cf_version cfg \<noteq> 1) (validationError ''version must be 1'' None)) (\<lambda>_.
     rbind (fail_if (mappingValue root ''store'' = None) (validationError ''store is required'' None)) (\<lambda>_.
     rbind (require_section root ''connectors'' (cf_connectors cfg)) (\<lambda>_.
     rbind (require_section root ''workspace_providers'' (cf_workspace_providers cfg)) (\<lambda>_.
     rbind (require_section root ''agent_runtimes'' (cf_agent_runtimes cfg)) (\<lambda>_.
     rbind (validateInstance ''store'' (cf_store cfg)) (\<lambda>_.
     rbind (validateInstances ''connectors'' ''connector'' (cf_connectors cfg)) (\<lambda>_.
     rbind (validateInstances ''workspace_providers'' ''workspace_provider'' (cf_workspace_providers cfg)) (\<lambda>_.
     rbind (validateInstances ''agent_runtimes'' ''agent_runtime'' (cf_agent_runtimes cfg)) (\<lambda>_.
     rbind (map_err (\<lambda>e. yaml_invalid (Some e)) (NormalizeRequest (cf_policy cfg))) (\<lambda>normalizedPolicy.
     let cfg' = cfg\<lparr>cf_policy := normalizedPolicy\<rparr> in
     rbind (validateResources cfg') (\<lambda>_. Inr cfg')))))))))))"

definition Load :: "file_system \<Rightarrow> yaml \<Rightarrow> (string \<Rightarrow> Config decoded) \<Rightarrow> string \<Rightarrow> gerr + Document" where
  "Load fs y typed path =
     rbind (readRoot fs y path True) (\<lambda>(absolutePath, dir, root).
     rbind (fail_if (containsEnvironmentInterpolation root) (yaml_invalid None)) (\<lambda>_.
     rbind (map_err (\<lambda>e. yaml_invalid (Some e)) (Decode y typed root)) (\<lambda>cfg.
     rbind (validate_config root cfg) (\<lambda>cfg'.
     Inr \<lparr>dc_path = absolutePath, dc_dir = dir, dc_config = cfg'\<rparr>))))"

section \<open>The store projection\<close>

definition projection :: "ynode \<Rightarrow> ynode \<Rightarrow> ynode" where
  "projection version store =
     YNode MappingNode '''' '''' [scalarNode ''version'', version, scalarNode ''store'', store]"

definition LoadStore ::
  "file_system \<Rightarrow> yaml \<Rightarrow> (string \<Rightarrow> (int \<times> Instance) decoded) \<Rightarrow> string \<Rightarrow> gerr + StoreDocument"
where
  "LoadStore fs y typed path =
     rbind (readRoot fs y path False) (\<lambda>(absolutePath, dir, root).
     (case (mappingValue root ''version'', mappingValue root ''store'') of
        (Some version, Some store) \<Rightarrow>
          rbind (fail_if (mappingCount root ''version'' \<noteq> 1 \<or> mappingCount root ''store'' \<noteq> 1) (yaml_invalid None)) (\<lambda>_.
          rbind (fail_if (containsAlias version \<or> containsAlias store \<or> containsEnvironmentInterpolation store)
                   (yaml_invalid None)) (\<lambda>_.
          rbind (map_err (\<lambda>e. yaml_invalid (Some e)) (Decode y typed (projection version store))) (\<lambda>(decodedVersion, decodedStore).
          rbind (fail_if (decodedVersion \<noteq> 1) (validationError ''version must be 1'' None)) (\<lambda>_.
          rbind (validateInstance ''store'' decodedStore) (\<lambda>_.
          Inr \<lparr>sd_path = absolutePath, sd_dir = dir, sd_version = decodedVersion, sd_store = decodedStore\<rparr>)))))
      | _ \<Rightarrow> Inl (yaml_invalid None)))"

section \<open>Validation, proved\<close>

lemma check_all_Inr: "check_all f xs = Inr u \<longleftrightarrow> (\<forall>x \<in> set xs. f x = Inr ())"
  by (induction xs) (auto simp: rbind_eq_Inr)

lemma check_all_Inl: "check_all f xs = Inl e \<Longrightarrow> \<exists>x \<in> set xs. f x = Inl e"
  by (induction xs) (auto simp: rbind_eq_Inl)

definition names :: "'v gomap \<Rightarrow> string set" where
  "names m = fst ` set (elems m)"

lemma set_sorted_names [simp]: "set (sorted_names m) = names m"
  by (simp add: sorted_names_def names_def)

definition instances_valid :: "Instance gomap \<Rightarrow> bool" where
  "instances_valid m \<longleftrightarrow> names m \<noteq> {} \<and> (\<forall>n \<in> names m. instance_name n \<and> instance_name (in_kind (entry m n)))"

definition resource_valid :: "Config \<Rightarrow> Resource \<Rightarrow> bool" where
  "resource_valid cfg r \<longleftrightarrow>
     instance_name (rsc_kind r) \<and> instance_name (rsc_connector r) \<and>
     rsc_connector r \<in> names (cf_connectors cfg) \<and> y_kind (rsc_config r) = MappingNode"

text \<open>What a configuration must satisfy, and what a loaded one does.\<close>

definition config_acceptable :: "ynode \<Rightarrow> Config \<Rightarrow> bool" where
  "config_acceptable root cfg \<longleftrightarrow>
     cf_version cfg = 1 \<and>
     (\<forall>key \<in> {''store'', ''connectors'', ''workspace_providers'', ''agent_runtimes''}. mappingValue root key \<noteq> None) \<and>
     instance_name (in_kind (cf_store cfg)) \<and> instances_valid (cf_connectors cfg) \<and>
     instances_valid (cf_workspace_providers cfg) \<and> instances_valid (cf_agent_runtimes cfg) \<and>
     is_ok (NormalizeRequest (cf_policy cfg)) \<and>
     (\<forall>n \<in> names (cf_resources cfg). instance_name n \<and> resource_valid cfg (entry (cf_resources cfg) n))"

definition config_valid :: "Config \<Rightarrow> bool" where
  "config_valid cfg \<longleftrightarrow>
     cf_version cfg = 1 \<and> instance_name (in_kind (cf_store cfg)) \<and> instances_valid (cf_connectors cfg) \<and>
     instances_valid (cf_workspace_providers cfg) \<and> instances_valid (cf_agent_runtimes cfg) \<and>
     NormalizeRequest (cf_policy cfg) = Inr (cf_policy cfg) \<and>
     (\<forall>n \<in> names (cf_resources cfg). instance_name n \<and> resource_valid cfg (entry (cf_resources cfg) n))"

lemma validKind_iff: "validKind k \<longleftrightarrow> instance_name k"
  by (simp add: validKind_def instanceNamePattern_iff)

lemma validateInstances_Inr:
  "validateInstances sec pre m = Inr u \<longleftrightarrow>
     (\<forall>n \<in> names m. instance_name n \<and> instance_name (in_kind (entry m n)))"
  by (auto simp: validateInstances_def check_all_Inr rbind_eq_Inr fail_if_eq_Inr validKind_iff instanceNamePattern_iff)

lemma validateResources_Inr:
  "validateResources cfg = Inr u \<longleftrightarrow>
     (\<forall>n \<in> names (cf_resources cfg). instance_name n \<and> resource_valid cfg (entry (cf_resources cfg) n))"
proof -
  have "map_of (elems m) n = None \<longleftrightarrow> n \<notin> names m" for m :: "Instance gomap" and n
    by (simp add: map_of_eq_None_iff names_def)
  then show ?thesis
    by (auto simp: validateResources_def check_all_Inr rbind_eq_Inr fail_if_eq_Inr validKind_iff
        instanceNamePattern_iff resource_valid_def Let_def)
qed

lemma require_section_Inr: "require_section root key m = Inr u \<longleftrightarrow> mappingValue root key \<noteq> None \<and> names m \<noteq> {}"
  by (auto simp: require_section_def fail_if_eq_Inr names_def)

lemma validate_config_Inr:
  "validate_config root cfg = Inr cfg' \<longleftrightarrow>
     config_acceptable root cfg \<and>
     (\<exists>p. NormalizeRequest (cf_policy cfg) = Inr p \<and> cfg' = cfg\<lparr>cf_policy := p\<rparr>)"
proof -
  have r: "resource_valid (cfg\<lparr>cf_policy := p\<rparr>) r = resource_valid cfg r" for p r
    by (simp add: resource_valid_def)
  have "validate_config root cfg = Inr cfg' \<longleftrightarrow>
     cf_version cfg = 1 \<and> mappingValue root ''store'' \<noteq> None \<and>
     (mappingValue root ''connectors'' \<noteq> None \<and> names (cf_connectors cfg) \<noteq> {}) \<and>
     (mappingValue root ''workspace_providers'' \<noteq> None \<and> names (cf_workspace_providers cfg) \<noteq> {}) \<and>
     (mappingValue root ''agent_runtimes'' \<noteq> None \<and> names (cf_agent_runtimes cfg) \<noteq> {}) \<and>
     instance_name (in_kind (cf_store cfg)) \<and>
     (\<forall>n \<in> names (cf_connectors cfg). instance_name n \<and> instance_name (in_kind (entry (cf_connectors cfg) n))) \<and>
     (\<forall>n \<in> names (cf_workspace_providers cfg). instance_name n \<and> instance_name (in_kind (entry (cf_workspace_providers cfg) n))) \<and>
     (\<forall>n \<in> names (cf_agent_runtimes cfg). instance_name n \<and> instance_name (in_kind (entry (cf_agent_runtimes cfg) n))) \<and>
     (\<exists>p. NormalizeRequest (cf_policy cfg) = Inr p \<and>
        (\<forall>n \<in> names (cf_resources cfg). instance_name n \<and> resource_valid cfg (entry (cf_resources cfg) n)) \<and>
        cfg\<lparr>cf_policy := p\<rparr> = cfg')"
    unfolding validate_config_def Let_def rbind_eq_Inr map_err_eq_Inr fail_if_eq_Inr require_section_Inr
      validateInstances_Inr validateResources_Inr validateInstance_def validKind_iff
    by (simp add: r)
  then show ?thesis
    by (cases "NormalizeRequest (cf_policy cfg)")
      (simp_all add: config_acceptable_def instances_valid_def conj_ac eq_commute [of cfg'])
qed

lemma validate_config_valid: "validate_config root cfg = Inr cfg' \<Longrightarrow> config_valid cfg'"
proof -
  assume "validate_config root cfg = Inr cfg'"
  then obtain p where p: "config_acceptable root cfg" "NormalizeRequest (cf_policy cfg) = Inr p"
    "cfg' = cfg\<lparr>cf_policy := p\<rparr>"
    by (auto simp: validate_config_Inr)
  have "resource_valid cfg' r = resource_valid cfg r" for r by (simp add: resource_valid_def p(3))
  with p NormalizeRequest_idem [OF p(2)] show ?thesis by (simp add: config_valid_def config_acceptable_def)
qed

section \<open>Reasons\<close>

text \<open>Text that is safe on a terminal: printable ASCII.\<close>

definition printable :: "string \<Rightarrow> bool" where
  "printable s \<longleftrightarrow> (\<forall>c \<in> set s. 32 \<le> byte c \<and> byte c < 127)"

lemma printable_append [simp]: "printable (s @ t) \<longleftrightarrow> printable s \<and> printable t"
  by (auto simp: printable_def)

lemma printable_simps [simp]: "printable []" "printable (c # s) \<longleftrightarrow> 32 \<le> byte c \<and> byte c < 127 \<and> printable s"
  by (auto simp: printable_def)

lemma printable_name: "instance_name s \<Longrightarrow> printable s"
  by (fastforce simp: instance_name_def printable_def dash_byte)

text \<open>An error of this package: a \<open>ValidationError\<close> whose reason can be printed.\<close>

definition config_error :: "gerr \<Rightarrow> bool" where
  "config_error e \<longleftrightarrow> (\<exists>r c. e = ValidationError r c \<and> printable r \<and> r \<noteq> [])"

lemma config_errorI: "printable r \<Longrightarrow> r \<noteq> [] \<Longrightarrow> config_error (validationError r c)"
  by (simp add: config_error_def validationError_def)

lemma config_error_yaml: "config_error (yaml_invalid c)"
  unfolding yaml_invalid_def by (rule config_errorI) (simp_all add: printable_def byte_def)

lemma config_error_unreadable: "config_error (config_unreadable e)"
  unfolding config_unreadable_def by (rule config_errorI) (simp_all add: printable_def byte_def)

lemma decodeSingleDocument_error: "decodeSingleDocument y data b = Inl e \<Longrightarrow> config_error e"
  by (auto dest!: decodeSingleDocument_Inl intro: config_error_yaml config_errorI simp: printable_def byte_def)

lemma readRoot_error: "readRoot fs y path b = Inl e \<Longrightarrow> config_error e"
  by (auto simp: readRoot_def rbind_eq_Inl map_err_eq_Inl fail_if_eq_Inl Let_def config_error_unreadable
      split: option.splits dest: decodeSingleDocument_error intro!: config_errorI)
    (simp_all add: printable_def byte_def)

lemma validateInstances_error:
  assumes "validateInstances sec pre m = Inl e" and "printable sec" and "printable pre"
  shows "config_error e"
  using check_all_Inl [OF assms(1) [unfolded validateInstances_def]] assms(2,3)
  by (auto simp: rbind_eq_Inl fail_if_eq_Inl fail_if_eq_Inr instanceNamePattern_iff printable_name byte_def
      intro!: config_errorI)

lemma validateResources_error:
  assumes "validateResources cfg = Inl e"
  shows "config_error e"
  using check_all_Inl [OF assms [unfolded validateResources_def]]
  by (auto simp: rbind_eq_Inl fail_if_eq_Inl fail_if_eq_Inr instanceNamePattern_iff printable_name Let_def byte_def
      intro!: config_errorI)

lemma require_section_error: "require_section root key m = Inl e \<Longrightarrow> printable key \<Longrightarrow> config_error e"
  by (auto simp: require_section_def fail_if_eq_Inl byte_def intro!: config_errorI split: if_splits)

lemma validate_config_error: "validate_config root cfg = Inl e \<Longrightarrow> config_error e"
  unfolding validate_config_def Let_def rbind_eq_Inl map_err_eq_Inl fail_if_eq_Inl validateInstance_def
  by (elim disjE exE conjE)
    (auto intro: config_error_yaml require_section_error validateInstances_error validateResources_error config_errorI
      simp: byte_def)

lemma config_SafeReason_error: "config_error e \<Longrightarrow> printable (config_SafeReason (Some e)) \<and> config_SafeReason (Some e) \<noteq> []"
  by (auto simp: config_error_def config_SafeReason_def)

lemma Load_error: "Load fs y typed path = Inl e \<Longrightarrow> config_error e"
  unfolding Load_def rbind_eq_Inl map_err_eq_Inl fail_if_eq_Inl
  by (auto simp: rbind_eq_Inl map_err_eq_Inl fail_if_eq_Inl intro: readRoot_error config_error_yaml validate_config_error)

lemma Load_valid: "Load fs y typed path = Inr d \<Longrightarrow> config_valid (dc_config d)"
  by (auto simp: Load_def rbind_eq_Inr map_err_eq_Inr fail_if_eq_Inr intro: validate_config_valid)

text \<open>
  C29.  Loading the deployment configuration: a document is accepted exactly when its file can be read
  (at most 1 MiB, a single YAML mapping without aliases), contains no environment interpolation, decodes
  into the known fields and is acceptable; the result is what was decoded with its policy normalised and
  is valid: version 1, well named instances in every section, resources bound to configured connectors.
  Every error carries a printable, nonempty reason, which is what the operator sees.
\<close>

theorem config_Load_correct:
  "case Load fs y typed path of
     Inl e \<Rightarrow> config_error e \<and> printable (config_SafeReason (Some e)) \<and> config_SafeReason (Some e) \<noteq> [] \<and>
       \<not> (\<exists>abs dir root cfg. readRoot fs y path True = Inr (abs, dir, root) \<and>
            \<not> containsEnvironmentInterpolation root \<and> Decode y typed root = Inr cfg \<and> config_acceptable root cfg)
   | Inr d \<Rightarrow> config_valid (dc_config d) \<and>
       (\<exists>root cfg p. readRoot fs y path True = Inr (dc_path d, dc_dir d, root) \<and>
          \<not> containsEnvironmentInterpolation root \<and> Decode y typed root = Inr cfg \<and> config_acceptable root cfg \<and>
          NormalizeRequest (cf_policy cfg) = Inr p \<and> dc_config d = cfg\<lparr>cf_policy := p\<rparr>)"
proof (cases "Load fs y typed path")
  case (Inl e)
  have "config_error e" by (rule Load_error [OF Inl])
  moreover have "\<not> (\<exists>abs dir root cfg. readRoot fs y path True = Inr (abs, dir, root) \<and>
            \<not> containsEnvironmentInterpolation root \<and> Decode y typed root = Inr cfg \<and> config_acceptable root cfg)"
  proof (clarify)
    fix abs dir root cfg
    assume *: "readRoot fs y path True = Inr (abs, dir, root)" "\<not> containsEnvironmentInterpolation root"
      "Decode y typed root = Inr cfg" "config_acceptable root cfg"
    then obtain p where "NormalizeRequest (cf_policy cfg) = Inr p" by (auto simp: config_acceptable_def is_ok_iff)
    then have "validate_config root cfg = Inr (cfg\<lparr>cf_policy := p\<rparr>)" using *(4) by (simp add: validate_config_Inr)
    with * Inl show False by (simp add: Load_def)
  qed
  ultimately show ?thesis using Inl config_SafeReason_error by simp
next
  case (Inr d)
  then obtain root cfg cfg' where r: "readRoot fs y path True = Inr (dc_path d, dc_dir d, root)"
    "\<not> containsEnvironmentInterpolation root" "Decode y typed root = Inr cfg" "validate_config root cfg = Inr cfg'"
    "dc_config d = cfg'"
    by (auto simp: Load_def rbind_eq_Inr map_err_eq_Inr fail_if_eq_Inr)
  with validate_config_valid [OF r(4)] r(4) [unfolded validate_config_Inr] Inr show ?thesis by auto
qed

end
