(* ===== verification/Config_Projection.thy ===== *)
theory Config_Projection
  imports Config_File
begin

text \<open>
  The two readings of one configuration file, \<open>Load\<close> (used by \<open>delegatd doctor\<close> and \<open>task submit\<close>) and \<open>LoadStore\<close>
  (used by \<open>task show\<close>), compared: a file whose top-level keys are plain strings and that \<open>Load\<close> accepts,
  \<open>LoadStore\<close> accepts, with the same paths and the same store; and \<open>LoadStore\<close> looks at nothing but the entries
  \<open>version\<close> and \<open>store\<close>.
\<close>

section \<open>Subtrees\<close>

lemma node_pairs_mem: "(k, v) \<in> set (node_pairs cs) \<Longrightarrow> v \<in> set cs"
  by (induction cs rule: node_pairs.induct) auto

lemma find_value_mem: "find_value key ps = Some v \<Longrightarrow> \<exists>k. (k, v) \<in> set ps"
  by (induction ps) (auto split: if_splits)

lemma mappingValue_child: "mappingValue node key = Some v \<Longrightarrow> v \<in> set (y_content node)"
  by (auto simp: mappingValue_def split: if_splits dest!: find_value_mem node_pairs_mem)

lemma containsAlias_child: "v \<in> set (y_content node) \<Longrightarrow> containsAlias v \<Longrightarrow> containsAlias node"
  by (cases node) (auto simp: list_ex_iff)

lemma containsEnvironmentInterpolation_child:
  "v \<in> set (y_content node) \<Longrightarrow> containsEnvironmentInterpolation v \<Longrightarrow> containsEnvironmentInterpolation node"
  by (cases node) (auto simp: list_ex_iff)

lemma decodeSingleDocument_lenient:
  "decodeSingleDocument y data True = Inr root \<Longrightarrow> decodeSingleDocument y data False = Inr root"
  by (auto simp: decodeSingleDocument_def Let_def split: decoded.splits if_splits)

lemma readRoot_lenient:
  assumes "readRoot fs y path True = Inr (absp, dir, root)"
  shows "readRoot fs y path False = Inr (absp, dir, root)" and "\<not> containsAlias root" and "y_kind root = MappingNode"
  using assms
  by (auto simp: readRoot_def rbind_eq_Inr map_err_eq_Inr fail_if_eq_Inr Let_def
      split: option.splits dest: decodeSingleDocument_lenient decodeSingleDocument_Inr)

section \<open>The store projection\<close>

text \<open>What \<open>LoadStore\<close> asks of a document.\<close>

definition store_acceptable :: "ynode \<Rightarrow> ynode \<Rightarrow> ynode \<Rightarrow> bool" where
  "store_acceptable root version store \<longleftrightarrow>
     mappingValue root ''version'' = Some version \<and> mappingValue root ''store'' = Some store \<and>
     mappingCount root ''version'' = 1 \<and> mappingCount root ''store'' = 1 \<and>
     \<not> containsAlias version \<and> \<not> containsAlias store \<and> \<not> containsEnvironmentInterpolation store"

lemma both_present_Inr:
  "(case a of None \<Rightarrow> Inl e | Some x \<Rightarrow> (case b of None \<Rightarrow> Inl e | Some z \<Rightarrow> f x z)) = Inr d \<longleftrightarrow>
     (\<exists>x z. a = Some x \<and> b = Some z \<and> f x z = Inr d)"
  by (cases a; cases b) simp_all

lemma both_present_Inl:
  "(case a of None \<Rightarrow> Inl e | Some x \<Rightarrow> (case b of None \<Rightarrow> Inl e | Some z \<Rightarrow> f x z)) = Inl e' \<longleftrightarrow>
     (\<exists>x z. a = Some x \<and> b = Some z \<and> f x z = Inl e') \<or> ((a = None \<or> b = None) \<and> e' = e)"
  by (cases a; cases b) auto

lemma LoadStore_Inr:
  "LoadStore fs y typed path = Inr d \<longleftrightarrow>
     sd_version d = 1 \<and> instance_name (in_kind (sd_store d)) \<and>
     (\<exists>root version store. readRoot fs y path False = Inr (sd_path d, sd_dir d, root) \<and>
        store_acceptable root version store \<and>
        Decode y typed (projection version store) = Inr (sd_version d, sd_store d))"
  unfolding LoadStore_def rbind_eq_Inr split_paired_Ex case_prod_conv both_present_Inr
  by (cases d)
    (auto simp: rbind_eq_Inr map_err_eq_Inr fail_if_eq_Inr store_acceptable_def validateInstance_def validKind_iff)

lemma LoadStore_error: "LoadStore fs y typed path = Inl e \<Longrightarrow> config_error e"
  unfolding LoadStore_def rbind_eq_Inl split_paired_Ex case_prod_conv both_present_Inl
  by (auto simp: rbind_eq_Inl map_err_eq_Inl fail_if_eq_Inl validateInstance_def byte_def
      intro: readRoot_error config_error_yaml intro!: config_errorI)

text \<open>
  \<open>LoadStore\<close> succeeds exactly on a readable document whose single \<open>version\<close> is 1 and whose single
  \<open>store\<close> is free of aliases and environment interpolation, strictly decodable and of a well formed kind;
  the result is what was decoded, and every error carries a printable reason.
\<close>

lemma LoadStore_correct:
  "case LoadStore fs y typed path of
     Inl e \<Rightarrow> config_error e \<and> printable (config_SafeReason (Some e)) \<and>
       \<not> (\<exists>absp dir root version store inst. readRoot fs y path False = Inr (absp, dir, root) \<and>
            store_acceptable root version store \<and> Decode y typed (projection version store) = Inr (1, inst) \<and>
            instance_name (in_kind inst))
   | Inr d \<Rightarrow> sd_version d = 1 \<and> instance_name (in_kind (sd_store d)) \<and>
       (\<exists>root version store. readRoot fs y path False = Inr (sd_path d, sd_dir d, root) \<and>
          store_acceptable root version store \<and> Decode y typed (projection version store) = Inr (1, sd_store d))"
proof (cases "LoadStore fs y typed path")
  case (Inl e)
  have "False" if "readRoot fs y path False = Inr (absp, dir, root)" "store_acceptable root version store"
    "Decode y typed (projection version store) = Inr (1, inst)" "instance_name (in_kind inst)"
    for absp dir root version store inst
  proof -
    have "LoadStore fs y typed path = Inr \<lparr>sd_path = absp, sd_dir = dir, sd_version = 1, sd_store = inst\<rparr>"
      using that by (auto simp: LoadStore_Inr)
    with Inl show False by simp
  qed
  then have "\<not> (\<exists>absp dir root version store inst. readRoot fs y path False = Inr (absp, dir, root) \<and>
            store_acceptable root version store \<and> Decode y typed (projection version store) = Inr (1, inst) \<and>
            instance_name (in_kind inst))"
    by blast
  with Inl LoadStore_error [OF Inl] config_SafeReason_error show ?thesis by simp
next
  case (Inr d)
  from Inr [unfolded LoadStore_Inr] obtain root version store where
    "sd_version d = 1" "instance_name (in_kind (sd_store d))" "readRoot fs y path False = Inr (sd_path d, sd_dir d, root)"
    "store_acceptable root version store" "Decode y typed (projection version store) = Inr (sd_version d, sd_store d)"
    by blast
  then show ?thesis by (simp add: Inr) blast
qed

section \<open>The two readings agree\<close>

text \<open>
  A mapping whose keys are plain strings.  A merge key has the tag \<open>!!merge\<close>; a key of another tag may name a field
  in a way that \<open>mappingValue\<close>, which compares raw values, does not see.
\<close>

definition plain_keys :: "ynode \<Rightarrow> bool" where
  "plain_keys root \<longleftrightarrow> list_all (\<lambda>(k, v). y_kind k = ScalarNode \<and> y_tag k = ''!!str'') (node_pairs (y_content root))"

definition plain_document :: "file_system \<Rightarrow> yaml \<Rightarrow> string \<Rightarrow> bool" where
  "plain_document fs y path \<longleftrightarrow>
     (case readRoot fs y path True of Inl e \<Rightarrow> True | Inr (absp, dir, root) \<Rightarrow> plain_keys root)"

text \<open>
  What the YAML library does on struct targets, for mappings of plain keys without aliases: repeated keys are
  refused, a field that is not there keeps its zero value, and a field that is there is decoded from its own
  entry by the decoder of its type, which is the same one for the whole configuration and for the projection.
\<close>

definition field_of :: "ynode \<Rightarrow> string \<Rightarrow> (ynode \<Rightarrow> 'a option) \<Rightarrow> 'a \<Rightarrow> 'a \<Rightarrow> bool" where
  "field_of root key decoder zero x \<longleftrightarrow>
     (case mappingValue root key of None \<Rightarrow> x = zero | Some v \<Rightarrow> decoder v = Some x)"

definition decodes_with ::
  "(ynode \<Rightarrow> int option) \<Rightarrow> (ynode \<Rightarrow> Instance option) \<Rightarrow>
   yaml \<Rightarrow> (string \<Rightarrow> Config decoded) \<Rightarrow> (string \<Rightarrow> (int \<times> Instance) decoded) \<Rightarrow> bool"
where
  "decodes_with int_of instance_of y typed typed' \<longleftrightarrow>
     (\<forall>root cfg. y_kind root = MappingNode \<longrightarrow> plain_keys root \<longrightarrow> \<not> containsAlias root \<longrightarrow> Decode y typed root = Inr cfg \<longrightarrow>
        mappingCount root ''version'' \<le> 1 \<and> mappingCount root ''store'' \<le> 1 \<and>
        field_of root ''version'' int_of 0 (cf_version cfg) \<and>
        field_of root ''store'' instance_of \<lparr>in_kind = '''', in_config = zero_node\<rparr> (cf_store cfg)) \<and>
     (\<forall>version store n i. \<not> containsAlias version \<longrightarrow> \<not> containsAlias store \<longrightarrow>
        int_of version = Some n \<longrightarrow> instance_of store = Some i \<longrightarrow>
        Decode y typed' (projection version store) = Inr (n, i))"

definition decodes_fields ::
  "yaml \<Rightarrow> (string \<Rightarrow> Config decoded) \<Rightarrow> (string \<Rightarrow> (int \<times> Instance) decoded) \<Rightarrow> bool"
where
  "decodes_fields y typed typed' \<longleftrightarrow> (\<exists>int_of instance_of. decodes_with int_of instance_of y typed typed')"

lemma LoadStore_of_Load:
  assumes lib: "decodes_fields y typed typed'" and plain: "plain_document fs y path"
    and load: "Load fs y typed path = Inr d"
  shows "LoadStore fs y typed' path =
     Inr \<lparr>sd_path = dc_path d, sd_dir = dc_dir d, sd_version = 1, sd_store = cf_store (dc_config d)\<rparr>"
proof -
  obtain int_of instance_of where dw: "decodes_with int_of instance_of y typed typed'"
    using lib by (auto simp: decodes_fields_def)
  from load obtain root cfg where r: "readRoot fs y path True = Inr (dc_path d, dc_dir d, root)"
    and env: "\<not> containsEnvironmentInterpolation root" and dec: "Decode y typed root = Inr cfg"
    and v: "validate_config root cfg = Inr (dc_config d)"
    by (auto simp: Load_def rbind_eq_Inr map_err_eq_Inr fail_if_eq_Inr)
  note root = readRoot_lenient [OF r]
  have keys: "plain_keys root" using plain r by (simp add: plain_document_def)
  from v have ok: "config_acceptable root cfg" and store: "cf_store (dc_config d) = cf_store cfg"
    by (auto simp: validate_config_Inr)
  have fields: "mappingCount root ''version'' \<le> 1" "mappingCount root ''store'' \<le> 1"
    "field_of root ''version'' int_of 0 (cf_version cfg)"
    "field_of root ''store'' instance_of \<lparr>in_kind = '''', in_config = zero_node\<rparr> (cf_store cfg)"
    using dw root(2,3) keys dec unfolding decodes_with_def by blast+
  have "mappingValue root ''version'' \<noteq> None"
    using fields(3) ok by (cases "mappingValue root ''version''") (auto simp: config_acceptable_def field_of_def)
  moreover have "mappingValue root ''store'' \<noteq> None"
    using ok by (auto simp: config_acceptable_def)
  ultimately obtain version st where
    mv: "mappingValue root ''version'' = Some version" "mappingValue root ''store'' = Some st" by blast
  have "mappingCount root ''version'' = 1" "mappingCount root ''store'' = 1"
    using fields(1,2) mappingCount_0 [of root "''version''"] mappingCount_0 [of root "''store''"] mv by force+
  moreover have direct: "\<not> containsAlias version" "\<not> containsAlias st"
    using mv root(2) by (auto dest: mappingValue_child containsAlias_child)
  ultimately have "store_acceptable root version st"
    using mv env by (auto simp: store_acceptable_def dest: mappingValue_child containsEnvironmentInterpolation_child)
  moreover have "int_of version = Some (cf_version cfg)" "instance_of st = Some (cf_store cfg)"
    using fields(3,4) mv by (simp_all add: field_of_def)
  then have "Decode y typed' (projection version st) = Inr (cf_version cfg, cf_store cfg)"
    using dw direct unfolding decodes_with_def by blast
  ultimately show ?thesis using root(1) ok by (auto simp: LoadStore_Inr store config_acceptable_def)
qed

text \<open>
  C30.  The store that \<open>task show\<close> opens is the store that \<open>delegatd doctor\<close> checks and that \<open>task submit\<close> writes:
  when the file's top-level keys are plain strings and \<open>Load\<close> accepts it, \<open>LoadStore\<close> accepts it too, with the same
  path, directory, version and store instance.  The assumption on the YAML library is that it decodes a field of a
  struct from the field's own entry.  Merge keys are left out because they part the two readings: \<open>Load\<close> takes a
  \<open>version\<close> that a merge key brings in, \<open>LoadStore\<close> asks for an entry of its own (\<open>LoadStore_own_entries\<close>).
\<close>

theorem LoadStore_agrees_with_Load:
  assumes lib: "decodes_fields y typed typed'" and plain: "plain_document fs y path"
    and load: "Load fs y typed path = Inr d"
  shows "LoadStore fs y typed' path =
     Inr \<lparr>sd_path = dc_path d, sd_dir = dc_dir d, sd_version = 1, sd_store = cf_store (dc_config d)\<rparr>"
  by (rule LoadStore_of_Load [OF assms])

text \<open>Whatever the library makes of merge keys, \<open>LoadStore\<close> wants both entries in the document itself.\<close>

lemma LoadStore_own_entries:
  assumes "LoadStore fs y typed path = Inr d"
  shows "\<exists>root. readRoot fs y path False = Inr (sd_path d, sd_dir d, root) \<and>
    mappingCount root ''version'' = 1 \<and> mappingCount root ''store'' = 1"
  using assms by (auto simp: LoadStore_Inr store_acceptable_def)

section \<open>A concrete configuration\<close>

text \<open>A document with one instance per section, a library that reads exactly it, and its typed decoding.\<close>

definition leaf :: "string \<Rightarrow> ynode" where
  "leaf s = YNode ScalarNode ''!!str'' s []"

definition sample_root :: ynode where
  "sample_root = YNode MappingNode ''!!map'' ''''
     [leaf ''version'', leaf ''1'', leaf ''store'', leaf ''s'', leaf ''connectors'', leaf ''c'',
      leaf ''workspace_providers'', leaf ''w'', leaf ''agent_runtimes'', leaf ''a'']"

definition sample_instances :: "Instance gomap" where
  "sample_instances = Some [(''main'', \<lparr>in_kind = ''k'', in_config = leaf ''c''\<rparr>)]"

definition sample_store :: Instance where
  "sample_store = \<lparr>in_kind = ''sqlite'', in_config = leaf ''s''\<rparr>"

definition sample_config :: Config where
  "sample_config = \<lparr>cf_version = 1, cf_store = sample_store, cf_connectors = sample_instances,
     cf_workspace_providers = sample_instances, cf_agent_runtimes = sample_instances, cf_resources = None,
     cf_policy = \<lparr>pr_actions = None, pr_protected_paths = None\<rparr>\<rparr>"

definition sample_library :: yaml where
  "sample_library =
     \<lparr>ya_node = (\<lambda>data k. if k = 0 then Value (YNode DocumentNode '''' '''' [sample_root]) else EOF),
      ya_marshal = (\<lambda>node. if node = sample_root then Inr ''r''
                           else if node = projection (leaf ''1'') (leaf ''s'') then Inr ''p''
                           else Inl (ErrNew ''unsupported''))\<rparr>"

definition sample_files :: file_system where
  "sample_files = \<lparr>fs_wd = Inr ''/'', fs_open = (\<lambda>path. Inr ''x''), fs_read = (\<lambda>path. None), fs_close = (\<lambda>path. None)\<rparr>"

definition sample_typed :: "string \<Rightarrow> Config decoded" where
  "sample_typed data = (if data = ''r'' then Value sample_config else EOF)"

definition sample_typed_store :: "string \<Rightarrow> (int \<times> Instance) decoded" where
  "sample_typed_store data = (if data = ''p'' then Value (1, sample_store) else EOF)"

text \<open>Decoders of the two fields that know one entry each.\<close>

definition only :: "ynode \<Rightarrow> 'a \<Rightarrow> ynode \<Rightarrow> 'a option" where
  "only v x w = (if w = v then Some x else None)"

lemma decodes_fieldsI:
  assumes "\<And>root cfg. y_kind root = MappingNode \<Longrightarrow> Decode y typed root = Inr cfg \<Longrightarrow> root = r \<and> cfg = c"
    and "mappingCount r ''version'' = 1" "mappingCount r ''store'' = 1"
    and "mappingValue r ''version'' = Some v" "mappingValue r ''store'' = Some st"
    and "Decode y typed' (projection v st) = Inr (cf_version c, cf_store c)"
  shows "decodes_fields y typed typed'"
  unfolding decodes_fields_def
proof (intro exI)
  show "decodes_with (only v (cf_version c)) (only st (cf_store c)) y typed typed'"
    unfolding decodes_with_def
  proof (intro conjI allI impI)
    fix root cfg
    assume "y_kind root = MappingNode" "Decode y typed root = Inr cfg"
    then have "root = r" "cfg = c" using assms(1) by blast+
    then show "mappingCount root ''version'' \<le> 1" "mappingCount root ''store'' \<le> 1"
      "field_of root ''version'' (only v (cf_version c)) 0 (cf_version cfg)"
      "field_of root ''store'' (only st (cf_store c)) \<lparr>in_kind = '''', in_config = zero_node\<rparr> (cf_store cfg)"
      using assms(2-5) by (simp_all add: field_of_def only_def)
  next
    fix version store n i
    assume "only v (cf_version c) version = Some n" "only st (cf_store c) store = Some i"
    then show "Decode y typed' (projection version store) = Inr (n, i)"
      using assms(6) by (simp add: only_def split: if_splits)
  qed
qed

lemma sample_decodes: "decodes_fields sample_library sample_typed sample_typed_store"
proof (rule decodes_fieldsI)
  show "root = sample_root \<and> cfg = sample_config"
    if "y_kind root = MappingNode" "Decode sample_library sample_typed root = Inr cfg" for root cfg
    using that by (auto simp: Decode_def rbind_eq_Inr fail_if_eq_Inr sample_library_def sample_typed_def
        split: if_splits decoded.splits)
  show "mappingValue sample_root ''version'' = Some (leaf ''1'')" "mappingValue sample_root ''store'' = Some (leaf ''s'')"
    by (simp_all add: sample_root_def leaf_def mappingValue_def)
qed (simp_all add: sample_root_def leaf_def mappingCount_def Decode_def projection_def
    sample_library_def sample_typed_store_def sample_config_def scalarNode_def fail_if_def)

lemma interpolation_dollar: "interpolation s \<Longrightarrow> CHR ''$'' \<in> set s"
  by (auto simp: interpolation_def)

lemma sample_read:
  "readRoot sample_files sample_library ''/c'' True =
     Inr (filepath_Clean ''/c'', filepath_Dir (filepath_Clean ''/c''), sample_root)"
  by (simp add: readRoot_def sample_files_def filepath_Abs_def filepath_IsAbs_def decodeSingleDocument_def
      sample_library_def sample_root_def leaf_def fail_if_def maxConfigurationSize_def)

lemma sample_plain: "plain_document sample_files sample_library ''/c''"
  by (simp add: plain_document_def sample_read plain_keys_def sample_root_def leaf_def)

lemma sample_loads:
  "Load sample_files sample_library sample_typed ''/c'' =
     Inr \<lparr>dc_path = filepath_Clean ''/c'', dc_dir = filepath_Dir (filepath_Clean ''/c''),
          dc_config = sample_config\<lparr>cf_policy := \<lparr>pr_actions = Some [], pr_protected_paths = Some []\<rparr>\<rparr>\<rparr>"
proof -
  note sample_read
  moreover have "\<not> containsEnvironmentInterpolation sample_root"
    by (auto simp: containsEnvironmentInterpolation_iff sample_root_def leaf_def dest!: interpolation_dollar)
  moreover have "Decode sample_library sample_typed sample_root = Inr sample_config"
    by (simp add: Decode_def sample_library_def sample_typed_def sample_root_def fail_if_def)
  moreover have "validate_config sample_root sample_config =
      Inr (sample_config\<lparr>cf_policy := \<lparr>pr_actions = Some [], pr_protected_paths = Some []\<rparr>\<rparr>)"
    by (auto simp: validate_config_Inr config_acceptable_def sample_config_def sample_root_def leaf_def mappingValue_def
        sample_store_def sample_instances_def instances_valid_def names_def entry_def instance_name_def byte_def
        NormalizeRequest_def)
  ultimately show ?thesis by (simp add: Load_def fail_if_def)
qed

lemma LoadStore_agrees_with_Load_witness:
  "LoadStore sample_files sample_library sample_typed_store ''/c'' =
     Inr \<lparr>sd_path = filepath_Clean ''/c'', sd_dir = filepath_Dir (filepath_Clean ''/c''), sd_version = 1,
          sd_store = sample_store\<rparr>"
  using LoadStore_agrees_with_Load [OF sample_decodes sample_plain sample_loads] by (simp add: sample_config_def)

end
