(* ===== verification/Doctor_Report.thy ===== *)
theory Doctor_Report
  imports Failures
begin

text \<open>
  \<open>internal/doctor/doctor.go\<close>: diagnostic failures, checks, results and reports, and \<open>Run\<close>, which
  starts one goroutine per check and waits for all of them.  A run is a step relation in which the
  goroutines and the caller interleave in any order; \<open>Run\<close> is the report every schedule ends with.
\<close>

section \<open>Failures, checks and results\<close>

text \<open>A \<open>*doctor.Failure\<close> is an option: nil is \<open>None\<close>.\<close>

record DoctorFailure =
  df_reason :: string
  df_cause :: "gerr option"

definition doctor_NewFailure :: "string \<Rightarrow> gerr option \<Rightarrow> DoctorFailure option" where
  "doctor_NewFailure reason cause = Some \<lparr>df_reason = reason, df_cause = cause\<rparr>"

definition DoctorFailure_Error :: "DoctorFailure option \<Rightarrow> string" where
  "DoctorFailure_Error f = (case f of None \<Rightarrow> '''' | Some x \<Rightarrow> df_reason x)"

definition DoctorFailure_Unwrap :: "DoctorFailure option \<Rightarrow> gerr option" where
  "DoctorFailure_Unwrap f = (case f of None \<Rightarrow> None | Some x \<Rightarrow> df_cause x)"

text \<open>What a probe returns: a detail and a failure.  A probe that is nil is \<open>None\<close>.\<close>

type_synonym outcome = "string \<times> DoctorFailure option"

record check =
  ck_id :: string
  ck_probe :: "(gctx \<Rightarrow> outcome) option"

record dresult =
  re_id :: string
  re_detail :: string
  re_failure :: "DoctorFailure option"

definition zero_result :: dresult where
  "zero_result = \<lparr>re_id = '''', re_detail = '''', re_failure = None\<rparr>"

type_synonym report = "dresult list"

definition Report_OK :: "report \<Rightarrow> bool" where
  "Report_OK r = list_all (\<lambda>x. re_failure x = None) r"

section \<open>One goroutine\<close>

text \<open>The writes of the goroutine of one check into its slot.\<close>

definition write_id :: "check \<Rightarrow> dresult \<Rightarrow> dresult" where
  "write_id c x = x\<lparr>re_id := ck_id c\<rparr>"

definition write_outcome :: "gctx \<Rightarrow> check \<Rightarrow> dresult \<Rightarrow> dresult" where
  "write_outcome ctx c x =
     (case ck_probe c of
        None \<Rightarrow> x\<lparr>re_failure := doctor_NewFailure ''diagnostic probe is unavailable'' None\<rparr>
      | Some p \<Rightarrow> (case p ctx of (detail, failure) \<Rightarrow> x\<lparr>re_detail := detail, re_failure := failure\<rparr>))"

definition check_result :: "gctx \<Rightarrow> check \<Rightarrow> dresult" where
  "check_result ctx c = write_outcome ctx c (write_id c zero_result)"

definition Run :: "gctx \<Rightarrow> check list \<Rightarrow> report" where
  "Run ctx checks = map (check_result ctx) checks"

section \<open>Interleaving\<close>

text \<open>
  Where a goroutine is: not started, before the write of the ID, before the probe, before the deferred
  \<open>Done\<close>, ended.  \<open>ru_next\<close> is the caller's loop index, \<open>ru_wait\<close> the counter of the wait group and
  \<open>ru_report\<close> the value the caller has returned.
\<close>

datatype pc = Unstarted | Started | Named | Probed | Ended

record run =
  ru_results :: "dresult list"
  ru_pcs :: "pc list"
  ru_next :: nat
  ru_wait :: nat
  ru_report :: "report option"

definition run_init :: "check list \<Rightarrow> run" where
  "run_init checks =
     \<lparr>ru_results = replicate (length checks) zero_result, ru_pcs = replicate (length checks) Unstarted,
      ru_next = 0, ru_wait = length checks, ru_report = None\<rparr>"

inductive run_step :: "gctx \<Rightarrow> check list \<Rightarrow> run \<Rightarrow> run \<Rightarrow> bool" for ctx checks where
  spawn: "ru_next s < length checks \<Longrightarrow>
     run_step ctx checks s (s\<lparr>ru_pcs := (ru_pcs s)[ru_next s := Started], ru_next := Suc (ru_next s)\<rparr>)"
| name: "i < length checks \<Longrightarrow> ru_pcs s ! i = Started \<Longrightarrow>
     run_step ctx checks s (s\<lparr>ru_results := (ru_results s)[i := write_id (checks ! i) (ru_results s ! i)],
                              ru_pcs := (ru_pcs s)[i := Named]\<rparr>)"
| probe: "i < length checks \<Longrightarrow> ru_pcs s ! i = Named \<Longrightarrow>
     run_step ctx checks s (s\<lparr>ru_results := (ru_results s)[i := write_outcome ctx (checks ! i) (ru_results s ! i)],
                              ru_pcs := (ru_pcs s)[i := Probed]\<rparr>)"
| finish: "i < length checks \<Longrightarrow> ru_pcs s ! i = Probed \<Longrightarrow>
     run_step ctx checks s (s\<lparr>ru_pcs := (ru_pcs s)[i := Ended], ru_wait := ru_wait s - 1\<rparr>)"
| return: "ru_next s = length checks \<Longrightarrow> ru_wait s = 0 \<Longrightarrow> ru_report s = None \<Longrightarrow>
     run_step ctx checks s (s\<lparr>ru_report := Some (ru_results s)\<rparr>)"

inductive_cases run_stepE: "run_step ctx checks s t"

text \<open>\<open>run_reach ctx checks n s\<close>: some schedule leads to \<open>s\<close> in \<open>n\<close> steps.\<close>

inductive run_reach :: "gctx \<Rightarrow> check list \<Rightarrow> nat \<Rightarrow> run \<Rightarrow> bool" for ctx checks where
  init: "run_reach ctx checks 0 (run_init checks)"
| step: "run_reach ctx checks n s \<Longrightarrow> run_step ctx checks s t \<Longrightarrow> run_reach ctx checks (Suc n) t"

section \<open>The invariant of a run\<close>

definition slot :: "gctx \<Rightarrow> check \<Rightarrow> pc \<Rightarrow> dresult" where
  "slot ctx c p =
     (case p of Unstarted \<Rightarrow> zero_result | Started \<Rightarrow> zero_result | Named \<Rightarrow> write_id c zero_result
      | Probed \<Rightarrow> check_result ctx c | Ended \<Rightarrow> check_result ctx c)"

definition running :: "pc list \<Rightarrow> nat" where
  "running ps = length (filter (\<lambda>p. p \<noteq> Ended) ps)"

text \<open>The goroutines below the caller's index have been started, the others have not.\<close>

definition spawned :: "nat \<Rightarrow> pc list \<Rightarrow> bool" where
  "spawned k ps \<longleftrightarrow> k \<le> length ps \<and> (\<forall>i < length ps. ps ! i = Unstarted \<longleftrightarrow> k \<le> i)"

definition run_inv :: "gctx \<Rightarrow> check list \<Rightarrow> run \<Rightarrow> bool" where
  "run_inv ctx checks s \<longleftrightarrow>
     length (ru_pcs s) = length checks \<and> spawned (ru_next s) (ru_pcs s) \<and>
     ru_results s = map2 (slot ctx) checks (ru_pcs s) \<and> ru_wait s = running (ru_pcs s) \<and>
     (case ru_report s of None \<Rightarrow> True
      | Some r \<Rightarrow> r = Run ctx checks \<and> running (ru_pcs s) = 0)"

lemma spawned_move: "spawned k ps \<Longrightarrow> ps ! i \<noteq> Unstarted \<Longrightarrow> p \<noteq> Unstarted \<Longrightarrow> spawned k (ps[i := p])"
  by (cases "i < length ps") (auto simp: spawned_def nth_list_update list_update_beyond)

lemma spawned_next: "spawned k ps \<Longrightarrow> k < length ps \<Longrightarrow> spawned (Suc k) (ps[k := Started])"
  by (auto simp: spawned_def nth_list_update)

lemma spawned_first: "spawned k ps \<Longrightarrow> k < length ps \<Longrightarrow> ps ! k = Unstarted"
  by (simp add: spawned_def)

lemma spawned_nth: "spawned k ps \<Longrightarrow> i < length ps \<Longrightarrow> ps ! i = Unstarted \<longleftrightarrow> k \<le> i"
  by (simp add: spawned_def)

lemma running_update:
  "i < length ps \<Longrightarrow> ps ! i \<noteq> Ended \<Longrightarrow>
     running (ps[i := p]) = (if p = Ended then running ps - 1 else running ps)"
proof (induction ps arbitrary: i)
  case (Cons q ps)
  show ?case
  proof (cases i)
    case (Suc j)
    with Cons have "0 < running ps" by (auto simp: running_def filter_empty_conv)
    with Suc Cons show ?thesis by (auto simp: running_def)
  qed (use Cons in \<open>auto simp: running_def\<close>)
qed simp

lemma running_0_iff: "running ps = 0 \<longleftrightarrow> (\<forall>p \<in> set ps. p = Ended)"
  by (auto simp: running_def filter_empty_conv)

lemma running_pos: "i < length ps \<Longrightarrow> ps ! i \<noteq> Ended \<Longrightarrow> 0 < running ps"
  by (auto simp: running_def filter_empty_conv)

lemma map2_update: "length ys = length xs \<Longrightarrow> map2 f xs (ys[i := y]) = (map2 f xs ys)[i := f (xs ! i) y]"
  by (cases "i < length xs") (auto intro!: nth_equalityI simp: nth_list_update list_update_beyond)

lemma map2_stay:
  "length ys = length xs \<Longrightarrow> f (xs ! i) y = f (xs ! i) (ys ! i) \<Longrightarrow> map2 f xs (ys[i := y]) = map2 f xs ys"
  by (cases "i < length xs") (auto intro!: nth_equalityI simp: nth_list_update list_update_beyond)

lemma map2_slots:
  "map2 (slot ctx) cs (replicate (length cs) Unstarted) = replicate (length cs) zero_result"
  "length ps = length cs \<Longrightarrow> running ps = 0 \<Longrightarrow> map2 (slot ctx) cs ps = Run ctx cs"
proof -
  assume "length ps = length cs" "running ps = 0"
  then have "ps ! i = Ended" if "i < length cs" for i using that by (simp add: running_0_iff)
  with \<open>length ps = length cs\<close> show "map2 (slot ctx) cs ps = Run ctx cs"
    by (auto intro!: nth_equalityI simp: slot_def Run_def)
qed (auto intro!: nth_equalityI simp: slot_def)

lemma run_inv_init: "run_inv ctx checks (run_init checks)"
  by (auto simp: run_inv_def run_init_def running_def spawned_def map2_slots(1))

text \<open>A goroutine that has not ended moves on, and its slot holds what its new place says.\<close>

lemma run_inv_open:
  assumes "run_inv ctx checks s" and "i < length checks" and "ru_pcs s ! i \<noteq> Ended"
  shows "ru_report s = None"
  using assms running_pos [of i "ru_pcs s"] by (auto simp: run_inv_def split: option.splits)

lemma run_inv_results:
  "run_inv ctx checks s \<Longrightarrow> i < length checks \<Longrightarrow> ru_results s ! i = slot ctx (checks ! i) (ru_pcs s ! i)"
  by (simp add: run_inv_def)

lemma run_inv_pcs: "run_inv ctx checks s \<Longrightarrow> length (ru_pcs s) = length checks"
  by (simp add: run_inv_def)

lemma run_step_inv: "run_step ctx checks s t \<Longrightarrow> run_inv ctx checks s \<Longrightarrow> run_inv ctx checks t"
proof (induction rule: run_step.induct)
  case (spawn s)
  let ?i = "ru_next s"
  have p: "ru_pcs s ! ?i = Unstarted" using spawn by (simp add: run_inv_def spawned_first)
  with spawn have "ru_report s = None" by (intro run_inv_open [of ctx checks s ?i]) auto
  moreover have "map2 (slot ctx) checks ((ru_pcs s)[?i := Started]) = map2 (slot ctx) checks (ru_pcs s)"
    using spawn p by (intro map2_stay) (auto simp: run_inv_pcs slot_def)
  ultimately show ?case
    using spawn p by (simp add: run_inv_def running_update spawned_next)
next
  case (name i s)
  then have "ru_report s = None" by (intro run_inv_open [of ctx checks s i]) auto
  moreover have "write_id (checks ! i) (ru_results s ! i) = slot ctx (checks ! i) Named"
    using name by (simp add: run_inv_results slot_def)
  ultimately show ?case using name by (simp add: run_inv_def running_update spawned_move map2_update)
next
  case (probe i s)
  then have "ru_report s = None" by (intro run_inv_open [of ctx checks s i]) auto
  moreover have "write_outcome ctx (checks ! i) (ru_results s ! i) = slot ctx (checks ! i) Probed"
    using probe by (simp add: run_inv_results slot_def check_result_def)
  ultimately show ?case using probe by (simp add: run_inv_def running_update spawned_move map2_update)
next
  case (finish i s)
  then have "ru_report s = None" by (intro run_inv_open [of ctx checks s i]) auto
  moreover have "map2 (slot ctx) checks ((ru_pcs s)[i := Ended]) = map2 (slot ctx) checks (ru_pcs s)"
    using finish by (intro map2_stay) (auto simp: run_inv_pcs slot_def)
  ultimately show ?case using finish by (simp add: run_inv_def running_update spawned_move)
next
  case (return s)
  then show ?case by (simp add: run_inv_def map2_slots)
qed

lemma run_reach_inv: "run_reach ctx checks n s \<Longrightarrow> run_inv ctx checks s"
  by (induction rule: run_reach.induct) (auto intro: run_inv_init run_step_inv)


section \<open>Every schedule ends\<close>

text \<open>The steps a goroutine has left, and the steps a run has left.\<close>

fun pc_rank :: "pc \<Rightarrow> nat" where
  "pc_rank Unstarted = 4"
| "pc_rank Started = 3"
| "pc_rank Named = 2"
| "pc_rank Probed = 1"
| "pc_rank Ended = 0"

definition run_rank :: "run \<Rightarrow> nat" where
  "run_rank s = sum_list (map pc_rank (ru_pcs s)) + (if ru_report s = None then 1 else 0)"

lemma sum_list_rank_update:
  "i < length ps \<Longrightarrow> sum_list (map pc_rank (ps[i := p])) + pc_rank (ps ! i) = sum_list (map pc_rank ps) + pc_rank p"
  by (induction ps arbitrary: i) (auto split: nat.splits)

lemma run_step_rank: "run_step ctx checks s t \<Longrightarrow> run_inv ctx checks s \<Longrightarrow> Suc (run_rank t) = run_rank s"
proof (induction rule: run_step.induct)
  case (spawn s)
  then have "ru_pcs s ! ru_next s = Unstarted" "ru_next s < length (ru_pcs s)"
    by (simp_all add: run_inv_def spawned_first)
  then show ?case using sum_list_rank_update [of "ru_next s" "ru_pcs s" Started] by (simp add: run_rank_def)
next
  case (name i s)
  then show ?case using sum_list_rank_update [of i "ru_pcs s" Named] by (simp add: run_rank_def run_inv_pcs)
next
  case (probe i s)
  then show ?case using sum_list_rank_update [of i "ru_pcs s" Probed] by (simp add: run_rank_def run_inv_pcs)
next
  case (finish i s)
  then show ?case using sum_list_rank_update [of i "ru_pcs s" Ended] by (simp add: run_rank_def run_inv_pcs)
next
  case (return s)
  then show ?case by (simp add: run_rank_def)
qed

lemma run_reach_rank: "run_reach ctx checks n s \<Longrightarrow> n + run_rank s = 4 * length checks + 1"
proof (induction rule: run_reach.induct)
  case init
  show ?case by (simp add: run_rank_def run_init_def sum_list_replicate)
next
  case (step n s t)
  then show ?case using run_step_rank [OF step.hyps(2) run_reach_inv [OF step.hyps(1)]] by simp
qed

text \<open>No schedule gets stuck before the caller has returned.\<close>

lemma run_progress:
  assumes "run_inv ctx checks s" and "ru_report s = None"
  shows "\<exists>t. run_step ctx checks s t"
proof (cases "running (ru_pcs s) = 0")
  case True
  have "ru_next s = length checks"
  proof (rule ccontr)
    assume "ru_next s \<noteq> length checks"
    then have "ru_next s < length checks" "ru_pcs s ! ru_next s = Unstarted"
      using assms(1) by (auto simp: run_inv_def spawned_def)
    then show False using True assms(1) running_pos [of "ru_next s" "ru_pcs s"] by (simp add: run_inv_pcs)
  qed
  then show ?thesis using True assms return [of s checks ctx] by (auto simp: run_inv_def)
next
  case False
  then obtain i where i: "i < length checks" "ru_pcs s ! i \<noteq> Ended"
    using assms(1) by (metis in_set_conv_nth run_inv_pcs running_0_iff)
  show ?thesis
  proof (cases "ru_pcs s ! i")
    case Unstarted
    then have "ru_next s < length checks" using i(1) assms(1) by (auto simp: run_inv_def spawned_nth)
    then show ?thesis by (blast intro: spawn)
  qed (use i in \<open>auto intro: name probe finish\<close>)
qed

text \<open>
  C21.  \<open>Run\<close> is independent of the schedule and always returns: however the goroutines and the caller
  interleave, a run takes at most four steps per check and one, it can always go on until the caller
  has returned, and what the caller returns is the report of the checks one after the other, in the
  order in which they were supplied.
\<close>

theorem doctor_Run_any_schedule:
  assumes "run_reach ctx checks n s"
  shows "n \<le> 4 * length checks + 1 \<and>
    (case ru_report s of
       None \<Rightarrow> (\<exists>t. run_step ctx checks s t)
     | Some r \<Rightarrow> r = Run ctx checks \<and> map re_id r = map ck_id checks \<and> n = 4 * length checks + 1)"
proof -
  have inv: "run_inv ctx checks s" by (rule run_reach_inv [OF assms])
  have rank: "n + run_rank s = 4 * length checks + 1" by (rule run_reach_rank [OF assms])
  show ?thesis
  proof (cases "ru_report s")
    case None
    then show ?thesis using run_progress [OF inv] rank by simp
  next
    case (Some r)
    with inv have "r = Run ctx checks" "\<forall>p \<in> set (ru_pcs s). p = Ended"
      by (auto simp: run_inv_def running_0_iff)
    then have "run_rank s = 0" using Some by (auto simp: run_rank_def sum_list_eq_0_iff)
    moreover have "map re_id (Run ctx checks) = map ck_id checks"
      by (auto simp: Run_def check_result_def write_outcome_def write_id_def split: option.split prod.split)
    ultimately show ?thesis using Some \<open>r = Run ctx checks\<close> rank by simp
  qed
qed

text \<open>The run of one check without a probe.\<close>

lemma doctor_Run_any_schedule_witness:
  "\<exists>s. run_reach None [\<lparr>ck_id = ''a'', ck_probe = None\<rparr>] 5 s \<and>
       ru_report s = Some (Run None [\<lparr>ck_id = ''a'', ck_probe = None\<rparr>])"
proof -
  let ?cs = "[\<lparr>ck_id = ''a'', ck_probe = None\<rparr>] :: check list"
  have s0: "run_reach None ?cs 0 (run_init ?cs)" by (rule init)
  obtain s1 where s1: "run_reach None ?cs 1 s1" "ru_pcs s1 = [Started]" "ru_next s1 = 1" "ru_wait s1 = 1" "ru_report s1 = None"
    using run_reach.step [OF s0 spawn] by (auto simp: run_init_def)
  obtain s2 where s2: "run_reach None ?cs 2 s2" "ru_pcs s2 = [Named]" "ru_next s2 = 1" "ru_wait s2 = 1" "ru_report s2 = None"
    using run_reach.step [OF s1(1) name [of 0]] s1 by (auto simp: numeral_2_eq_2)
  obtain s3 where s3: "run_reach None ?cs 3 s3" "ru_pcs s3 = [Probed]" "ru_next s3 = 1" "ru_wait s3 = 1" "ru_report s3 = None"
    using run_reach.step [OF s2(1) probe [of 0]] s2 by (auto simp: numeral_3_eq_3 numeral_2_eq_2)
  obtain s4 where s4: "run_reach None ?cs 4 s4" "ru_next s4 = 1" "ru_wait s4 = 0" "ru_report s4 = None"
    using run_reach.step [OF s3(1) finish [of 0]] s3 by (auto simp: eval_nat_numeral)
  obtain s5 where s5: "run_reach None ?cs 5 s5" "ru_report s5 \<noteq> None"
    using run_reach.step [OF s4(1) return] s4 by (auto simp: eval_nat_numeral)
  then show ?thesis using doctor_Run_any_schedule [OF s5(1)] by auto
qed

end
