(* ===== verification/Go_Url.thy ===== *)
theory Go_Url
  imports Go_Numbers
begin

text \<open>
  Go's \<open>net/url\<close> as far as the program uses it: \<open>PathEscape\<close>, with the decoding \<open>PathUnescape\<close> as its
  reference, and the round trip.
\<close>

section \<open>Escaping\<close>

definition path_unreserved :: "char \<Rightarrow> bool" where
  "path_unreserved c \<longleftrightarrow>
     97 \<le> byte c \<and> byte c \<le> 122 \<or> 65 \<le> byte c \<and> byte c \<le> 90 \<or> 48 \<le> byte c \<and> byte c \<le> 57 \<or>
     c \<in> set ''-_.~'' \<or> c \<in> set ''$&+:=@''"

definition upper_hex :: "nat \<Rightarrow> char" where
  "upper_hex n = (if n < 10 then char_of (48 + n) else char_of (55 + n))"

definition escape_char :: "char \<Rightarrow> string" where
  "escape_char c =
     (if path_unreserved c then [c] else [CHR ''%'', upper_hex (byte c div 16), upper_hex (byte c mod 16)])"

definition PathEscape :: "string \<Rightarrow> string" where
  "PathEscape s = concat (map escape_char s)"

definition unhex :: "char \<Rightarrow> nat option" where
  "unhex c =
     (if 48 \<le> byte c \<and> byte c \<le> 57 then Some (byte c - 48)
      else if 97 \<le> byte c \<and> byte c \<le> 102 then Some (byte c - 87)
      else if 65 \<le> byte c \<and> byte c \<le> 70 then Some (byte c - 55) else None)"

fun PathUnescape :: "string \<Rightarrow> string option" where
  "PathUnescape [] = Some []"
| "PathUnescape (c # s) =
     (if c = CHR ''%''
      then (case s of
              a # b # rest \<Rightarrow>
                (case (unhex a, unhex b) of
                   (Some i, Some j) \<Rightarrow> map_option ((#) (char_of (16 * i + j))) (PathUnescape rest)
                 | _ \<Rightarrow> None)
            | _ \<Rightarrow> None)
      else map_option ((#) c) (PathUnescape s))"

lemma byte_of_code: "n < 256 \<Longrightarrow> byte (char_of n) = n"
  by (simp add: byte_def)

lemma unhex_upper_hex: "n < 16 \<Longrightarrow> unhex (upper_hex n) = Some n"
  by (auto simp: upper_hex_def unhex_def byte_of_code)

lemma percent_reserved: "\<not> path_unreserved CHR ''%''"
  by (simp add: path_unreserved_def byte_def)

lemma PathUnescape_escape: "PathUnescape (escape_char c @ s) = map_option ((#) c) (PathUnescape s)"
proof (cases "path_unreserved c")
  case True
  then show ?thesis using percent_reserved by (auto simp: escape_char_def)
next
  case False
  have "byte c < 256" by (rule byte_less)
  then have "unhex (upper_hex (byte c div 16)) = Some (byte c div 16)" "unhex (upper_hex (byte c mod 16)) = Some (byte c mod 16)"
    by (simp_all add: unhex_upper_hex)
  moreover have "char_of (16 * (byte c div 16) + byte c mod 16) = c" by (simp add: byte_def)
  ultimately show ?thesis using False by (simp add: escape_char_def)
qed

lemma PathUnescape_PathEscape: "PathUnescape (PathEscape s) = Some s"
  by (induction s) (simp_all add: PathEscape_def PathUnescape_escape)

text \<open>What an escaped text consists of.\<close>

definition path_safe :: "char \<Rightarrow> bool" where
  "path_safe c \<longleftrightarrow> path_unreserved c \<or> c = CHR ''%''"

lemma upper_hex_safe: "n < 16 \<Longrightarrow> path_safe (upper_hex n)"
  by (auto simp: path_safe_def path_unreserved_def upper_hex_def byte_of_code)

lemma escape_char_safe: "c \<in> set (escape_char d) \<Longrightarrow> path_safe c"
proof -
  have h: "path_safe (upper_hex (byte d div 16))" "path_safe (upper_hex (byte d mod 16))" "path_safe CHR ''%''"
    using byte_less [of d] upper_hex_safe [of "byte d div 16"] upper_hex_safe [of "byte d mod 16"]
    by (simp_all add: path_safe_def)
  assume "c \<in> set (escape_char d)"
  then show "path_safe c"
  proof (cases "path_unreserved d")
    case True
    with \<open>c \<in> set (escape_char d)\<close> show ?thesis by (simp add: escape_char_def path_safe_def)
  next
    case False
    with \<open>c \<in> set (escape_char d)\<close> h show ?thesis by (auto simp: escape_char_def)
  qed
qed

lemma PathEscape_safe: "c \<in> set (PathEscape s) \<Longrightarrow> path_safe c"
  by (auto simp: PathEscape_def dest: escape_char_safe)

lemma path_safe_not: "\<not> path_safe CHR ''?''" "\<not> path_safe CHR ''#''" "\<not> path_safe CHR ''/''"
  by (simp_all add: path_safe_def path_unreserved_def byte_def)


section \<open>Addresses\<close>

text \<open>
  A parsed URL: scheme, host, the text between \<open>//\<close> and the path as \<open>String\<close> prints it, the decoded
  path, and whether a question mark is printed in front of an empty query.
\<close>

record url =
  ur_scheme :: string
  ur_host :: string
  ur_authority :: string
  ur_path :: string
  ur_force_query :: bool

text \<open>\<open>escape\<close> in the mode of a whole path, and of a query component.\<close>

definition path_plain :: "char \<Rightarrow> bool" where
  "path_plain c \<longleftrightarrow> path_unreserved c \<or> c \<in> set '',/;''"

definition query_plain :: "char \<Rightarrow> bool" where
  "query_plain c \<longleftrightarrow> path_unreserved c \<and> c \<notin> set ''$&+:=@''"

definition percent :: "char \<Rightarrow> string" where
  "percent c = [CHR ''%'', upper_hex (byte c div 16), upper_hex (byte c mod 16)]"

definition escaped_path :: "string \<Rightarrow> string" where
  "escaped_path p = (if p = ''*'' then p else concat (map (\<lambda>c. if path_plain c then [c] else percent c) p))"

definition QueryEscape :: "string \<Rightarrow> string" where
  "QueryEscape s =
     concat (map (\<lambda>c. if query_plain c then [c] else if c = CHR '' '' then ''+'' else percent c) s)"

text \<open>\<open>url.Values\<close> with one value per key: \<open>Set\<close>, and \<open>Encode\<close>, which sorts the keys.\<close>

definition Values_Encode :: "(string \<times> string) list \<Rightarrow> string" where
  "Values_Encode q =
     concat (tl (concat (map (\<lambda>k. [''&'', QueryEscape k @ ''='' @ QueryEscape (the (map_of q k))]) (sort (map fst q)))))"

text \<open>\<open>(*URL).String\<close> without a fragment, for a URL that has a scheme and a host.\<close>

definition url_String :: "url \<Rightarrow> string \<Rightarrow> string" where
  "url_String u query =
     (let p = escaped_path (ur_path u) in
      ur_scheme u @ ''://'' @ ur_authority u @
      (if p \<noteq> '''' \<and> hd p \<noteq> CHR ''/'' then ''/'' @ p else p) @
      (if ur_force_query u \<or> query \<noteq> '''' then ''?'' @ query else ''''))"

lemma escaped_path_plain: "list_all path_plain p \<Longrightarrow> escaped_path p = p"
proof -
  have "list_all path_plain p \<Longrightarrow> concat (map (\<lambda>c. if path_plain c then [c] else percent c) p) = p"
    by (induction p) auto
  then show "list_all path_plain p \<Longrightarrow> ?thesis" by (simp add: escaped_path_def)
qed

lemma PathEscape_plain: "list_all path_unreserved s \<Longrightarrow> PathEscape s = s"
  by (induction s) (simp_all add: PathEscape_def escape_char_def)

lemma QueryEscape_plain: "list_all query_plain s \<Longrightarrow> QueryEscape s = s"
  by (induction s) (simp_all add: QueryEscape_def)

end
