(* ===== verification/Sqlite_Doctor.thy ===== *)
theory Sqlite_Doctor
  imports Doctor_Report Go_Path Go_Url
begin

text \<open>
  \<open>internal/store/sqlite/doctor.go\<close>, and the data source names of \<open>store.go\<close>.  The file system and the
  database driver are arguments: what \<open>os.Stat\<close> says of a path, what \<open>sql.Open\<close> says of a data source
  name, and what the calls on the open database return.  A probe is its outcome and its effects.
\<close>

section \<open>Data source names\<close>

text \<open>\<open>filepath.ToSlash\<close> is the identity where the separator is a slash.\<close>

definition file_dsn :: "string \<Rightarrow> string \<Rightarrow> string" where
  "file_dsn path query = ''file:'' @ PathEscape path @ ''?'' @ query"

definition writableDSN :: "string \<Rightarrow> string" where
  "writableDSN path = file_dsn path ''mode=rwc&_foreign_keys=1&_busy_timeout=5000&_txlock=immediate''"

definition readOnlyDSN :: "string \<Rightarrow> string" where
  "readOnlyDSN path = file_dsn path ''mode=ro&_pragma=query_only(1)&_foreign_keys=1''"

definition doctorDSN :: "string \<Rightarrow> string" where
  "doctorDSN path = file_dsn path ''mode=ro&immutable=1&_pragma=query_only(1)''"

text \<open>How a URI is read: its path up to the first question mark, unescaped, and its query.\<close>

definition dsn_path :: "string \<Rightarrow> string option" where
  "dsn_path dsn = PathUnescape (takeWhile (\<lambda>c. c \<noteq> CHR ''?'') (drop 5 dsn))"

definition dsn_query :: "string \<Rightarrow> string" where
  "dsn_query dsn = drop 1 (dropWhile (\<lambda>c. c \<noteq> CHR ''?'') dsn)"

lemma PathEscape_no_query: "\<forall>c \<in> set (PathEscape path). c \<noteq> CHR ''?'' \<and> c \<noteq> CHR ''#'' \<and> c \<noteq> CHR ''/''"
  using PathEscape_safe path_safe_not by metis

lemma file_dsn_parts: "dsn_path (file_dsn path query) = Some path" "dsn_query (file_dsn path query) = query"
    "CHR ''#'' \<in> set (file_dsn path query) \<longleftrightarrow> CHR ''#'' \<in> set query"
proof -
  have q: "takeWhile (\<lambda>c. c \<noteq> CHR ''?'') (PathEscape path @ CHR ''?'' # query) = PathEscape path"
      "dropWhile (\<lambda>c. c \<noteq> CHR ''?'') (PathEscape path @ CHR ''?'' # query) = CHR ''?'' # query"
    using PathEscape_no_query [of path] by (simp_all add: takeWhile_append dropWhile_append)
  show "dsn_path (file_dsn path query) = Some path"
    by (simp add: dsn_path_def file_dsn_def q PathUnescape_PathEscape)
  show "dsn_query (file_dsn path query) = query" by (simp add: dsn_query_def file_dsn_def q)
  show "CHR ''#'' \<in> set (file_dsn path query) \<longleftrightarrow> CHR ''#'' \<in> set query"
    using PathEscape_no_query [of path] by (auto simp: file_dsn_def)
qed

text \<open>
  C35.  A data source name names exactly the configured file: whatever bytes the path holds, reading the
  name back gives the path, the query is the fixed one (read-only and immutable for the diagnosis,
  read-only for showing, read-write for submitting), and there is no fragment.  No path can smuggle in
  an option.
\<close>

theorem dsn_roundtrip:
  "dsn_path (doctorDSN path) = Some path \<and> dsn_query (doctorDSN path) = ''mode=ro&immutable=1&_pragma=query_only(1)'' \<and>
   dsn_path (readOnlyDSN path) = Some path \<and>
   dsn_query (readOnlyDSN path) = ''mode=ro&_pragma=query_only(1)&_foreign_keys=1'' \<and>
   dsn_path (writableDSN path) = Some path \<and>
   dsn_query (writableDSN path) = ''mode=rwc&_foreign_keys=1&_busy_timeout=5000&_txlock=immediate'' \<and>
   CHR ''#'' \<notin> set (doctorDSN path) \<union> set (readOnlyDSN path) \<union> set (writableDSN path)"
  by (simp add: doctorDSN_def readOnlyDSN_def writableDSN_def file_dsn_parts)

section \<open>The probe\<close>

text \<open>\<open>se_stat\<close>: whether a path is a regular file, or the error of \<open>os.Stat\<close>.\<close>

record sqlite_env =
  se_wd :: "gerr + string"
  se_stat :: "string \<Rightarrow> gerr + bool"
  se_open :: "string \<Rightarrow> gerr option"
  se_ping :: "gerr option"
  se_schema :: "gerr + int"
  se_version :: "gerr + string"
  se_close :: "gerr option"

datatype sqlite_action = Stat string | OpenDatabase string | Ping | ReadSchemaVersion | ReadVersion | CloseDatabase

definition os_ErrNotExist :: gerr where "os_ErrNotExist = Sentinel ''os.ErrNotExist''"

definition sqlite_failed :: "string \<Rightarrow> gerr option \<Rightarrow> outcome" where
  "sqlite_failed reason cause = ('''', doctor_NewFailure reason cause)"

text \<open>After \<open>sql.Open\<close>; the deferred \<open>Close\<close> ends every path.\<close>

definition sqlite_query :: "sqlite_env \<Rightarrow> outcome \<times> sqlite_action list" where
  "sqlite_query env =
     (case se_ping env of
        Some e \<Rightarrow> (sqlite_failed ''SQLite database could not be opened read-only'' (Some e), [Ping, CloseDatabase])
      | None \<Rightarrow>
     (case se_schema env of
        Inl e \<Rightarrow> (sqlite_failed ''SQLite database probe failed'' (Some e), [Ping, ReadSchemaVersion, CloseDatabase])
      | Inr schemaVersion \<Rightarrow>
     (case se_version env of
        Inl e \<Rightarrow> (sqlite_failed ''SQLite database probe failed'' (Some e),
                  [Ping, ReadSchemaVersion, ReadVersion, CloseDatabase])
      | Inr version \<Rightarrow>
          ((case se_close env of
              Some e \<Rightarrow> sqlite_failed ''SQLite database probe failed'' (Some e)
            | None \<Rightarrow> (''SQLite '' @ version, None)),
           [Ping, ReadSchemaVersion, ReadVersion, CloseDatabase, CloseDatabase]))))"

definition sqlite_probe :: "sqlite_env \<Rightarrow> string \<Rightarrow> string \<Rightarrow> outcome \<times> sqlite_action list" where
  "sqlite_probe env configured dir =
     (if configured = '''' then (sqlite_failed ''path is required'' None, [])
      else
        (case filepath_Abs (se_wd env) (if filepath_IsAbs configured then configured else filepath_Join [dir, configured]) of
           Inl e \<Rightarrow> (sqlite_failed ''SQLite database does not exist'' (Some e), [])
         | Inr path \<Rightarrow>
             (case se_stat env path of
                Inl e \<Rightarrow>
                  if errors_is e os_ErrNotExist
                  then (sqlite_failed ''SQLite database does not exist'' (Some e), [Stat path])
                  else (sqlite_failed ''SQLite database could not be opened read-only'' (Some e), [Stat path])
              | Inr regular \<Rightarrow>
                  if \<not> regular then (sqlite_failed ''SQLite path is not a regular file'' None, [Stat path])
                  else
                    (case se_open env (doctorDSN path) of
                       Some e \<Rightarrow> (sqlite_failed ''SQLite database could not be opened read-only'' (Some e),
                                  [Stat path, OpenDatabase (doctorDSN path)])
                     | None \<Rightarrow>
                         (case sqlite_query env of (out, tr) \<Rightarrow>
                            (out, [Stat path, OpenDatabase (doctorDSN path)] @ tr))))))"

definition sqlite_NewDoctorCheck :: "sqlite_env \<Rightarrow> string \<Rightarrow> string \<Rightarrow> check" where
  "sqlite_NewDoctorCheck env configured dir =
     \<lparr>ck_id = ''store.sqlite'', ck_probe = Some (\<lambda>ctx. fst (sqlite_probe env configured dir))\<rparr>"

section \<open>The probe, proved\<close>

definition sqlite_path :: "sqlite_env \<Rightarrow> string \<Rightarrow> string \<Rightarrow> gerr + string" where
  "sqlite_path env configured dir =
     filepath_Abs (se_wd env) (if filepath_IsAbs configured then configured else filepath_Join [dir, configured])"

definition sqlite_ready :: "sqlite_env \<Rightarrow> string \<Rightarrow> string \<Rightarrow> bool" where
  "sqlite_ready env configured dir \<longleftrightarrow>
     configured \<noteq> '''' \<and>
     (case sqlite_path env configured dir of
        Inl e \<Rightarrow> False
      | Inr path \<Rightarrow> se_stat env path = Inr True \<and> se_open env (doctorDSN path) = None) \<and>
     se_ping env = None \<and> is_ok (se_schema env) \<and> is_ok (se_version env) \<and> se_close env = None"

definition sqlite_doctor_reasons :: "string set" where
  "sqlite_doctor_reasons =
     {''path is required'', ''SQLite database does not exist'', ''SQLite database could not be opened read-only'',
      ''SQLite path is not a regular file'', ''SQLite database probe failed''}"

lemma sqlite_query_cases:
  "case sqlite_query env of ((detail, f), tr) \<Rightarrow>
     hd tr = Ping \<and> last tr = CloseDatabase \<and> set tr \<subseteq> {Ping, ReadSchemaVersion, ReadVersion, CloseDatabase} \<and>
     (case f of
        None \<Rightarrow> se_ping env = None \<and> is_ok (se_schema env) \<and> se_close env = None \<and>
          (\<exists>v. se_version env = Inr v \<and> detail = ''SQLite '' @ v)
      | Some x \<Rightarrow> detail = '''' \<and> df_reason x \<in> sqlite_doctor_reasons \<and>
          \<not> (se_ping env = None \<and> is_ok (se_schema env) \<and> is_ok (se_version env) \<and> se_close env = None))"
  by (simp add: sqlite_query_def sqlite_failed_def doctor_NewFailure_def sqlite_doctor_reasons_def
      split: option.split sum.split)

text \<open>
  C36.  The store diagnosis passes exactly when a path is configured, names a regular file and the
  database answers; it then reports the library's version, and otherwise one of five fixed reasons.  It
  only reads: a database is opened only for a regular file it has looked at, only with the read-only,
  immutable data source name of that file, and once opened it is closed last.
\<close>

theorem sqlite_probe_correct:
  "(case fst (sqlite_probe env configured dir) of
      (detail, None) \<Rightarrow> sqlite_ready env configured dir \<and> (\<exists>v. se_version env = Inr v \<and> detail = ''SQLite '' @ v)
    | (detail, Some f) \<Rightarrow> \<not> sqlite_ready env configured dir \<and> detail = '''' \<and> df_reason f \<in> sqlite_doctor_reasons) \<and>
   (\<exists>path tr. snd (sqlite_probe env configured dir) \<in> {[], [Stat path], [Stat path, OpenDatabase (doctorDSN path)] @ tr} \<and>
      set tr \<subseteq> {Ping, ReadSchemaVersion, ReadVersion, CloseDatabase} \<and>
      (if OpenDatabase (doctorDSN path) \<in> set (snd (sqlite_probe env configured dir))
       then se_stat env path = Inr True \<and> (if se_open env (doctorDSN path) = None then last tr = CloseDatabase else tr = [])
       else True))"
proof (cases "configured = ''''")
  case True
  then show ?thesis
    by (auto simp: sqlite_probe_def sqlite_failed_def doctor_NewFailure_def sqlite_ready_def sqlite_doctor_reasons_def
        intro!: exI [of _ "[]"])
next
  case nonempty: False
  show ?thesis
  proof (cases "sqlite_path env configured dir")
    case (Inl e)
    with nonempty show ?thesis
      by (auto simp: sqlite_probe_def sqlite_failed_def doctor_NewFailure_def sqlite_ready_def sqlite_path_def
          sqlite_doctor_reasons_def intro!: exI [of _ "[]"])
  next
    case path: (Inr path)
    have p: "filepath_Abs (se_wd env) (if filepath_IsAbs configured then configured else filepath_Join [dir, configured]) = Inr path"
      using path by (simp add: sqlite_path_def)
    obtain detail f tr where q: "sqlite_query env = ((detail, f), tr)" by (metis surj_pair)
    note probe = sqlite_probe_def [of env configured dir, unfolded p q]
    show ?thesis
      using sqlite_query_cases [of env] nonempty
      by (cases "se_stat env path"; cases "se_open env (doctorDSN path)")
        (auto simp: probe q path sqlite_ready_def sqlite_failed_def doctor_NewFailure_def sqlite_doctor_reasons_def
          intro!: exI [of _ path] exI [of _ tr] split: option.splits)
  qed
qed

end
