(* ===== verification/Docker_Doctor.thy ===== *)
theory Docker_Doctor
  imports Doctor_Report Json_Struct
begin

text \<open>
  \<open>internal/workspace/docker/doctor.go\<close>: the bounded buffer that receives the output of
  \<open>docker version\<close>, the decoding of its two JSON strings, and the probe.  The executable lookup, the
  pieces in which the output of the process arrives and the error of \<open>Run\<close> are arguments.
\<close>

section \<open>The bounded buffer\<close>

definition maxVersionOutputSize :: nat where "maxVersionOutputSize = 64 * 1024"

definition errOutputTooLarge :: gerr where "errOutputTooLarge = Sentinel ''docker.errOutputTooLarge''"

text \<open>\<open>lb_limited\<close> counts the calls of \<open>onLimit\<close>, which cancels the process.\<close>

record limitedBuffer =
  lb_data :: string
  lb_too_large :: bool
  lb_limited :: nat

definition empty_buffer :: limitedBuffer where
  "empty_buffer = \<lparr>lb_data = [], lb_too_large = False, lb_limited = 0\<rparr>"

definition lb_Write :: "limitedBuffer \<Rightarrow> string \<Rightarrow> (nat \<times> gerr option) \<times> limitedBuffer" where
  "lb_Write b p =
     (let remaining = int maxVersionOutputSize - int (length (lb_data b)) in
      if remaining \<le> 0 then
        ((0, Some errOutputTooLarge), b\<lparr>lb_too_large := True, lb_limited := Suc (lb_limited b)\<rparr>)
      else if int (length p) > remaining then
        ((nat remaining, Some errOutputTooLarge),
         b\<lparr>lb_data := lb_data b @ take (nat remaining) p, lb_too_large := True, lb_limited := Suc (lb_limited b)\<rparr>)
      else ((length p, None), b\<lparr>lb_data := lb_data b @ p\<rparr>))"

text \<open>\<open>io.Copy\<close> into the buffer: nothing is written for an empty read, a failed or short write ends it.\<close>

fun copy_chunks :: "limitedBuffer \<Rightarrow> string list \<Rightarrow> limitedBuffer" where
  "copy_chunks b [] = b"
| "copy_chunks b (p # ps) =
     (if p = [] then copy_chunks b ps
      else case lb_Write b p of
        ((n, err), b') \<Rightarrow> if err \<noteq> None \<or> n \<noteq> length p then b' else copy_chunks b' ps)"

definition full_buffer :: "string \<Rightarrow> limitedBuffer" where
  "full_buffer d =
     \<lparr>lb_data = take maxVersionOutputSize d, lb_too_large = length d > maxVersionOutputSize,
      lb_limited = (if length d > maxVersionOutputSize then 1 else 0)\<rparr>"

lemma copy_chunks_from:
  "length d \<le> maxVersionOutputSize \<Longrightarrow> copy_chunks \<lparr>lb_data = d, lb_too_large = False, lb_limited = 0\<rparr> ps =
     full_buffer (d @ concat ps)"
proof (induction ps arbitrary: d)
  case Nil
  then show ?case by (simp add: full_buffer_def)
next
  case (Cons p ps)
  show ?case
  proof (cases "p = []")
    case True
    with Cons show ?thesis by simp
  next
    case p: False
    show ?thesis
    proof (cases "length d + length p \<le> maxVersionOutputSize")
      case True
      then have "lb_Write \<lparr>lb_data = d, lb_too_large = False, lb_limited = 0\<rparr> p =
          ((length p, None), \<lparr>lb_data = d @ p, lb_too_large = False, lb_limited = 0\<rparr>)"
        using p by (cases p) (auto simp: lb_Write_def Let_def)
      with p Cons.IH [of "d @ p"] True show ?thesis by simp
    next
      case False
      then have "snd (lb_Write \<lparr>lb_data = d, lb_too_large = False, lb_limited = 0\<rparr> p) = full_buffer (d @ p @ concat ps)"
        "snd (fst (lb_Write \<lparr>lb_data = d, lb_too_large = False, lb_limited = 0\<rparr> p)) \<noteq> None"
        using Cons.prems by (auto simp: lb_Write_def Let_def full_buffer_def nat_diff_distrib)
      with p show ?thesis by (auto split: prod.split)
    qed
  qed
qed

text \<open>
  C34.  The output of the child process is bounded and not cut silently: in whatever pieces it arrives,
  the buffer ends up with its first 64 KiB and nothing more, it says that the output was too large
  exactly when it was longer than that, and the process is cancelled exactly once in that case.
\<close>

theorem docker_output_bounded:
  "let b = copy_chunks empty_buffer chunks; output = concat chunks in
   lb_data b = take maxVersionOutputSize output \<and> length (lb_data b) \<le> maxVersionOutputSize \<and>
   lb_too_large b = (length output > maxVersionOutputSize) \<and>
   lb_limited b = (if lb_too_large b then 1 else 0)"
  using copy_chunks_from [of "[]" chunks] by (simp add: empty_buffer_def full_buffer_def Let_def)

section \<open>The version response\<close>

text \<open>A \<open>json.RawMessage\<close> is the value it holds; only a string starts with a quote.\<close>

definition decodeJSONString :: "json \<Rightarrow> gerr + string" where
  "decodeJSONString v = (case v of JStr s \<Rightarrow> Inr s | _ \<Rightarrow> Inl (ErrNew ''JSON value is not a string''))"

text \<open>\<open>decoder.Decode(&raw)\<close>.\<close>

definition decode_raw :: "string \<Rightarrow> gerr + (json \<times> string)" where
  "decode_raw s = (case decode_one s of None \<Rightarrow> Inl json_error | Some p \<Rightarrow> Inr p)"

definition decodeVersionOutput :: "string \<Rightarrow> gerr + (string \<times> string)" where
  "decodeVersionOutput data =
     rbind (decode_raw data) (\<lambda>(rawVersion, r1).
     rbind (decode_raw r1) (\<lambda>(rawOperatingSystem, r2).
     rbind (decodeJSONString rawVersion) (\<lambda>version.
     rbind (decodeJSONString rawOperatingSystem) (\<lambda>operatingSystem.
     if skip_ws r2 = [] then Inr (version, operatingSystem)
     else case decode_one r2 of
       Some _ \<Rightarrow> Inl (ErrNew ''extra JSON value'')
     | None \<Rightarrow> Inl json_error))))"

text \<open>\<open>^[A-Za-z0-9.+_-]{1,64}$\<close>.\<close>

definition version_class :: "(char \<times> char) list" where
  "version_class = [(CHR ''A'', CHR ''Z''), (CHR ''a'', CHR ''z''), (CHR ''0'', CHR ''9''), (CHR ''.'', CHR ''.''),
     (CHR ''+'', CHR ''+''), (CHR ''_'', CHR ''_''), (CHR ''-'', CHR ''-'')]"

definition dockerVersionPattern :: rx where
  "dockerVersionPattern = RRep 1 64 (RCls version_class)"

section \<open>The probe\<close>

record docker_env =
  dk_lookpath :: "gerr + string"
  dk_output :: "string list"
  dk_run :: "gerr option"

definition docker_failed :: "string \<Rightarrow> gerr option \<Rightarrow> outcome" where
  "docker_failed reason cause = ('''', doctor_NewFailure reason cause)"

definition docker_probe :: "docker_env \<Rightarrow> outcome" where
  "docker_probe env =
     (case dk_lookpath env of
        Inl e \<Rightarrow> docker_failed ''docker executable was not found'' (Some e)
      | Inr executable \<Rightarrow>
          (let output = copy_chunks empty_buffer (dk_output env) in
           if lb_too_large output then docker_failed ''Docker version response is invalid'' (Some errOutputTooLarge)
           else case dk_run env of
             Some e \<Rightarrow> docker_failed ''Docker daemon is unavailable'' (Some e)
           | None \<Rightarrow>
               (case decodeVersionOutput (lb_data output) of
                  Inl e \<Rightarrow> docker_failed ''Docker version response is invalid'' (Some e)
                | Inr (version, operatingSystem) \<Rightarrow>
                    if operatingSystem \<noteq> ''linux'' then docker_failed ''Docker server OS is not linux'' None
                    else if \<not> rx_match dockerVersionPattern version then
                      docker_failed ''Docker version response is invalid'' (Some (ErrNew ''invalid server version''))
                    else (''Docker server '' @ version @ '' (linux)'', None))))"

definition docker_NewDoctorCheck :: "string \<Rightarrow> docker_env \<Rightarrow> check" where
  "docker_NewDoctorCheck name env =
     \<lparr>ck_id = ''workspace_provider.'' @ name, ck_probe = Some (\<lambda>ctx. docker_probe env)\<rparr>"

section \<open>The probe, proved\<close>

definition version_text :: "string \<Rightarrow> bool" where
  "version_text v \<longleftrightarrow> 1 \<le> length v \<and> length v \<le> 64 \<and> (\<forall>c \<in> set v. in_class version_class c)"

lemma dockerVersionPattern_iff: "rx_match dockerVersionPattern v \<longleftrightarrow> version_text v"
  unfolding rx_match_iff dockerVersionPattern_def by (auto simp: rx_lang_simps version_text_def simp del: rx_lang.simps)

lemma version_text_plain: "version_text v \<Longrightarrow> utf8_valid v"
  by (rule ascii_valid) (auto simp: version_text_def in_class_def version_class_def byte_def)

text \<open>What the Docker client prints for its format, read back.\<close>

definition docker_line :: "string \<Rightarrow> string \<Rightarrow> string" where
  "docker_line version os = enc True (JStr version) @ '' '' @ enc True (JStr os) @ [LF]"

lemma decodeVersionOutput_line:
  assumes "utf8_valid version" and "utf8_valid os"
  shows "decodeVersionOutput (docker_line version os) = Inr (version, os)"
proof -
  have ws: "is_ws CHR '' ''" "is_ws LF" by (simp_all add: is_ws_def byte_def LF_def)
  have wf: "json_wf (JStr version)" "json_wf (JStr os)" "json_depth (JStr version) \<le> max_depth"
    "json_depth (JStr os) \<le> max_depth"
    using assms by (simp_all add: max_depth_def)
  have d1: "delim ('' '' @ t)" "delim [LF]" for t by (simp_all add: delim_def is_digit_def LF_def byte_def)
  have v: "decode_raw (docker_line version os) = Inr (JStr version, '' '' @ enc True (JStr os) @ [LF])"
    using decode_enc [OF wf(1,3) d1(1), of True "enc True (JStr os) @ [LF]"] by (simp add: docker_line_def decode_raw_def)
  have o: "decode_raw ('' '' @ enc True (JStr os) @ [LF]) = Inr (JStr os, [LF])"
    using decode_enc [OF wf(2,4) d1(2), of True] by (simp add: decode_raw_def decode_one_skip ws)
  show ?thesis
    by (simp add: decodeVersionOutput_def v o [simplified] decodeJSONString_def skip_ws_def ws)
qed

text \<open>
  C27.  The Docker diagnosis.  Whatever the process prints, a pass shows a version of at most 64
  characters that are safe to print, decoded from an output of at most 64 KiB for a Linux daemon, and a
  failure shows one of four fixed reasons.  A version line as the client prints it (two JSON strings
  and a line end, in any pieces) passes exactly when the daemon runs Linux and the version is of that form.
\<close>

theorem docker_probe_correct:
  "(case docker_probe env of
      (detail, None) \<Rightarrow> (\<exists>v. detail = ''Docker server '' @ v @ '' (linux)'' \<and> version_text v \<and>
         decodeVersionOutput (concat (dk_output env)) = Inr (v, ''linux'') \<and>
         length (concat (dk_output env)) \<le> maxVersionOutputSize)
    | (detail, Some f) \<Rightarrow> detail = '''' \<and> df_reason f \<in> {''docker executable was not found'',
         ''Docker version response is invalid'', ''Docker daemon is unavailable'', ''Docker server OS is not linux''}) \<and>
   (dk_lookpath env = Inr exe \<and> dk_run env = None \<and> utf8_valid version \<and> utf8_valid os \<and>
    concat (dk_output env) = docker_line version os \<and> length (docker_line version os) \<le> maxVersionOutputSize
    \<longrightarrow> (if os = ''linux'' \<and> version_text version
         then docker_probe env = (''Docker server '' @ version @ '' (linux)'', None)
         else snd (docker_probe env) \<noteq> None))"
proof -
  have buf: "copy_chunks empty_buffer (dk_output env) = full_buffer (concat (dk_output env))"
    using copy_chunks_from [of "[]"] by (simp add: empty_buffer_def)
  show ?thesis
    by (auto simp: docker_probe_def buf full_buffer_def Let_def decodeVersionOutput_line dockerVersionPattern_iff
        docker_failed_def doctor_NewFailure_def split: sum.split option.split)
qed

lemma docker_probe_correct_witness:
  "docker_probe \<lparr>dk_lookpath = Inr ''/usr/bin/docker'', dk_output = [docker_line ''27.5.1'' ''linux''], dk_run = None\<rparr> =
     (''Docker server 27.5.1 (linux)'', None)"
proof -
  have "version_text ''27.5.1''"
    by (simp add: version_text_def in_class_def version_class_def byte_def)
  moreover have "utf8_valid ''27.5.1''" "utf8_valid ''linux''" by (auto intro!: ascii_valid simp: byte_def)
  moreover have "length (docker_line ''27.5.1'' ''linux'') \<le> maxVersionOutputSize"
    by (simp add: docker_line_def esc_rune_def byte_def dquote_def backslash_def maxVersionOutputSize_def)
  ultimately show ?thesis
    using docker_probe_correct [of "\<lparr>dk_lookpath = Inr ''/usr/bin/docker'',
        dk_output = [docker_line ''27.5.1'' ''linux''], dk_run = None\<rparr>" "''/usr/bin/docker''" "''27.5.1''" "''linux''"]
    by simp
qed

end
