(* ===== verification/Omp_Doctor.thy ===== *)
theory Omp_Doctor
  imports Doctor_Report Json_Struct
begin

text \<open>
  \<open>internal/runtime/omp/doctor.go\<close>: reading the first line of the agent's output through a
  \<open>bufio.Reader\<close> with a limit, deciding whether it advertises protocol 1, and the probe with the
  resources it takes: the pipe, the process and the context it cancels.  What the process writes before
  its output ends or fails is an argument, as are the results of the calls of the operating system.
  The watcher and the two goroutines after a ready frame only close the reader, drain it and wait; the
  order of their effects that matters is the one the channels impose, which the trace keeps.
\<close>

section \<open>Lines of a buffered reader\<close>

definition maxReadyFrameSize :: nat where "maxReadyFrameSize = 1024 * 1024"

definition errFrameTooLarge :: gerr where "errFrameTooLarge = Sentinel ''omp.errFrameTooLarge''"
definition errProtocolUnavailable :: gerr where
  "errProtocolUnavailable = Sentinel ''omp.errProtocolUnavailable''"

text \<open>The size of the buffer of \<open>bufio.NewReader\<close>.\<close>

definition buffer_size :: nat where "buffer_size = 4096"

text \<open>A stream: the bytes still to come and the error after them.\<close>

type_synonym stream = "string \<times> gerr"

text \<open>
  \<open>ReadSlice('\n')\<close>: a line with its end (no error), a full buffer without one (\<open>bufio.ErrBufferFull\<close>,
  which only the buffer returns), or what is left and the error of the stream.
\<close>

datatype slice_result = Line string | Full string | Failed string gerr

definition ReadSlice :: "stream \<Rightarrow> slice_result \<times> stream" where
  "ReadSlice st =
     (case st of (data, final) \<Rightarrow>
        (let w = take buffer_size data; line = takeWhile (\<lambda>c. c \<noteq> LF) w in
         if LF \<in> set w then (Line (line @ [LF]), (drop (Suc (length line)) data, final))
         else if buffer_size \<le> length data then (Full w, (drop buffer_size data, final))
         else (Failed data final, ([], final))))"

lemma ReadSlice_shorter: "ReadSlice st = (Full part, st') \<Longrightarrow> length (fst st') < length (fst st)"
  by (auto simp: ReadSlice_def Let_def buffer_size_def split: prod.splits if_splits)

text \<open>The loop of \<open>readReadyFrame\<close>.\<close>

definition too_large :: "string \<Rightarrow> string \<Rightarrow> bool" where
  "too_large frame part \<longleftrightarrow> part \<noteq> [] \<and> length frame + length part > maxReadyFrameSize"

definition trim_line :: "string \<Rightarrow> string" where
  "trim_line d = (if suffix [LF] d then butlast d else d)"

function read_frame :: "string \<Rightarrow> stream \<Rightarrow> gerr + string" where
  "read_frame frame st =
     (case ReadSlice st of
        (Line part, st') \<Rightarrow>
          if too_large frame part then Inl errFrameTooLarge else Inr (trim_line (frame @ part))
      | (Full part, st') \<Rightarrow>
          if too_large frame part then Inl errFrameTooLarge else read_frame (frame @ part) st'
      | (Failed part e, st') \<Rightarrow>
          if too_large frame part then Inl errFrameTooLarge else Inl e)"
  by pat_completeness auto
termination
  by (relation "measure (\<lambda>(frame, st). length (fst st))") (auto dest: ReadSlice_shorter [OF sym])

declare read_frame.simps [simp del]

definition readReadyFrame :: "stream \<Rightarrow> gerr + string" where
  "readReadyFrame st = read_frame [] st"

text \<open>The first line with its end, or everything when there is none.\<close>

definition first_line :: "string \<Rightarrow> string" where
  "first_line data = (if LF \<in> set data then takeWhile (\<lambda>c. c \<noteq> LF) data @ [LF] else data)"


lemma first_line_long:
  assumes "LF \<notin> set (take n data)" and "n \<le> length data"
  shows "first_line data = take n data @ first_line (drop n data)"
proof -
  have "takeWhile (\<lambda>c. c \<noteq> LF) (take n data @ drop n data) = take n data @ takeWhile (\<lambda>c. c \<noteq> LF) (drop n data)"
    by (rule takeWhile_append2) (use assms(1) in auto)
  moreover have "set data = set (take n data) \<union> set (drop n data)" by (metis append_take_drop_id set_append)
  ultimately show ?thesis using assms(1) by (auto simp: first_line_def)
qed

text \<open>What the loop returns when the frame read so far still fits.\<close>

definition frame_result :: "string \<Rightarrow> string \<Rightarrow> gerr \<Rightarrow> gerr + string" where
  "frame_result frame data final =
     (if first_line data \<noteq> [] \<and> length frame + length (first_line data) > maxReadyFrameSize then Inl errFrameTooLarge
      else if LF \<in> set data then Inr (frame @ butlast (first_line data)) else Inl final)"

lemma read_frame_last:
  assumes "LF \<in> set (take buffer_size data) \<or> length data < buffer_size"
  shows "read_frame frame (data, final) = frame_result frame data final"
proof (cases "LF \<in> set (take buffer_size data)")
  case True
  then have "LF \<in> set data" by (meson in_set_takeD)
  moreover have "takeWhile (\<lambda>c. c \<noteq> LF) data = takeWhile (\<lambda>c. c \<noteq> LF) (take buffer_size data)"
    using takeWhile_append1 [of LF "take buffer_size data" "\<lambda>c. c \<noteq> LF" "drop buffer_size data"] True by simp
  ultimately show ?thesis using True
    by (subst read_frame.simps)
      (auto simp: ReadSlice_def Let_def first_line_def frame_result_def too_large_def trim_line_def suffix_def butlast_append)
next
  case False
  with assms show ?thesis
    by (subst read_frame.simps) (auto simp: ReadSlice_def Let_def first_line_def frame_result_def too_large_def)
qed

lemma frame_result_full:
  assumes no: "LF \<notin> set (take buffer_size data)" and long: "buffer_size \<le> length data"
    and fits: "\<not> too_large frame (take buffer_size data)"
  shows "frame_result (frame @ take buffer_size data) (drop buffer_size data) final = frame_result frame data final"
proof -
  have "LF \<in> set data \<longleftrightarrow> LF \<in> set (drop buffer_size data)"
    using no by (metis Un_iff append_take_drop_id set_append)
  moreover have "LF \<in> set (drop buffer_size data) \<Longrightarrow> first_line (drop buffer_size data) \<noteq> []"
    by (simp add: first_line_def)
  moreover have "take buffer_size data \<noteq> []" using long by (auto simp: buffer_size_def)
  ultimately show ?thesis
    using fits by (auto simp: frame_result_def first_line_long [OF no long] too_large_def butlast_append)
qed

lemma read_frame_correct:
  "length frame \<le> maxReadyFrameSize \<Longrightarrow> read_frame frame (data, final) = frame_result frame data final"
proof (induction "length data" arbitrary: frame data rule: less_induct)
  case less
  let ?w = "take buffer_size data"
  show ?case
  proof (cases "LF \<in> set ?w \<or> length data < buffer_size")
    case True
    then show ?thesis by (rule read_frame_last)
  next
    case False
    then have no: "LF \<notin> set ?w" and long: "buffer_size \<le> length data" by simp_all
    have w: "?w \<noteq> []" using long by (auto simp: buffer_size_def)
    have step: "read_frame frame (data, final) =
        (if too_large frame ?w then Inl errFrameTooLarge
         else read_frame (frame @ ?w) (drop buffer_size data, final))"
      using no long by (subst read_frame.simps) (simp add: ReadSlice_def Let_def)
    show ?thesis
    proof (cases "too_large frame ?w")
      case True
      with w show ?thesis by (auto simp: step frame_result_def first_line_long [OF no long] too_large_def)
    next
      case fits: False
      then have "read_frame (frame @ ?w) (drop buffer_size data, final) =
          frame_result (frame @ ?w) (drop buffer_size data) final"
        using w long by (intro less.hyps) (auto simp: too_large_def buffer_size_def)
      then show ?thesis using fits by (simp add: step frame_result_full [OF no long fits])
    qed
  qed
qed

text \<open>
  C33.  Reading the ready frame through the buffer is reading the first line, whatever its length: the
  result is the first line without its end, unless the line with its end (or, when there is none, all
  of the output) is longer than 1 MiB, which is an error, and without a line end it is the error that
  ended the output.  A frame is therefore never longer than the limit.
\<close>

theorem readReadyFrame_first_line:
  "readReadyFrame (data, final) =
     (if length (first_line data) > maxReadyFrameSize then Inl errFrameTooLarge
      else if LF \<in> set data then Inr (takeWhile (\<lambda>c. c \<noteq> LF) data) else Inl final)"
  using read_frame_correct [of "[]" data final]
  by (cases "first_line data = []") (auto simp: readReadyFrame_def frame_result_def first_line_def)

section \<open>The ready frame\<close>

record ready_fields =
  rf_type :: string
  rf_protocol :: "int option"

definition set_ready :: "string \<Rightarrow> json \<Rightarrow> ready_fields \<Rightarrow> gerr + ready_fields" where
  "set_ready k v r =
     (if k = ''TYPE'' then rbind (set_string v (rf_type r)) (\<lambda>s. Inr (r\<lparr>rf_type := s\<rparr>))
      else if k = ''PROTOCOLVERSION'' then rbind (set_int_ptr v) (\<lambda>p. Inr (r\<lparr>rf_protocol := p\<rparr>))
      else Inr r)"

definition readyFrame :: "string \<Rightarrow> gerr + bool" where
  "readyFrame data =
     rbind (json_Unmarshal (set_struct set_ready \<lparr>rf_type = '''', rf_protocol = None\<rparr>) data) (\<lambda>frame.
     if rf_type frame \<noteq> ''ready'' then Inl (ErrNew ''ready frame was not advertised'')
     else case rf_protocol frame of
       None \<Rightarrow> Inl errProtocolUnavailable
     | Some n \<Rightarrow> Inr (n = 1))"

section \<open>The probe\<close>

text \<open>What the operating system answers, and what the process writes.\<close>

record omp_env =
  om_lookpath :: "gerr + string"
  om_pipe :: "gerr option"
  om_stdin :: "gerr option"
  om_start :: "gerr option"
  om_output :: stream
  om_close_stdin :: "gerr option"
  om_wait :: "gerr option"

text \<open>The effects of the probe, in order.\<close>

datatype omp_action = OpenPipe | StartProcess | CloseReader | CloseWriter | CloseStdin | Cancel | Wait

definition omp_failed :: "string \<Rightarrow> gerr option \<Rightarrow> outcome" where
  "omp_failed reason cause = ('''', doctor_NewFailure reason cause)"

text \<open>\<open>closeReader\<close> takes effect once.\<close>

definition closeReader :: "omp_action list \<Rightarrow> omp_action list" where
  "closeReader tr = (if CloseReader \<in> set tr then tr else tr @ [CloseReader])"

text \<open>The deferred calls of \<open>probe\<close> after the process has been started, and \<open>stopBeforeReady\<close>.\<close>

definition omp_return :: "omp_action list \<Rightarrow> outcome \<Rightarrow> outcome \<times> omp_action list" where
  "omp_return tr out = (out, closeReader tr @ [Cancel])"

definition stopBeforeReady :: "omp_action list \<Rightarrow> string \<Rightarrow> gerr option \<Rightarrow> outcome \<times> omp_action list" where
  "stopBeforeReady tr reason cause = omp_return (closeReader (tr @ [Cancel, Wait])) (omp_failed reason cause)"

text \<open>From the start of the process on.\<close>

definition omp_started :: "omp_env \<Rightarrow> omp_action list \<Rightarrow> outcome \<times> omp_action list" where
  "omp_started env tr =
     (case readReadyFrame (om_output env) of
        Inl frameErr \<Rightarrow> stopBeforeReady tr ''OMP RPC did not become ready'' (Some frameErr)
      | Inr frame \<Rightarrow>
          (case readyFrame frame of
             Inl protocolErr \<Rightarrow>
               if errors_is protocolErr errProtocolUnavailable
               then stopBeforeReady tr ''OMP RPC protocol 1 is unavailable'' (Some protocolErr)
               else stopBeforeReady tr ''OMP RPC did not become ready'' (Some protocolErr)
           | Inr ready \<Rightarrow>
               if \<not> ready then stopBeforeReady tr ''OMP RPC protocol 1 is unavailable'' None
               else (case om_close_stdin env of
                   Some e \<Rightarrow> stopBeforeReady (tr @ [CloseStdin]) ''OMP RPC did not shut down cleanly'' (Some e)
                 | None \<Rightarrow>
                     (let tr' = closeReader (tr @ [CloseStdin, Wait]) in
                      case om_wait env of
                        Some e \<Rightarrow> omp_return tr' (omp_failed ''OMP RPC did not shut down cleanly'' (Some e))
                      | None \<Rightarrow> omp_return tr' (''OMP RPC protocol 1'', None)))))"

definition omp_probe :: "omp_env \<Rightarrow> outcome \<times> omp_action list" where
  "omp_probe env =
     (case om_lookpath env of
        Inl e \<Rightarrow> (omp_failed ''omp executable was not found'' (Some e), [])
      | Inr executable \<Rightarrow>
     (case om_pipe env of
        Some e \<Rightarrow> (omp_failed ''OMP RPC did not become ready'' (Some e), [Cancel])
      | None \<Rightarrow>
     (case om_stdin env of
        Some e \<Rightarrow> (omp_failed ''OMP RPC did not become ready'' (Some e), [OpenPipe, CloseReader, CloseWriter, Cancel])
      | None \<Rightarrow>
     (case om_start env of
        Some e \<Rightarrow> (omp_failed ''OMP RPC did not become ready'' (Some e), [OpenPipe, CloseReader, CloseWriter, Cancel])
      | None \<Rightarrow> omp_started env [OpenPipe, StartProcess, CloseWriter]))))"

definition omp_NewDoctorCheck :: "string \<Rightarrow> omp_env \<Rightarrow> check" where
  "omp_NewDoctorCheck name env =
     \<lparr>ck_id = ''agent_runtime.'' @ name, ck_probe = Some (\<lambda>ctx. fst (omp_probe env))\<rparr>"

section \<open>The probe, proved\<close>

text \<open>Nothing is left behind: the process has been waited for, both ends of the pipe are closed.\<close>

definition released :: "omp_action list \<Rightarrow> bool" where
  "released tr \<longleftrightarrow>
     count_list tr Wait = count_list tr StartProcess \<and>
     count_list tr CloseReader = count_list tr OpenPipe \<and>
     count_list tr CloseWriter = count_list tr OpenPipe \<and>
     (tr = [] \<or> last tr = Cancel)"

text \<open>When the process is ready: all calls succeed and its first line advertises protocol 1.\<close>

definition omp_ready :: "omp_env \<Rightarrow> bool" where
  "omp_ready env \<longleftrightarrow>
     is_ok (om_lookpath env) \<and> om_pipe env = None \<and> om_stdin env = None \<and> om_start env = None \<and>
     om_close_stdin env = None \<and> om_wait env = None \<and>
     (case om_output env of (data, final) \<Rightarrow>
        LF \<in> set data \<and> length (takeWhile (\<lambda>c. c \<noteq> LF) data) < maxReadyFrameSize \<and>
        readyFrame (takeWhile (\<lambda>c. c \<noteq> LF) data) = Inr True)"

text \<open>
  C32.  The agent runtime diagnosis passes exactly when every call of the operating system succeeds and
  the first line of the agent's output (at most 1 MiB with its end) advertises protocol 1; otherwise it
  fails with one of four fixed reasons.  On every path a process that was started has been waited for,
  both ends of the pipe have been closed exactly once, and the probe's context has been cancelled last.
\<close>

theorem omp_probe_correct:
  "released (snd (omp_probe env)) \<and>
   (case fst (omp_probe env) of
      (detail, None) \<Rightarrow> omp_ready env \<and> detail = ''OMP RPC protocol 1''
    | (detail, Some f) \<Rightarrow> \<not> omp_ready env \<and> detail = '''' \<and> df_reason f \<in> {''omp executable was not found'',
        ''OMP RPC did not become ready'', ''OMP RPC protocol 1 is unavailable'', ''OMP RPC did not shut down cleanly''})"
proof -
  obtain data final where out: "om_output env = (data, final)" by fastforce
  have len: "length (first_line data) = Suc (length (takeWhile (\<lambda>c. c \<noteq> LF) data))" if "LF \<in> set data"
    using that by (simp add: first_line_def)
  have started: "released (snd (omp_started env [OpenPipe, StartProcess, CloseWriter])) \<and>
    (case fst (omp_started env [OpenPipe, StartProcess, CloseWriter]) of
      (detail, None) \<Rightarrow> detail = ''OMP RPC protocol 1'' \<and> om_close_stdin env = None \<and> om_wait env = None \<and>
        (\<exists>frame. readReadyFrame (om_output env) = Inr frame \<and> readyFrame frame = Inr True)
    | (detail, Some f) \<Rightarrow> \<not> (om_close_stdin env = None \<and> om_wait env = None \<and>
        (\<exists>frame. readReadyFrame (om_output env) = Inr frame \<and> readyFrame frame = Inr True)) \<and>
        detail = '''' \<and> df_reason f \<in> {''omp executable was not found'',
        ''OMP RPC did not become ready'', ''OMP RPC protocol 1 is unavailable'', ''OMP RPC did not shut down cleanly''})"
    by (auto simp: omp_started_def omp_return_def stopBeforeReady_def closeReader_def released_def omp_failed_def
        doctor_NewFailure_def Let_def split: sum.split option.split)
  have ready: "(\<exists>frame. readReadyFrame (om_output env) = Inr frame \<and> readyFrame frame = Inr True) \<longleftrightarrow>
      LF \<in> set data \<and> length (takeWhile (\<lambda>c. c \<noteq> LF) data) < maxReadyFrameSize \<and>
        readyFrame (takeWhile (\<lambda>c. c \<noteq> LF) data) = Inr True"
    by (auto simp: out readReadyFrame_first_line len)
  show ?thesis
    using started unfolding ready
    by (auto simp: omp_probe_def omp_ready_def out released_def omp_failed_def doctor_NewFailure_def
        split: sum.splits option.splits)
qed

end
