(* ===== verification/Go_Base64.thy ===== *)
theory Go_Base64
  imports Prelude
begin

text \<open>
  Go's \<open>base64.RawURLEncoding\<close>: the encoding the program uses, with the decoding as its reference and
  the round trip.
\<close>

definition b64_char :: "nat \<Rightarrow> char" where
  "b64_char n =
     (if n < 26 then char_of (65 + n) else if n < 52 then char_of (71 + n) else if n < 62 then char_of (n - 4)
      else if n = 62 then CHR ''-'' else CHR ''_'')"

fun RawURL_encode :: "string \<Rightarrow> string" where
  "RawURL_encode [] = []"
| "RawURL_encode [a] = [b64_char (byte a div 4), b64_char (byte a mod 4 * 16)]"
| "RawURL_encode [a, b] =
     [b64_char (byte a div 4), b64_char (byte a mod 4 * 16 + byte b div 16), b64_char (byte b mod 16 * 4)]"
| "RawURL_encode (a # b # c # s) =
     b64_char (byte a div 4) # b64_char (byte a mod 4 * 16 + byte b div 16) #
     b64_char (byte b mod 16 * 4 + byte c div 64) # b64_char (byte c mod 64) # RawURL_encode s"

definition b64_val :: "char \<Rightarrow> nat option" where
  "b64_val c =
     (if 65 \<le> byte c \<and> byte c \<le> 90 then Some (byte c - 65)
      else if 97 \<le> byte c \<and> byte c \<le> 122 then Some (byte c - 71)
      else if 48 \<le> byte c \<and> byte c \<le> 57 then Some (byte c + 4)
      else if c = CHR ''-'' then Some 62 else if c = CHR ''_'' then Some 63 else None)"

text \<open>Groups of four sextets, and a last one of two or three.\<close>

fun sextets :: "nat list \<Rightarrow> string option" where
  "sextets [] = Some []"
| "sextets [w, x] = Some [char_of (w * 4 + x div 16)]"
| "sextets [w, x, y] = Some [char_of (w * 4 + x div 16), char_of (x mod 16 * 16 + y div 4)]"
| "sextets (w # x # y # z # s) =
     map_option (\<lambda>r. char_of (w * 4 + x div 16) # char_of (x mod 16 * 16 + y div 4) # char_of (y mod 4 * 64 + z) # r)
       (sextets s)"
| "sextets [w] = None"

definition RawURL_decode :: "string \<Rightarrow> string option" where
  "RawURL_decode s =
     (let vs = map b64_val s in if None \<in> set vs then None else sextets (map the vs))"

lemma b64_val_char [simp]: "n < 64 \<Longrightarrow> b64_val (b64_char n) = Some n"
proof -
  have b: "k < 256 \<Longrightarrow> byte (char_of k) = k" for k by (simp add: byte_def)
  consider "n < 26" | "26 \<le> n" "n < 52" | "52 \<le> n" "n < 62" | "n = 62" | "n = 63" | "64 \<le> n" by linarith
  then show "n < 64 \<Longrightarrow> ?thesis"
    by cases (simp_all add: b64_char_def b64_val_def b, auto simp: byte_def)
qed

lemma byte_parts:
  "byte a div 4 < 64" "byte a mod 4 * 16 + byte b div 16 < 64" "byte b mod 16 * 4 + byte c div 64 < 64"
  "byte c mod 64 < 64" "byte a mod 4 * 16 < 64" "byte b mod 16 * 4 < 64"
proof -
  have q: "byte b div 16 < 16" "byte c div 64 < 4" using byte_less [of b] byte_less [of c] by auto
  have r: "byte a mod 4 < 4" "byte b mod 16 < 16" by simp_all
  show "byte a div 4 < 64" using byte_less [of a] by auto
  show "byte a mod 4 * 16 + byte b div 16 < 64" "byte b mod 16 * 4 + byte c div 64 < 64"
    "byte a mod 4 * 16 < 64" "byte b mod 16 * 4 < 64" using q r by linarith+
qed simp

lemma encode_vals: "\<forall>x \<in> set (RawURL_encode s). \<exists>n < 64. x = b64_char n"
proof -
  have b: "n < 64 \<Longrightarrow> \<exists>m < 64. b64_char n = b64_char m" for n by blast
  show ?thesis
    by (induction s rule: RawURL_encode.induct) (simp_all only: RawURL_encode.simps list.set ball_simps byte_parts b simp_thms)
qed

lemma byte_join:
  "char_of (byte a div 4 * 4 + (byte a mod 4 * 16 + byte b div 16) div 16) = a"
  "char_of ((byte a mod 4 * 16 + byte b div 16) mod 16 * 16 + (byte b mod 16 * 4 + byte c div 64) div 4) = b"
  "char_of ((byte b mod 16 * 4 + byte c div 64) mod 4 * 64 + byte c mod 64) = c"
proof -
  have "byte b div 16 < 16" "byte c div 64 < 4" using byte_less [of b] byte_less [of c] by auto
  then have "byte a div 4 * 4 + (byte a mod 4 * 16 + byte b div 16) div 16 = byte a"
    "(byte a mod 4 * 16 + byte b div 16) mod 16 * 16 + (byte b mod 16 * 4 + byte c div 64) div 4 = byte b"
    "(byte b mod 16 * 4 + byte c div 64) mod 4 * 64 + byte c mod 64 = byte c" by simp_all
  then show "char_of (byte a div 4 * 4 + (byte a mod 4 * 16 + byte b div 16) div 16) = a"
    "char_of ((byte a mod 4 * 16 + byte b div 16) mod 16 * 16 + (byte b mod 16 * 4 + byte c div 64) div 4) = b"
    "char_of ((byte b mod 16 * 4 + byte c div 64) mod 4 * 64 + byte c mod 64) = c" by (simp_all add: byte_def)
qed

lemma RawURL_decode_encode: "RawURL_decode (RawURL_encode s) = Some s"
proof -
  have char_of_byte: "char_of (byte a) = a" for a by (simp add: byte_def)
  have "sextets (map (the \<circ> b64_val) (RawURL_encode s)) = Some s"
  proof (induction s rule: RawURL_encode.induct)
    case (2 a)
    then show ?case by (simp add: byte_parts char_of_byte)
  next
    case (3 a b)
    have "byte b div 16 < 16" using byte_less [of b] by auto
    then show ?case using byte_join(1) [of a b] by (simp add: byte_parts char_of_byte)
  next
    case (4 a b c s)
    then show ?case using byte_join(1) [of a b] byte_join(2) [of a b c] byte_join(3) [of b c] by (simp add: byte_parts)
  qed simp
  moreover have "None \<notin> b64_val ` set (RawURL_encode s)" using encode_vals [of s] by force
  ultimately show ?thesis by (simp add: RawURL_decode_def)
qed

lemma encode_no_dot: "CHR ''.'' \<notin> set (RawURL_encode s)"
proof
  assume "CHR ''.'' \<in> set (RawURL_encode s)"
  then obtain n where "n < 64" "CHR ''.'' = b64_char n" using encode_vals by blast
  then have "b64_val CHR ''.'' = Some n" using b64_val_char by metis
  then show False by (simp add: b64_val_def byte_def)
qed

end
