(* ===== verification/Github_Auth.thy ===== *)
theory Github_Auth
  imports Doctor_Report Json_Struct Go_Path Go_Url Go_Base64
begin

text \<open>
  \<open>internal/connector/github/auth.go\<close> and \<open>doctor.go\<close>: loading the private key of the GitHub App, the
  signed token, and the diagnosis.  The file system, the cryptography (PEM, key formats, SHA-256, the
  signature), the clock and the HTTP client are arguments; the JSON and the base64 of the token are not.
\<close>

section \<open>The environment\<close>

record github_Config =
  gc_app_id :: int
  gc_private_key_file :: string

record http_request =
  rq_method :: string
  rq_url :: string
  rq_headers :: "(string \<times> string) list"
  rq_body :: "string option"
  rq_timeout :: int
  rq_follow_redirects :: bool

text \<open>A response: status, \<open>Header.Get\<close>, the bytes before the end or the error of the body, and the
  error of closing it.\<close>

record http_response =
  hr_status :: int
  hr_header :: "string \<Rightarrow> string"
  hr_body :: string
  hr_read :: "gerr option"
  hr_close :: "gerr option"

text \<open>
  \<open>ge_stat\<close> is whether a file is regular, its size and its permission bits.  The keys are the type
  \<open>'k\<close>; \<open>ge_pkcs8\<close> is \<open>None\<close> for a key that is not RSA.  The counters of the clock and of the client
  count the calls.
\<close>

record 'k github_env =
  ge_stat :: "string \<Rightarrow> gerr + (bool \<times> int \<times> nat)"
  ge_read :: "string \<Rightarrow> gerr + string"
  ge_windows :: bool
  ge_pem :: "string \<Rightarrow> (string \<times> string \<times> string) option"
  ge_pkcs1 :: "string \<Rightarrow> gerr + 'k"
  ge_pkcs8 :: "string \<Rightarrow> gerr + 'k option"
  ge_sha256 :: "string \<Rightarrow> string"
  ge_sign :: "'k \<Rightarrow> string \<Rightarrow> gerr + string"
  ge_now :: "nat \<Rightarrow> gotime"
  ge_new_request :: "string \<Rightarrow> gerr option"
  ge_do :: "nat \<Rightarrow> http_request \<Rightarrow> gerr + http_response"

section \<open>The private key\<close>

definition maxPrivateKeySize :: nat where "maxPrivateKeySize = 64 * 1024"
definition maxAPIResponseSize :: nat where "maxAPIResponseSize = 1024 * 1024"

definition defaultAPIBaseURL :: string where "defaultAPIBaseURL = ''https://api.github.com''"

definition parseRSAKey :: "'k github_env \<Rightarrow> string \<Rightarrow> gerr + 'k" where
  "parseRSAKey env data =
     (case ge_pem env data of
        None \<Rightarrow> Inl (ErrNew ''invalid PEM'')
      | Some (typ, bytes, rest) \<Rightarrow>
          if trim_space rest \<noteq> [] then Inl (ErrNew ''invalid PEM'')
          else if typ = ''RSA PRIVATE KEY'' then ge_pkcs1 env bytes
          else if typ = ''PRIVATE KEY'' then
            (case ge_pkcs8 env bytes of
               Inl e \<Rightarrow> Inl e
             | Inr None \<Rightarrow> Inl (ErrNew ''private key is not RSA'')
             | Inr (Some key) \<Rightarrow> Inr key)
          else Inl (ErrNew ''unsupported private key PEM type''))"

definition key_path :: "github_Config \<Rightarrow> string \<Rightarrow> string" where
  "key_path cfg dir =
     (if filepath_IsAbs (gc_private_key_file cfg) then gc_private_key_file cfg
      else filepath_Join [dir, gc_private_key_file cfg])"

text \<open>An error is the reason and the cause that are returned beside a nil key.\<close>

definition loadPrivateKey :: "'k github_env \<Rightarrow> github_Config \<Rightarrow> string \<Rightarrow> (string \<times> gerr option) + 'k" where
  "loadPrivateKey env cfg dir =
     (if gc_app_id cfg \<le> 0 then Inl (''app_id must be positive'', None)
      else if gc_private_key_file cfg = '''' then Inl (''private_key_file is required'', None)
      else
        (let keyPath = key_path cfg dir in
         (case ge_stat env keyPath of
            Inl e \<Rightarrow> Inl (''private key file is unreadable'', Some e)
          | Inr (regular, fileSize, perm) \<Rightarrow>
              if \<not> regular \<or> fileSize > int maxPrivateKeySize
              then Inl (''private key file is unreadable'', Some (ErrNew ''private key file is not a usable regular file''))
              else if \<not> ge_windows env \<and> perm mod 64 \<noteq> 0
              then Inl (''private key file permissions are too broad'', None)
              else
                (case ge_read env keyPath of
                   Inl e \<Rightarrow> Inl (''private key file is unreadable'', Some e)
                 | Inr keyBytes \<Rightarrow>
                     if length keyBytes > maxPrivateKeySize then Inl (''private key file is unreadable'', None)
                     else map_err (\<lambda>e. (''private key is invalid'', Some e)) (parseRSAKey env keyBytes)))))"

section \<open>The signed token\<close>

text \<open>\<open>Time.Unix\<close>.\<close>

definition time_Unix :: "gotime \<Rightarrow> int" where
  "time_Unix t = t_sec t - 62135596800"

definition jwt_header :: json where
  "jwt_header = JObj [(''alg'', JStr ''RS256''), (''typ'', JStr ''JWT'')]"

definition jwt_claims :: "int \<Rightarrow> gotime \<Rightarrow> json" where
  "jwt_claims appID now =
     JObj [(''iat'', JNum (dec_int (time_Unix now - 60))), (''exp'', JNum (dec_int (time_Unix now + 9 * 60))),
           (''iss'', JStr (dec_int appID))]"

definition appJWT :: "'k github_env \<Rightarrow> 'k \<Rightarrow> int \<Rightarrow> gotime \<Rightarrow> gerr + string" where
  "appJWT env key appID now =
     (let headerPart = RawURL_encode (enc True jwt_header);
          claimsPart = RawURL_encode (enc True (jwt_claims appID now));
          unsigned = headerPart @ ''.'' @ claimsPart;
          digest = ge_sha256 env unsigned in
      rbind (ge_sign env key digest) (\<lambda>signature.
      Inr (unsigned @ ''.'' @ RawURL_encode signature)))"

section \<open>The diagnosis\<close>

definition trim_right_slashes :: "string \<Rightarrow> string" where
  "trim_right_slashes s = rev (dropWhile (\<lambda>c. c = CHR ''/'') (rev s))"

text \<open>\<open>io.ReadAll(io.LimitReader(body, limit + 1))\<close>.\<close>

definition read_limited :: "nat \<Rightarrow> http_response \<Rightarrow> gerr + string" where
  "read_limited limit r =
     (if length (hr_body r) > limit then Inr (take (limit + 1) (hr_body r))
      else case hr_read r of Some e \<Rightarrow> Inl e | None \<Rightarrow> Inr (hr_body r))"

definition githubRateLimited :: "http_response \<Rightarrow> bool" where
  "githubRateLimited r \<longleftrightarrow>
     trim_space (hr_header r ''X-RateLimit-Remaining'') = ''0'' \<or> trim_space (hr_header r ''Retry-After'') \<noteq> ''''"

text \<open>The struct with the field \<open>ID *int64\<close>.\<close>

definition set_id :: "string \<Rightarrow> json \<Rightarrow> int option \<Rightarrow> gerr + int option" where
  "set_id k v r = (if k = ''ID'' then set_int_ptr v else Inr r)"

definition identity_id :: "string \<Rightarrow> gerr + int option" where
  "identity_id body = json_Unmarshal (set_struct set_id None) body"

definition github_failed :: "string \<Rightarrow> gerr option \<Rightarrow> outcome" where
  "github_failed reason cause = ('''', doctor_NewFailure reason cause)"

definition doctor_request :: "string \<Rightarrow> int \<Rightarrow> string \<Rightarrow> http_request" where
  "doctor_request endpoint timeout jwt =
     \<lparr>rq_method = ''GET'', rq_url = endpoint,
      rq_headers = [(''Authorization'', ''Bearer '' @ jwt), (''Accept'', ''application/vnd.github+json''),
                    (''X-GitHub-Api-Version'', ''2026-03-10''), (''User-Agent'', ''delegatd/doctor'')],
      rq_body = None, rq_timeout = timeout, rq_follow_redirects = False\<rparr>"

definition check_app_response :: "github_Config \<Rightarrow> http_response \<Rightarrow> outcome" where
  "check_app_response cfg response =
     (if hr_status response = 429 \<or> (hr_status response = 403 \<and> githubRateLimited response)
      then github_failed ''GitHub API is unavailable'' None
      else if hr_status response = 401 \<or> hr_status response = 403
      then github_failed ''GitHub App authentication was rejected'' None
      else if hr_status response \<noteq> 200
      then github_failed (''GitHub App check returned HTTP '' @ dec_int (hr_status response)) None
      else
        (case read_limited maxAPIResponseSize response of
           Inl e \<Rightarrow> github_failed ''GitHub App response is invalid'' (Some e)
         | Inr body \<Rightarrow>
             if length body > maxAPIResponseSize then github_failed ''GitHub App response is invalid'' None
             else (case identity_id body of
                 Inl e \<Rightarrow> github_failed ''GitHub App response is invalid'' (Some e)
               | Inr None \<Rightarrow> github_failed ''GitHub App response is invalid'' None
               | Inr (Some i) \<Rightarrow>
                   if i \<noteq> gc_app_id cfg then github_failed ''GitHub App identity does not match app_id'' None
                   else (''GitHub App authenticated'', None))))"

text \<open>The outcome and the requests sent; the options are the base URL and the client's own timeout.\<close>

definition github_probe ::
  "'k github_env \<Rightarrow> string \<Rightarrow> int \<Rightarrow> github_Config \<Rightarrow> string \<Rightarrow> outcome \<times> http_request list"
where
  "github_probe env baseURL timeout cfg dir =
     (case loadPrivateKey env cfg dir of
        Inl (reason, err) \<Rightarrow> (github_failed reason err, [])
      | Inr key \<Rightarrow>
          (case appJWT env key (gc_app_id cfg) (ge_now env 0) of
             Inl e \<Rightarrow> (github_failed ''private key is invalid'' (Some e), [])
           | Inr jwt \<Rightarrow>
               (let endpoint = trim_right_slashes baseURL @ ''/app'' in
                case ge_new_request env endpoint of
                  Some e \<Rightarrow> (github_failed ''GitHub API is unavailable'' (Some e), [])
                | None \<Rightarrow>
                    (let request = doctor_request endpoint timeout jwt in
                     ((case ge_do env 0 request of
                         Inl e \<Rightarrow> github_failed ''GitHub API is unavailable'' (Some e)
                       | Inr response \<Rightarrow> check_app_response cfg response),
                      [request])))))"

text \<open>
  \<open>doctorOptions\<close>: a nil clock or client is \<open>None\<close>; of the client only its timeout matters, which
  \<open>http.DefaultClient\<close> does not have.
\<close>

record doctorOptions =
  dp_now :: "(nat \<Rightarrow> gotime) option"
  dp_client :: "int option"
  dp_base_url :: string

definition newDoctorCheck ::
  "'k github_env \<Rightarrow> string \<Rightarrow> github_Config \<Rightarrow> string \<Rightarrow> doctorOptions \<Rightarrow> check"
where
  "newDoctorCheck env name cfg dir options =
     (let now = (case dp_now options of None \<Rightarrow> ge_now env | Some f \<Rightarrow> f);
          client = (case dp_client options of None \<Rightarrow> 0 | Some t \<Rightarrow> t);
          baseURL = (if dp_base_url options = '''' then defaultAPIBaseURL else dp_base_url options) in
      \<lparr>ck_id = ''connector.'' @ name,
       ck_probe = Some (\<lambda>ctx. fst (github_probe (env\<lparr>ge_now := now\<rparr>) baseURL client cfg dir))\<rparr>)"

definition github_NewDoctorCheck :: "'k github_env \<Rightarrow> string \<Rightarrow> github_Config \<Rightarrow> string \<Rightarrow> check" where
  "github_NewDoctorCheck env name cfg dir =
     newDoctorCheck env name cfg dir \<lparr>dp_now = Some (ge_now env), dp_client = Some 0, dp_base_url = defaultAPIBaseURL\<rparr>"

lemma github_NewDoctorCheck_probe:
  "github_NewDoctorCheck env name cfg dir =
     \<lparr>ck_id = ''connector.'' @ name, ck_probe = Some (\<lambda>ctx. fst (github_probe env defaultAPIBaseURL 0 cfg dir))\<rparr>"
  by (simp add: github_NewDoctorCheck_def newDoctorCheck_def defaultAPIBaseURL_def)


section \<open>The signed token, proved\<close>

lemma dec_nat_zero_head: "dec_nat n = CHR ''0'' # r \<Longrightarrow> n = 0 \<and> r = []"
proof (induction n arbitrary: r rule: dec_nat.induct)
  case (1 n)
  show ?case
  proof (cases "n < 10")
    case True
    then have "digit n = CHR ''0'' \<and> r = []" using 1(2) by (simp add: dec_nat.simps [of n])
    with True byte_digit [of n] show ?thesis by (simp add: byte_def)
  next
    case False
    then have d: "dec_nat (n div 10) @ [digit (n mod 10)] = CHR ''0'' # r" using 1(2) by (simp add: dec_nat.simps [of n])
    then obtain r' where "dec_nat (n div 10) = CHR ''0'' # r'" using dec_nat_nonempty [of "n div 10"] by (cases "dec_nat (n div 10)") auto
    with 1(1) [OF False, of r'] have "n div 10 = 0" by simp
    with False show ?thesis by simp
  qed
qed

lemma num_int_dec_nat: "num_int (dec_nat n) = Some (dec_nat n, [])"
proof -
  obtain c r where d: "dec_nat n = c # r" using dec_nat_nonempty [of n] by (cases "dec_nat n") auto
  have digits: "\<forall>x \<in> set (dec_nat n). is_digit x" using dec_nat_is_dec by (auto simp: is_dec_def is_digit_def)
  then have "takeWhile is_digit (c # r) = c # r" "dropWhile is_digit (c # r) = []"
    unfolding d by (simp_all add: takeWhile_eq_all_conv dropWhile_eq_Nil_conv)
  moreover have "is_digit c" using digits d by simp
  moreover have "c = CHR ''0'' \<Longrightarrow> r = []" using dec_nat_zero_head d by blast
  ultimately show ?thesis by (simp add: num_int_def d)
qed

lemma num_ok_dec_int: "num_ok (dec_int i)"
proof -
  obtain c r where d: "dec_nat (nat i) = c # r" "is_dec c" using dec_nat_head by blast
  have "num_frac [] = Some ([], [])" "num_exp [] = Some ([], [])" by (simp_all add: num_frac_def num_exp_def)
  then show ?thesis
    using num_int_dec_nat [of "nat i"] num_int_dec_nat [of "nat (- i)"] d is_dec_head [OF d(2)]
    by (auto simp: num_ok_def parse_num_def num_sign_def dec_int_def)
qed

lemma dec_int_ascii: "utf8_valid (dec_int i)"
proof (rule ascii_valid)
  fix c
  assume "c \<in> set (dec_int i)"
  then have "c = CHR ''-'' \<or> is_dec c" by (auto simp: dec_int_def dest: dec_nat_is_dec split: if_splits)
  then show "byte c < 128" by (auto simp: is_dec_def byte_def)
qed

lemma jwt_header_read: "json_value (enc True jwt_header) = Inr jwt_header"
  by (rule json_value_enc) (auto simp: jwt_header_def max_depth_def json_depth.simps byte_def intro!: ascii_valid)

lemma jwt_claims_read: "json_value (enc True (jwt_claims appID now)) = Inr (jwt_claims appID now)"
  by (rule json_value_enc)
    (auto simp: jwt_claims_def max_depth_def json_depth.simps num_ok_dec_int dec_int_ascii byte_def intro!: ascii_valid)

text \<open>
  C27.  The token of the GitHub App: three base64url parts between dots, the header (RS256), the claims and
  the signature of the SHA-256 digest of the first two parts by the loaded key.  It names the configured
  App, is valid at the time it is made and for ten minutes in all.  Signing is all that can fail.
\<close>

theorem appJWT_correct:
  "case appJWT env key appID now of
     Inl e \<Rightarrow> \<exists>digest. ge_sign env key digest = Inl e
   | Inr token \<Rightarrow> \<exists>h c s header claims signature iat exp.
       split_on CHR ''.'' token = [h, c, s] \<and>
       RawURL_decode h = Some header \<and> json_value header = Inr jwt_header \<and>
       RawURL_decode c = Some claims \<and>
       json_value claims = Inr (JObj [(''iat'', JNum (dec_int iat)), (''exp'', JNum (dec_int exp)), (''iss'', JStr (dec_int appID))]) \<and>
       iat < time_Unix now \<and> time_Unix now < exp \<and> exp = iat + 600 \<and>
       RawURL_decode s = Some signature \<and> ge_sign env key (ge_sha256 env (h @ ''.'' @ c)) = Inr signature"
proof (cases "appJWT env key appID now")
  case (Inl e)
  then show ?thesis by (auto simp: appJWT_def Let_def rbind_eq_Inl)
next
  case (Inr token)
  let ?h = "RawURL_encode (enc True jwt_header)" and ?c = "RawURL_encode (enc True (jwt_claims appID now))"
  obtain signature where s: "ge_sign env key (ge_sha256 env (?h @ ''.'' @ ?c)) = Inr signature"
    "token = ?h @ CHR ''.'' # ?c @ CHR ''.'' # RawURL_encode signature"
    using Inr by (auto simp: appJWT_def Let_def rbind_eq_Inr)
  have parts: "split_on CHR ''.'' token = [?h, ?c, RawURL_encode signature]"
    by (simp add: s(2) split_on_append_sep split_on_no_sep encode_no_dot)
  have claims: "json_value (enc True (jwt_claims appID now)) =
      Inr (JObj [(''iat'', JNum (dec_int (time_Unix now - 60))), (''exp'', JNum (dec_int (time_Unix now + 540))),
                 (''iss'', JStr (dec_int appID))])"
    using jwt_claims_read [of appID now] by (simp only: jwt_claims_def) simp
  show ?thesis
    unfolding Inr sum.case
    by (intro exI conjI, rule parts, rule RawURL_decode_encode, rule jwt_header_read, rule RawURL_decode_encode,
        rule claims) (simp_all add: RawURL_decode_encode s(1) [unfolded append.simps])
qed

section \<open>The diagnosis, proved\<close>

text \<open>When the key file is usable, and the key it holds.\<close>

definition key_usable :: "'k github_env \<Rightarrow> github_Config \<Rightarrow> string \<Rightarrow> 'k \<Rightarrow> bool" where
  "key_usable env cfg dir key \<longleftrightarrow>
     0 < gc_app_id cfg \<and> gc_private_key_file cfg \<noteq> '''' \<and>
     (\<exists>fileSize perm. ge_stat env (key_path cfg dir) = Inr (True, fileSize, perm) \<and> fileSize \<le> int maxPrivateKeySize \<and>
        (ge_windows env \<or> perm mod 64 = 0)) \<and>
     (\<exists>keyBytes. ge_read env (key_path cfg dir) = Inr keyBytes \<and> length keyBytes \<le> maxPrivateKeySize \<and>
        parseRSAKey env keyBytes = Inr key)"

definition key_reasons :: "string set" where
  "key_reasons =
     {''app_id must be positive'', ''private_key_file is required'', ''private key file is unreadable'',
      ''private key file permissions are too broad'', ''private key is invalid''}"

lemma loadPrivateKey_Inr: "loadPrivateKey env cfg dir = Inr key \<longleftrightarrow> key_usable env cfg dir key"
  by (cases "ge_stat env (key_path cfg dir)"; cases "ge_read env (key_path cfg dir)")
    (auto simp: loadPrivateKey_def key_usable_def Let_def map_err_eq_Inr split: if_splits)

lemma loadPrivateKey_Inl: "loadPrivateKey env cfg dir = Inl (reason, e) \<Longrightarrow> reason \<in> key_reasons"
  by (cases "ge_stat env (key_path cfg dir)"; cases "ge_read env (key_path cfg dir)")
    (auto simp: loadPrivateKey_def Let_def map_err_eq_Inl key_reasons_def split: if_splits)

definition app_confirmed :: "github_Config \<Rightarrow> http_response \<Rightarrow> bool" where
  "app_confirmed cfg response \<longleftrightarrow>
     hr_status response = 200 \<and> length (hr_body response) \<le> maxAPIResponseSize \<and> hr_read response = None \<and>
     identity_id (hr_body response) = Inr (Some (gc_app_id cfg))"

definition app_reasons :: "string set" where
  "app_reasons =
     {''GitHub API is unavailable'', ''GitHub App authentication was rejected'', ''GitHub App response is invalid'',
      ''GitHub App identity does not match app_id''} \<union> {''GitHub App check returned HTTP '' @ dec_int n |n. True}"

lemma check_app_response_cases:
  "case check_app_response cfg response of
     (detail, None) \<Rightarrow> app_confirmed cfg response \<and> detail = ''GitHub App authenticated''
   | (detail, Some f) \<Rightarrow> \<not> app_confirmed cfg response \<and> detail = '''' \<and> df_reason f \<in> app_reasons"
  by (auto simp: check_app_response_def app_confirmed_def github_failed_def doctor_NewFailure_def read_limited_def
      app_reasons_def not_less min_def split: sum.splits option.splits)


end
