(* ===== verification/Go_Instant.thy ===== *)
theory Go_Instant
  imports Go_Time
begin

text \<open>
  \<open>time.Parse(time.RFC3339, value)\<close> with its numeric zones, as the instant it denotes, and
  \<open>Time.After\<close>.  The layout without a fraction still accepts one in the value.
\<close>

text \<open>The zone at the end of the value: \<open>Z\<close> or an offset in hours and minutes.\<close>

definition parse_zone :: "string \<Rightarrow> int option" where
  "parse_zone s =
     (if s = ''Z'' then Some 0
      else case s of
        [g, a, b, c, d, e] \<Rightarrow>
          if c = CHR '':'' \<and> (g = CHR ''+'' \<or> g = CHR ''-'') then
            (case (getnum True [a, b], getnum True [d, e]) of
               (Some (h, _), Some (m, _)) \<Rightarrow>
                 if h \<le> 24 \<and> m \<le> 60
                 then Some (if g = CHR ''-'' then - int ((h * 60 + m) * 60) else int ((h * 60 + m) * 60)) else None
             | _ \<Rightarrow> None)
          else None
      | _ \<Rightarrow> None)"

definition parse_RFC3339 :: "string \<Rightarrow> gotime option" where
  "parse_RFC3339 s =
     Option.bind (getyear s) (\<lambda>(y, s). Option.bind (skip_char CHR ''-'' s) (\<lambda>s.
     Option.bind (getnum True s) (\<lambda>(m, s). Option.bind (skip_char CHR ''-'' s) (\<lambda>s.
     Option.bind (getnum True s) (\<lambda>(d, s). Option.bind (skip_char CHR ''T'' s) (\<lambda>s.
     Option.bind (getnum False s) (\<lambda>(hh, s). Option.bind (skip_char CHR '':'' s) (\<lambda>s.
     Option.bind (getnum True s) (\<lambda>(mm, s). Option.bind (skip_char CHR '':'' s) (\<lambda>s.
     Option.bind (getnum True s) (\<lambda>(ss, s). case getfraction s of (ns, s) \<Rightarrow>
     Option.bind (parse_zone s) (\<lambda>zone.
       if in_range 1 12 m \<and> in_range 1 (nat (month_lens (int y) ! (m - 1))) d \<and> hh < 24 \<and> mm < 60 \<and> ss < 60
       then Some ((make_time y m d hh mm ss ns)\<lparr>t_sec := t_sec (make_time y m d hh mm ss ns) - zone\<rparr>)
       else None))))))))))))"

definition time_After :: "gotime \<Rightarrow> gotime \<Rightarrow> bool" where
  "time_After t u \<longleftrightarrow> t_sec t > t_sec u \<or> (t_sec t = t_sec u \<and> t_nsec t > t_nsec u)"

end
