(* ===== verification/Github_Source.thy ===== *)
theory Github_Source
  imports Github_Auth Go_Instant Repository_Config
begin

text \<open>
  \<open>internal/connector/github/repository.go\<close>: the repository source.  A snapshot is a sequence of at
  most five HTTP requests, each of which may fail; it is modelled with the requests it has sent as its
  state.  Besides the environment of \<open>Github_Auth\<close>, \<open>url.Parse\<close>, the context with the total timeout and the
  YAML library are arguments.
\<close>

section \<open>Configuration\<close>

definition defaultRepositoryTotalTimeout :: int where "defaultRepositoryTotalTimeout = 30 * 1000000000"
definition defaultRepositoryRequestTimeout :: int where "defaultRepositoryRequestTimeout = 10 * 1000000000"

definition alnum_class :: "(char \<times> char) list" where
  "alnum_class = [(CHR ''A'', CHR ''Z''), (CHR ''a'', CHR ''z''), (CHR ''0'', CHR ''9'')]"

text \<open>\<open>^[A-Za-z0-9](?:[A-Za-z0-9-]{0,37}[A-Za-z0-9])?$\<close>.\<close>

definition githubOwnerPattern :: rx where
  "githubOwnerPattern =
     RSeq (RCls alnum_class)
          (ROpt (RSeq (RRep 0 37 (RCls (alnum_class @ [(CHR ''-'', CHR ''-'')]))) (RCls alnum_class)))"

text \<open>\<open>^[A-Za-z0-9_.-]{1,100}$\<close>.\<close>

definition githubRepositoryPattern :: rx where
  "githubRepositoryPattern =
     RRep 1 100 (RCls (alnum_class @ [(CHR ''_'', CHR ''_''), (CHR ''.'', CHR ''.''), (CHR ''-'', CHR ''-'')]))"

text \<open>\<open>^(?:[0-9a-fA-F]{40}|[0-9a-fA-F]{64})$\<close>.\<close>

definition hex_class :: "(char \<times> char) list" where
  "hex_class = [(CHR ''0'', CHR ''9''), (CHR ''a'', CHR ''f''), (CHR ''A'', CHR ''F'')]"

definition commitPattern :: rx where
  "commitPattern = RAlt (RRep 40 40 (RCls hex_class)) (RRep 64 64 (RCls hex_class))"

definition errResponseTooLarge :: gerr where "errResponseTooLarge = Sentinel ''github.errResponseTooLarge''"

text \<open>\<open>strings.ToLower\<close> of an ASCII string.\<close>

definition lower :: "char \<Rightarrow> char" where
  "lower c = (if 65 \<le> byte c \<and> byte c \<le> 90 then char_of (byte c + 32) else c)"

record RepositoryConfig =
  rcf_external_ref :: string

text \<open>\<open>ro_client\<close> is the timeout of the client, where there is one.\<close>

record repositoryOptions =
  ro_now :: "(nat \<Rightarrow> gotime) option"
  ro_client :: "int option"
  ro_base_url :: string
  ro_total_timeout :: int
  ro_request_timeout :: int

record RepositorySource =
  so_app :: github_Config
  so_resource :: RepositoryConfig
  so_dir :: string
  so_owner :: string
  so_repo :: string
  so_options :: repositoryOptions

definition parseExternalRef :: "string \<Rightarrow> gerr + (string \<times> string)" where
  "parseExternalRef value =
     (let invalid = Inl (ErrNew ''invalid external_ref'') in
      if value \<noteq> trim_space value then invalid
      else (case split_on CHR ''/'' value of
          [owner, repo] \<Rightarrow>
            if \<not> rx_match githubOwnerPattern owner \<or> \<not> rx_match githubRepositoryPattern repo \<or>
               repo = ''.'' \<or> repo = ''..'' \<or> suffix ''.git'' (map lower repo)
            then invalid else Inr (owner, repo)
        | _ \<Rightarrow> invalid))"

text \<open>\<open>http.DefaultClient\<close> has no timeout of its own.\<close>

definition newRepositorySource ::
  "(nat \<Rightarrow> gotime) \<Rightarrow> github_Config \<Rightarrow> RepositoryConfig \<Rightarrow> string \<Rightarrow> repositoryOptions \<Rightarrow> gerr + RepositorySource"
where
  "newRepositorySource time_Now app resource dir options =
     rbind (parseExternalRef (rcf_external_ref resource)) (\<lambda>(owner, repo).
     Inr \<lparr>so_app = app, so_resource = resource, so_dir = dir, so_owner = owner, so_repo = repo,
          so_options = \<lparr>
            ro_now = Some (case ro_now options of None \<Rightarrow> time_Now | Some f \<Rightarrow> f),
            ro_client = Some (case ro_client options of None \<Rightarrow> 0 | Some t \<Rightarrow> t),
            ro_base_url = (if ro_base_url options = '''' then defaultAPIBaseURL else ro_base_url options),
            ro_total_timeout = (if ro_total_timeout options \<le> 0 then defaultRepositoryTotalTimeout
                                else ro_total_timeout options),
            ro_request_timeout = (if ro_request_timeout options \<le> 0 then defaultRepositoryRequestTimeout
                                  else ro_request_timeout options)\<rparr>\<rparr>)"

definition NewRepositorySource ::
  "(nat \<Rightarrow> gotime) \<Rightarrow> github_Config \<Rightarrow> RepositoryConfig \<Rightarrow> string \<Rightarrow> gerr + RepositorySource"
where
  "NewRepositorySource time_Now app resource dir =
     newRepositorySource time_Now app resource dir
       \<lparr>ro_now = Some time_Now, ro_client = Some 0, ro_base_url = defaultAPIBaseURL,
        ro_total_timeout = defaultRepositoryTotalTimeout, ro_request_timeout = defaultRepositoryRequestTimeout\<rparr>"

definition emptyRepositoryConfiguration :: RepositoryConfiguration where
  "emptyRepositoryConfiguration =
     \<lparr>rc_version = 1, rc_agent = \<lparr>ac_instructions = Some []\<rparr>,
      rc_policy = \<lparr>pr_actions = Some [], pr_protected_paths = Some []\<rparr>, rc_validation = \<lparr>vd_required = Some []\<rparr>\<rparr>"

section \<open>Requests\<close>

record repository_env =
  sv_url :: "string \<Rightarrow> gerr + url"
  sv_child :: "int \<Rightarrow> gctx"
  sv_yaml :: yaml
  sv_typed :: "string \<Rightarrow> RepositoryConfiguration decoded"

text \<open>An action has sent the requests of its argument and returns with those it has sent then.\<close>

type_synonym 'a action = "http_request list \<Rightarrow> (gerr + 'a) \<times> http_request list"

definition lift :: "gerr + 'a \<Rightarrow> 'a action" where
  "lift r tr = (r, tr)"

definition abind :: "'a action \<Rightarrow> ('a \<Rightarrow> 'b action) \<Rightarrow> 'b action" where
  "abind m f tr = (case m tr of (Inl e, tr') \<Rightarrow> (Inl e, tr') | (Inr x, tr') \<Rightarrow> f x tr')"

definition unavailable_repository :: "gerr option \<Rightarrow> gerr" where
  "unavailable_repository cause = RepositoryError ''repository is unavailable'' cause"

record apiResponse =
  ar_status :: int
  ar_body :: string

definition repositoryPath :: "RepositorySource \<Rightarrow> string" where
  "repositoryPath s = ''/repos/'' @ PathEscape (so_owner s) @ ''/'' @ PathEscape (so_repo s)"

definition endpoint ::
  "repository_env \<Rightarrow> RepositorySource \<Rightarrow> string \<Rightarrow> (string \<times> string) list \<Rightarrow> gerr + string"
where
  "endpoint sv s pathValue query =
     (let invalid = Inl (ErrNew ''invalid GitHub API base URL'') in
      case sv_url sv (ro_base_url (so_options s)) of
        Inl e \<Rightarrow> invalid
      | Inr base \<Rightarrow>
          if ur_scheme base = '''' \<or> ur_host base = '''' then invalid
          else Inr (url_String (base\<lparr>ur_path := trim_right_slashes (ur_path base) @ pathValue\<rparr>) (Values_Encode query)))"

text \<open>The timeout of the copy of the client.\<close>

definition client_timeout :: "repositoryOptions \<Rightarrow> int" where
  "client_timeout options =
     (let t = (case ro_client options of None \<Rightarrow> 0 | Some t \<Rightarrow> t) in
      if t = 0 \<or> t > ro_request_timeout options then ro_request_timeout options else t)"

definition make_request ::
  "RepositorySource \<Rightarrow> string \<Rightarrow> string \<Rightarrow> string \<Rightarrow> string \<Rightarrow> string option \<Rightarrow> http_request"
where
  "make_request s verb url credential accept body =
     \<lparr>rq_method = verb, rq_url = url,
      rq_headers = [(''Accept'', accept), (''X-GitHub-Api-Version'', ''2026-03-10''), (''User-Agent'', ''delegatd/task'')] @
        (if credential \<noteq> '''' then [(''Authorization'', ''Bearer '' @ credential)] else []) @
        (if body \<noteq> None then [(''Content-Type'', ''application/json'')] else []),
      rq_body = body, rq_timeout = client_timeout (so_options s), rq_follow_redirects = False\<rparr>"

definition read_response :: "http_response \<Rightarrow> gerr + apiResponse" where
  "read_response response =
     (case (read_limited maxAPIResponseSize response, hr_close response) of
        (Inl readErr, _) \<Rightarrow> Inl (unavailable_repository (Some readErr))
      | (Inr _, Some closeErr) \<Rightarrow> Inl (unavailable_repository (Some closeErr))
      | (Inr responseBody, None) \<Rightarrow>
          if length responseBody > maxAPIResponseSize then Inl (unavailable_repository (Some errResponseTooLarge))
          else Inr \<lparr>ar_status = hr_status response, ar_body = responseBody\<rparr>)"

definition request ::
  "'k github_env \<Rightarrow> repository_env \<Rightarrow> RepositorySource \<Rightarrow> string \<Rightarrow> string \<Rightarrow> (string \<times> string) list \<Rightarrow>
   string \<Rightarrow> string \<Rightarrow> string option \<Rightarrow> apiResponse action"
where
  "request env sv s verb pathValue query credential accept body =
     abind (lift (map_err (\<lambda>e. unavailable_repository (Some e)) (endpoint sv s pathValue query))) (\<lambda>url.
     abind (lift (case ge_new_request env url of Some e \<Rightarrow> Inl (unavailable_repository (Some e)) | None \<Rightarrow> Inr ())) (\<lambda>_.
     (\<lambda>tr. let rq = make_request s verb url credential accept body in
        ((case ge_do env (length tr) rq of
            Inl e \<Rightarrow> Inl (unavailable_repository (Some e))
          | Inr response \<Rightarrow> read_response response), tr @ [rq]))))"

fun as_repository :: "gerr \<Rightarrow> gerr option" where
  "as_repository (RepositoryError r c) = Some (RepositoryError r c)"
| "as_repository e = None"

text \<open>The parent context has been looked at once before; the child has not.\<close>

definition mapError :: "gctx \<Rightarrow> gctx \<Rightarrow> gerr \<Rightarrow> gerr" where
  "mapError parent child err =
     (if contextError parent 1 \<noteq> None
      then RepositoryError ''task cancelled'' (map_option CtxError (contextError parent 2))
      else if contextError child 0 \<noteq> None
      then unavailable_repository (map_option CtxError (contextError child 1))
      else (case first_some as_repository (chain err) of
          Some e \<Rightarrow> e
        | None \<Rightarrow> unavailable_repository (Some err)))"

definition amap_err :: "(gerr \<Rightarrow> gerr) \<Rightarrow> 'a action \<Rightarrow> 'a action" where
  "amap_err g m tr = (case m tr of (r, tr') \<Rightarrow> (map_err g r, tr'))"


section \<open>The responses\<close>

record token_fields =
  tk_token :: string
  tk_expires_at :: string
  tk_permissions :: "string gomap"

definition set_token :: "string \<Rightarrow> json \<Rightarrow> token_fields \<Rightarrow> gerr + token_fields" where
  "set_token k v r =
     (if k = ''TOKEN'' then rbind (set_string v (tk_token r)) (\<lambda>x. Inr (r\<lparr>tk_token := x\<rparr>))
      else if k = ''EXPIRES_AT'' then rbind (set_string v (tk_expires_at r)) (\<lambda>x. Inr (r\<lparr>tk_expires_at := x\<rparr>))
      else if k = ''PERMISSIONS'' then rbind (set_string_map v (tk_permissions r)) (\<lambda>x. Inr (r\<lparr>tk_permissions := x\<rparr>))
      else Inr r)"

definition read_token :: "string \<Rightarrow> gerr + token_fields" where
  "read_token body =
     json_Unmarshal (set_struct set_token \<lparr>tk_token = '''', tk_expires_at = '''', tk_permissions = None\<rparr>) body"

record repository_identity =
  ri_id :: "int option"
  ri_full_name :: "string option"
  ri_default_branch :: "string option"

definition set_identity :: "string \<Rightarrow> json \<Rightarrow> repository_identity \<Rightarrow> gerr + repository_identity" where
  "set_identity k v r =
     (if k = ''ID'' then rbind (set_int_ptr v) (\<lambda>x. Inr (r\<lparr>ri_id := x\<rparr>))
      else if k = ''FULL_NAME'' then rbind (set_string_ptr v) (\<lambda>x. Inr (r\<lparr>ri_full_name := x\<rparr>))
      else if k = ''DEFAULT_BRANCH'' then rbind (set_string_ptr v) (\<lambda>x. Inr (r\<lparr>ri_default_branch := x\<rparr>))
      else Inr r)"

definition read_identity :: "string \<Rightarrow> gerr + repository_identity" where
  "read_identity body =
     json_Unmarshal (set_struct set_identity \<lparr>ri_id = None, ri_full_name = None, ri_default_branch = None\<rparr>) body"

text \<open>A slice of structs with the field \<open>SHA\<close>.\<close>

definition set_sha :: "string \<Rightarrow> json \<Rightarrow> string \<Rightarrow> gerr + string" where
  "set_sha k v r = (if k = ''SHA'' then set_string v r else Inr r)"

fun set_all :: "(json \<Rightarrow> gerr + 'a) \<Rightarrow> json list \<Rightarrow> gerr + 'a list" where
  "set_all f [] = Inr []"
| "set_all f (v # vs) = rbind (f v) (\<lambda>x. rbind (set_all f vs) (\<lambda>xs. Inr (x # xs)))"

definition read_commits :: "string \<Rightarrow> gerr + string list" where
  "read_commits body =
     json_Unmarshal (\<lambda>v. case v of
         JArr vs \<Rightarrow> set_all (set_struct set_sha '''') vs
       | JNull \<Rightarrow> Inr []
       | _ \<Rightarrow> Inl json_error) body"

section \<open>The snapshot\<close>

definition github_json :: string where "github_json = ''application/vnd.github+json''"
definition github_raw :: string where "github_raw = ''application/vnd.github.raw+json''"

definition source_now :: "RepositorySource \<Rightarrow> nat \<Rightarrow> gotime" where
  "source_now s = the (ro_now (so_options s))"

definition child_of :: "repository_env \<Rightarrow> RepositorySource \<Rightarrow> gctx" where
  "child_of sv s = sv_child sv (ro_total_timeout (so_options s))"

text \<open>The request for a token of the installation: this repository, contents and metadata, to read.\<close>

definition token_body :: "RepositorySource \<Rightarrow> string" where
  "token_body s =
     enc True (JObj [(''repositories'', JArr [JStr (so_repo s)]),
       (''permissions'', JObj [(''contents'', JStr ''read''), (''metadata'', JStr ''read'')])])"

definition token_endpoint :: "int \<Rightarrow> string" where
  "token_endpoint i = ''/app/installations/'' @ dec_int i @ ''/access_tokens''"

definition snapshot_installation ::
  "'k github_env \<Rightarrow> repository_env \<Rightarrow> RepositorySource \<Rightarrow> gctx \<Rightarrow> string \<Rightarrow> int action"
where
  "snapshot_installation env sv s ctx jwt =
     abind (amap_err (mapError ctx (child_of sv s))
              (request env sv s ''GET'' (repositoryPath s @ ''/installation'') [] jwt github_json None)) (\<lambda>installation.
     lift
       (if ar_status installation = 404 then Inl (RepositoryError ''repository is not installed'' None)
        else if ar_status installation \<noteq> 200 then Inl (unavailable_repository None)
        else (case identity_id (ar_body installation) of
            Inl e \<Rightarrow> Inl (unavailable_repository (Some e))
          | Inr None \<Rightarrow> Inl (unavailable_repository None)
          | Inr (Some i) \<Rightarrow> if i \<le> 0 then Inl (unavailable_repository None) else Inr i)))"

definition token_scope_ok :: "token_fields \<Rightarrow> bool" where
  "token_scope_ok t \<longleftrightarrow>
     length (elems (tk_permissions t)) = 2 \<and>
     map_of (elems (tk_permissions t)) ''contents'' = Some ''read'' \<and>
     map_of (elems (tk_permissions t)) ''metadata'' = Some ''read''"

definition snapshot_token ::
  "'k github_env \<Rightarrow> repository_env \<Rightarrow> RepositorySource \<Rightarrow> gctx \<Rightarrow> string \<Rightarrow> int \<Rightarrow> string action"
where
  "snapshot_token env sv s ctx jwt installationID =
     abind (amap_err (mapError ctx (child_of sv s))
              (request env sv s ''POST'' (token_endpoint installationID) [] jwt github_json (Some (token_body s)))) (\<lambda>tokenResponse.
     lift
       (if ar_status tokenResponse \<noteq> 201 then Inl (unavailable_repository None)
        else (case read_token (ar_body tokenResponse) of
            Inl e \<Rightarrow> Inl (unavailable_repository (Some e))
          | Inr t \<Rightarrow>
              (case parse_RFC3339 (tk_expires_at t) of
                 None \<Rightarrow> Inl (unavailable_repository (Some (ErrNew ''parsing time'')))
               | Some expiresAt \<Rightarrow>
                   if tk_token t = '''' \<or> \<not> time_After expiresAt (source_now s 1) \<or> \<not> token_scope_ok t
                   then Inl (unavailable_repository
                       (Some (ErrNew ''installation token was empty, expired, or over-scoped'')))
                   else Inr (tk_token t)))))"

definition snapshot_identity ::
  "'k github_env \<Rightarrow> repository_env \<Rightarrow> RepositorySource \<Rightarrow> gctx \<Rightarrow> string \<Rightarrow> (int \<times> string \<times> string) action"
where
  "snapshot_identity env sv s ctx token =
     abind (amap_err (mapError ctx (child_of sv s))
              (request env sv s ''GET'' (repositoryPath s) [] token github_json None)) (\<lambda>repositoryResponse.
     lift
       (if ar_status repositoryResponse \<noteq> 200 then Inl (unavailable_repository None)
        else (case read_identity (ar_body repositoryResponse) of
            Inl e \<Rightarrow> Inl (unavailable_repository (Some e))
          | Inr r \<Rightarrow>
              (case (ri_id r, ri_full_name r, ri_default_branch r) of
                 (Some i, Some fullName, Some defaultBranch) \<Rightarrow>
                   if i \<le> 0 \<or> defaultBranch = '''' \<or> \<not> equal_fold_ascii fullName (rcf_external_ref (so_resource s))
                   then Inl (unavailable_repository None) else Inr (i, fullName, defaultBranch)
               | _ \<Rightarrow> Inl (unavailable_repository None)))))"

definition snapshot_commit ::
  "'k github_env \<Rightarrow> repository_env \<Rightarrow> RepositorySource \<Rightarrow> gctx \<Rightarrow> string \<Rightarrow> string \<Rightarrow> string action"
where
  "snapshot_commit env sv s ctx token defaultBranch =
     abind (amap_err (mapError ctx (child_of sv s))
              (request env sv s ''GET'' (repositoryPath s @ ''/commits'') [(''sha'', defaultBranch), (''per_page'', ''1'')]
                 token github_json None)) (\<lambda>commits.
     lift
       (if ar_status commits \<noteq> 200 then Inl (unavailable_repository None)
        else (case read_commits (ar_body commits) of
            Inl e \<Rightarrow> Inl (unavailable_repository (Some e))
          | Inr [] \<Rightarrow> Inl (unavailable_repository None)
          | Inr (sha # _) \<Rightarrow>
              if \<not> rx_match commitPattern sha then Inl (unavailable_repository None) else Inr (map lower sha))))"

definition configuration_error :: "gctx \<Rightarrow> gctx \<Rightarrow> gerr \<Rightarrow> gerr" where
  "configuration_error ctx child err =
     (if errors_is err errResponseTooLarge then RepositoryError ''repository configuration is invalid'' (Some err)
      else mapError ctx child err)"

definition snapshot_configuration ::
  "'k github_env \<Rightarrow> repository_env \<Rightarrow> RepositorySource \<Rightarrow> gctx \<Rightarrow> string \<Rightarrow> string \<Rightarrow> RepositoryConfiguration action"
where
  "snapshot_configuration env sv s ctx token commitSHA =
     abind (amap_err (configuration_error ctx (child_of sv s))
              (request env sv s ''GET'' (repositoryPath s @ ''/contents/.delegatd.yaml'') [(''ref'', commitSHA)]
                 token github_raw None)) (\<lambda>response.
     lift
       (if ar_status response = 404 then Inr emptyRepositoryConfiguration
        else if ar_status response \<noteq> 200 then Inl (unavailable_repository None)
        else map_err (\<lambda>e. RepositoryError ''repository configuration is invalid'' (Some e))
               (DecodeRepository (sv_yaml sv) (sv_typed sv) (ar_body response))))"

definition snapshot_with_jwt ::
  "'k github_env \<Rightarrow> repository_env \<Rightarrow> RepositorySource \<Rightarrow> gctx \<Rightarrow> string \<Rightarrow> RepositoryMaterial action"
where
  "snapshot_with_jwt env sv s ctx jwt =
     abind (snapshot_installation env sv s ctx jwt) (\<lambda>installationID.
     abind (snapshot_token env sv s ctx jwt installationID) (\<lambda>token.
     abind (snapshot_identity env sv s ctx token) (\<lambda>(repositoryID, fullName, defaultBranch).
     abind (snapshot_commit env sv s ctx token defaultBranch) (\<lambda>commitSHA.
     abind (snapshot_configuration env sv s ctx token commitSHA) (\<lambda>configuration.
     lift (Inr \<lparr>rm_external_ref = fullName, rm_external_identity = dec_int repositoryID,
                rm_revision = commitSHA, rm_configuration = configuration\<rparr>))))))"

definition Snapshot ::
  "'k github_env \<Rightarrow> repository_env \<Rightarrow> RepositorySource \<Rightarrow> gctx \<Rightarrow> (gerr + RepositoryMaterial) \<times> http_request list"
where
  "Snapshot env sv s ctx =
     (case contextError ctx 0 of
        Some c \<Rightarrow> (Inl (RepositoryError ''task cancelled'' (Some (CtxError c))), [])
      | None \<Rightarrow>
          (case loadPrivateKey env (so_app s) (so_dir s) of
             Inl (reason, err) \<Rightarrow> (Inl (RepositoryError reason err), [])
           | Inr key \<Rightarrow>
               (case appJWT env key (gc_app_id (so_app s)) (source_now s 0) of
                  Inl e \<Rightarrow> (Inl (RepositoryError ''private key is invalid'' (Some e)), [])
                | Inr jwt \<Rightarrow> snapshot_with_jwt env sv s ctx jwt [])))"

end
