(* ===== verification/Github_Snapshot.thy ===== *)
theory Github_Snapshot
  imports Github_Source
begin

text \<open>
  The repository source, proved: which references it accepts, the requests a snapshot sends, what it
  returns, and which of GitHub's answers stand behind that (\<open>pinned\<close>).
\<close>

section \<open>External references\<close>

definition owner_name :: "string \<Rightarrow> bool" where
  "owner_name s \<longleftrightarrow> 1 \<le> length s \<and> length s \<le> 39 \<and>
     (\<forall>c \<in> set s. in_class alnum_class c \<or> c = CHR ''-'') \<and> hd s \<noteq> CHR ''-'' \<and> last s \<noteq> CHR ''-''"

definition repo_name :: "string \<Rightarrow> bool" where
  "repo_name s \<longleftrightarrow> 1 \<le> length s \<and> length s \<le> 100 \<and>
     (\<forall>c \<in> set s. in_class alnum_class c \<or> c \<in> set ''_.-'') \<and> s \<noteq> ''.'' \<and> s \<noteq> ''..'' \<and>
     \<not> suffix ''.git'' (map lower s)"

lemma in_class_append: "in_class (rs @ qs) c \<longleftrightarrow> in_class rs c \<or> in_class qs c"
  by (simp add: in_class_def)

lemma in_class_point: "in_class [(d, d)] c \<longleftrightarrow> c = d"
  by (simp add: in_class_def in_class_single)

lemma alnum_not: "\<not> in_class alnum_class CHR ''-''" "\<not> in_class alnum_class CHR ''/''" "\<not> in_class alnum_class CHR ''.''"
  by (simp_all add: in_class_def alnum_class_def byte_def)

lemma githubOwnerPattern_iff: "rx_match githubOwnerPattern s \<longleftrightarrow> owner_name s"
proof -
  let ?C = "\<lambda>c. in_class alnum_class c \<or> c = CHR ''-''"
  have tail: "rx_lang (RSeq (RRep 0 37 (RCls (alnum_class @ [(CHR ''-'', CHR ''-'')]))) (RCls alnum_class)) t \<longleftrightarrow>
      (\<exists>u c. t = u @ [c] \<and> length u \<le> 37 \<and> (\<forall>d \<in> set u. ?C d) \<and> in_class alnum_class c)" for t
    by (subst rx_lang.simps(4)) (auto simp: rx_lang_rep_class in_class_append in_class_point simp del: rx_lang.simps(7))
  have "rx_match githubOwnerPattern s \<longleftrightarrow> (\<exists>c t. s = c # t \<and> in_class alnum_class c \<and>
      (t = [] \<or> (\<exists>u d. t = u @ [d] \<and> length u \<le> 37 \<and> (\<forall>x \<in> set u. ?C x) \<and> in_class alnum_class d)))"
    unfolding rx_match_iff githubOwnerPattern_def rx_lang_class_seq ROpt_def rx_lang.simps(2,5) tail by (rule refl)
  also have "\<dots> \<longleftrightarrow> owner_name s"
  proof
    assume "owner_name s"
    then obtain c t where s: "s = c # t" "in_class alnum_class c" "length t \<le> 38" "\<forall>x \<in> set t. ?C x" "last s \<noteq> CHR ''-''"
      by (cases s) (auto simp: owner_name_def)
    show "\<exists>c t. s = c # t \<and> in_class alnum_class c \<and>
      (t = [] \<or> (\<exists>u d. t = u @ [d] \<and> length u \<le> 37 \<and> (\<forall>x \<in> set u. ?C x) \<and> in_class alnum_class d))"
    proof (cases t rule: rev_cases)
      case (snoc u d)
      with s show ?thesis by (intro exI [of _ c] exI [of _ t]) auto
    qed (use s in auto)
  qed (auto simp: owner_name_def alnum_not)
  finally show ?thesis .
qed

lemma githubRepositoryPattern_iff:
  "rx_match githubRepositoryPattern s \<longleftrightarrow>
     1 \<le> length s \<and> length s \<le> 100 \<and> (\<forall>c \<in> set s. in_class alnum_class c \<or> c \<in> set ''_.-'')"
proof -
  have "in_class (alnum_class @ [(CHR ''_'', CHR ''_''), (CHR ''.'', CHR ''.''), (CHR ''-'', CHR ''-'')]) c \<longleftrightarrow>
      in_class alnum_class c \<or> c \<in> set ''_.-''" for c
    by (auto simp: in_class_append in_class_single) (simp_all add: in_class_def in_class_single)
  then show ?thesis
    unfolding rx_match_iff githubRepositoryPattern_def rx_lang_rep_class by simp
qed

text \<open>The characters of a reference: no white space, nothing that a URL would escape.\<close>

definition ref_char :: "char \<Rightarrow> bool" where
  "ref_char c \<longleftrightarrow> in_class alnum_class c \<or> c \<in> set ''_.-''"

lemma ref_char_facts: "ref_char c \<Longrightarrow> path_unreserved c \<and> 33 \<le> byte c \<and> byte c < 127 \<and> c \<noteq> CHR ''/''"
  by (auto simp: ref_char_def in_class_def alnum_class_def path_unreserved_def byte_def)

lemma owner_name_chars: "owner_name s \<Longrightarrow> c \<in> set s \<Longrightarrow> ref_char c"
  by (auto simp: owner_name_def ref_char_def)

lemma repo_name_chars: "repo_name s \<Longrightarrow> c \<in> set s \<Longrightarrow> ref_char c"
  by (auto simp: repo_name_def ref_char_def)

lemma parseExternalRef_Inr:
  "parseExternalRef v = Inr (owner, repo) \<longleftrightarrow> v = owner @ CHR ''/'' # repo \<and> owner_name owner \<and> repo_name repo"
proof
  assume "v = owner @ CHR ''/'' # repo \<and> owner_name owner \<and> repo_name repo"
  then have v: "v = owner @ CHR ''/'' # repo" and o: "owner_name owner" and r: "repo_name repo" by auto
  have chars: "33 \<le> byte c \<and> byte c < 127" if "c \<in> set v" for c
    using that owner_name_chars [OF o] repo_name_chars [OF r] ref_char_facts by (auto simp: v byte_def)
  have "trim_space v = v" by (rule trim_space_no_space) (use chars in fastforce)
  moreover have "CHR ''/'' \<notin> set owner" "CHR ''/'' \<notin> set repo"
    using owner_name_chars [OF o] repo_name_chars [OF r] ref_char_facts by blast+
  then have "split_on CHR ''/'' v = [owner, repo]" by (simp add: v split_on_append_sep split_on_no_sep)
  ultimately show "parseExternalRef v = Inr (owner, repo)"
    using o r by (simp add: parseExternalRef_def Let_def githubOwnerPattern_iff githubRepositoryPattern_iff repo_name_def)
next
  assume ok: "parseExternalRef v = Inr (owner, repo)"
  have split: "split_on CHR ''/'' v = [owner, repo]" and "owner_name owner" "repo_name repo"
    using ok by (auto simp: parseExternalRef_def Let_def githubOwnerPattern_iff githubRepositoryPattern_iff repo_name_def
        split: if_splits list.splits)
  moreover have "v = owner @ CHR ''/'' # repo"
    using join_split [of "CHR ''/''" v] by (simp add: split join_with_Cons)
  ultimately show "v = owner @ CHR ''/'' # repo \<and> owner_name owner \<and> repo_name repo" by simp
qed

text \<open>
  C28.  A repository source exists exactly for references of the form owner/name, within the alphabets and
  lengths of GitHub, that are no dot segment and do not end in \<open>.git\<close>.  Its requests go to the path of
  that very reference, which needs no escaping, and every request has a timeout of at most the
  request timeout, which is 10 seconds for the sources the program makes.
\<close>

theorem newRepositorySource_correct:
  "(is_ok (newRepositorySource clock app resource dir options) \<longleftrightarrow>
      (\<exists>owner repo. rcf_external_ref resource = owner @ CHR ''/'' # repo \<and> owner_name owner \<and> repo_name repo)) \<and>
   (case newRepositorySource clock app resource dir options of
      Inl e \<Rightarrow> True
    | Inr s \<Rightarrow>
        so_app s = app \<and> so_dir s = dir \<and> so_resource s = resource \<and>
        repositoryPath s = ''/repos/'' @ rcf_external_ref resource \<and>
        escaped_path (repositoryPath s) = repositoryPath s \<and>
        client_timeout (so_options s) \<le> ro_request_timeout (so_options s) \<and> ro_base_url (so_options s) \<noteq> '''') \<and>
   (case NewRepositorySource clock app resource dir of
      Inl e \<Rightarrow> True
    | Inr s \<Rightarrow> client_timeout (so_options s) = 10 * 1000000000 \<and> ro_base_url (so_options s) = ''https://api.github.com'')"
proof -
  have ok: "is_ok (newRepositorySource clock app resource dir options) \<longleftrightarrow>
      (\<exists>owner repo. parseExternalRef (rcf_external_ref resource) = Inr (owner, repo))"
    by (auto simp: newRepositorySource_def is_ok_iff rbind_eq_Inr)
  have path: "repositoryPath s = ''/repos/'' @ rcf_external_ref resource \<and> escaped_path (repositoryPath s) = repositoryPath s"
    if "parseExternalRef (rcf_external_ref resource) = Inr (so_owner s, so_repo s)" for s
  proof -
    from that have v: "rcf_external_ref resource = so_owner s @ CHR ''/'' # so_repo s" and
      n: "owner_name (so_owner s)" "repo_name (so_repo s)" by (auto simp: parseExternalRef_Inr)
    have p: "list_all path_unreserved (so_owner s)" "list_all path_unreserved (so_repo s)"
      using owner_name_chars [OF n(1)] repo_name_chars [OF n(2)] ref_char_facts by (auto simp: list_all_iff)
    then have r: "repositoryPath s = ''/repos/'' @ rcf_external_ref resource"
      by (simp add: repositoryPath_def v PathEscape_plain)
    have "list_all path_plain (''/repos/'' @ rcf_external_ref resource)"
      using p by (auto simp: v list_all_iff path_plain_def) (simp_all add: path_unreserved_def byte_def)
    with r show ?thesis by (simp add: escaped_path_plain del: append.simps)
  qed
  have t: "client_timeout o1 \<le> ro_request_timeout o1" for o1 by (auto simp: client_timeout_def Let_def)
  show ?thesis
  proof (cases "parseExternalRef (rcf_external_ref resource)")
    case (Inl e)
    with ok show ?thesis by (simp add: newRepositorySource_def NewRepositorySource_def parseExternalRef_Inr [symmetric])
  next
    case (Inr p)
    obtain owner repo where p: "p = (owner, repo)" by fastforce
    obtain s where s: "newRepositorySource clock app resource dir options = Inr s" "so_owner s = owner" "so_repo s = repo"
      "so_app s = app" "so_dir s = dir" "so_resource s = resource" "ro_base_url (so_options s) \<noteq> ''''"
      by (simp add: newRepositorySource_def Inr p defaultAPIBaseURL_def)
    obtain s' where s': "NewRepositorySource clock app resource dir = Inr s'"
      "client_timeout (so_options s') = 10 * 1000000000" "ro_base_url (so_options s') = ''https://api.github.com''"
      by (simp add: newRepositorySource_def NewRepositorySource_def Inr p client_timeout_def Let_def defaultAPIBaseURL_def
          defaultRepositoryRequestTimeout_def)
    have "\<exists>owner repo. rcf_external_ref resource = owner @ CHR ''/'' # repo \<and> owner_name owner \<and> repo_name repo"
      using Inr p by (auto simp: parseExternalRef_Inr)
    moreover have "repositoryPath s = ''/repos/'' @ rcf_external_ref resource \<and> escaped_path (repositoryPath s) = repositoryPath s"
      by (rule path) (simp add: s Inr p)
    ultimately show ?thesis
      unfolding s(1) s'(1) is_ok.simps sum.case using s(4-7) s'(2,3) t by blast
  qed
qed

section \<open>The requests of a snapshot\<close>

text \<open>
  \<open>sent\<close> says that a request is the one a specification asks for: method, path, query, credential,
  accepted type and body.  \<open>conforms m P\<close>: run from any state, an action sends a prefix of a plan that
  \<open>P\<close> allows for its result, and the whole plan when it succeeds.
\<close>

type_synonym request_spec = "string \<times> string \<times> (string \<times> string) list \<times> string \<times> string \<times> string option"

definition sent :: "repository_env \<Rightarrow> RepositorySource \<Rightarrow> request_spec \<Rightarrow> http_request \<Rightarrow> bool" where
  "sent sv s sp rq \<longleftrightarrow>
     (case sp of (verb, path, query, credential, accept, body) \<Rightarrow>
        endpoint sv s path query = Inr (rq_url rq) \<and> rq = make_request s verb (rq_url rq) credential accept body)"

definition follows :: "repository_env \<Rightarrow> RepositorySource \<Rightarrow> request_spec list \<Rightarrow> http_request list \<Rightarrow> bool" where
  "follows sv s ps rqs \<longleftrightarrow> length rqs \<le> length ps \<and> list_all2 (sent sv s) (take (length rqs) ps) rqs"

definition conforms ::
  "repository_env \<Rightarrow> RepositorySource \<Rightarrow> 'a action \<Rightarrow> (gerr + 'a \<Rightarrow> request_spec list \<Rightarrow> bool) \<Rightarrow> bool"
where
  "conforms sv s m P \<longleftrightarrow>
     (\<forall>tr. \<exists>new ps. snd (m tr) = tr @ new \<and> P (fst (m tr)) ps \<and> follows sv s ps new \<and>
        (is_ok (fst (m tr)) \<longrightarrow> length new = length ps))"

lemma follows_Nil: "follows sv s ps []"
  by (simp add: follows_def)

lemma conforms_lift: "P r [] \<Longrightarrow> conforms sv s (lift r) P"
  unfolding conforms_def by (intro allI exI [of _ "[]"]) (simp add: lift_def follows_Nil)

lemma conforms_bind:
  assumes m: "conforms sv s m (\<lambda>r ps. ps = [p])"
    and f: "\<And>x. conforms sv s (f x) (Q x)" and Q: "\<And>x e. \<exists>ps. Q x (Inl e) ps"
  shows "conforms sv s (abind m f) (\<lambda>r ps. \<exists>x qs. ps = p # qs \<and> Q x r qs)"
  unfolding conforms_def
proof
  fix tr
  obtain r tr1 where mr: "m tr = (r, tr1)" by fastforce
  from m obtain new where new: "tr1 = tr @ new" "follows sv s [p] new" "is_ok r \<longrightarrow> length new = 1"
    unfolding conforms_def by (metis One_nat_def fst_conv length_Cons list.size(3) mr snd_conv)
  show "\<exists>new ps. snd (abind m f tr) = tr @ new \<and> (\<exists>x qs. ps = p # qs \<and> Q x (fst (abind m f tr)) qs) \<and>
      follows sv s ps new \<and> (is_ok (fst (abind m f tr)) \<longrightarrow> length new = length ps)"
  proof (cases r)
    case (Inl e)
    obtain qs where qs: "Q undefined (Inl e) qs" using Q by blast
    have "follows sv s (p # qs) new" using new(2) by (auto simp: follows_def take_Cons' split: if_splits)
    then show ?thesis
      by (intro exI [of _ new] exI [of _ "p # qs"]) (use qs in \<open>auto simp: abind_def mr Inl new(1)\<close>)
  next
    case (Inr x)
    obtain more qs where more: "snd (f x tr1) = tr1 @ more" "Q x (fst (f x tr1)) qs" "follows sv s qs more"
      "is_ok (fst (f x tr1)) \<longrightarrow> length more = length qs"
      using f [of x] unfolding conforms_def by blast
    have "length new = 1" using new(3) Inr by simp
    then obtain rq where rq: "new = [rq]" by (auto simp: length_Suc_conv)
    have "follows sv s (p # qs) (rq # more)" using new(2) more(3) rq by (auto simp: follows_def)
    then show ?thesis
      by (intro exI [of _ "rq # more"] exI [of _ "p # qs"]) (use more rq in \<open>auto simp: abind_def mr Inr new(1)\<close>)
  qed
qed

lemma conforms_weaken: "conforms sv s m P \<Longrightarrow> (\<And>r ps. P r ps \<Longrightarrow> Q r ps) \<Longrightarrow> conforms sv s m Q"
  unfolding conforms_def by meson

text \<open>A request, with its error rewritten, and a check of the response after it.\<close>

lemma conforms_request:
  "conforms sv s (abind (amap_err g (request env sv s verb path query credential accept body)) (\<lambda>a. lift (h a)))
     (\<lambda>r ps. ps = [(verb, path, query, credential, accept, body)])"
proof -
  let ?p = "(verb, path, query, credential, accept, body)"
  have req: "conforms sv s (amap_err g (request env sv s verb path query credential accept body)) (\<lambda>r ps. ps = [?p])"
    unfolding conforms_def
  proof
    fix tr
    show "\<exists>new ps. snd (amap_err g (request env sv s verb path query credential accept body) tr) = tr @ new \<and>
        ps = [?p] \<and> follows sv s ps new \<and>
        (is_ok (fst (amap_err g (request env sv s verb path query credential accept body) tr)) \<longrightarrow> length new = length ps)"
    proof (cases "endpoint sv s path query")
      case (Inl e)
      then show ?thesis
        by (intro exI [of _ "[]"] exI [of _ "[?p]"]) (simp add: request_def abind_def lift_def amap_err_def map_err_def follows_Nil)
    next
      case (Inr url)
      show ?thesis
      proof (cases "ge_new_request env url")
        case None
        then show ?thesis
          by (intro exI [of _ "[make_request s verb url credential accept body]"] exI [of _ "[?p]"])
            (simp add: request_def abind_def lift_def amap_err_def map_err_def Inr Let_def follows_def sent_def make_request_def)
      next
        case (Some e)
        then show ?thesis
          by (intro exI [of _ "[]"] exI [of _ "[?p]"])
            (simp add: request_def abind_def lift_def amap_err_def map_err_def Inr follows_Nil)
      qed
    qed
  qed
  have "conforms sv s (lift (h a)) (\<lambda>r ps. ps = [])" for a by (rule conforms_lift) simp
  from conforms_bind [OF req this] show ?thesis by (rule conforms_weaken) auto
qed

lemma sent_confined:
  assumes "sent sv s sp rq"
  shows "\<not> rq_follow_redirects rq \<and> rq_timeout rq \<le> ro_request_timeout (so_options s)"
proof -
  obtain verb url credential accept body where rq: "rq = make_request s verb url credential accept body"
    using assms by (auto simp: sent_def split: prod.splits)
  show ?thesis by (simp add: rq make_request_def client_timeout_def Let_def)
qed

lemma list_all2_witness: "list_all2 P xs ys \<Longrightarrow> y \<in> set ys \<Longrightarrow> \<exists>x. P x y"
  by (induction rule: list_all2_induct) auto

text \<open>The requests of a whole snapshot, for the values it learns on the way.\<close>

definition snapshot_plan ::
  "RepositorySource \<Rightarrow> string \<Rightarrow> int \<Rightarrow> string \<Rightarrow> string \<Rightarrow> string \<Rightarrow> request_spec list"
where
  "snapshot_plan s jwt installationID token branch sha =
     [(''GET'', repositoryPath s @ ''/installation'', [], jwt, github_json, None),
      (''POST'', token_endpoint installationID, [], jwt, github_json, Some (token_body s)),
      (''GET'', repositoryPath s, [], token, github_json, None),
      (''GET'', repositoryPath s @ ''/commits'', [(''sha'', branch), (''per_page'', ''1'')], token, github_json, None),
      (''GET'', repositoryPath s @ ''/contents/.delegatd.yaml'', [(''ref'', sha)], token, github_raw, None)]"

lemma step_conforms:
  "conforms sv s (snapshot_installation env sv s ctx jwt) (\<lambda>r ps. ps = [snapshot_plan s jwt i token branch sha ! 0])"
  "conforms sv s (snapshot_token env sv s ctx jwt i) (\<lambda>r ps. ps = [snapshot_plan s jwt i token branch sha ! 1])"
  "conforms sv s (snapshot_identity env sv s ctx token) (\<lambda>r ps. ps = [snapshot_plan s jwt i token branch sha ! 2])"
  "conforms sv s (snapshot_commit env sv s ctx token branch) (\<lambda>r ps. ps = [snapshot_plan s jwt i token branch sha ! 3])"
  "conforms sv s (snapshot_configuration env sv s ctx token sha) (\<lambda>r ps. ps = [snapshot_plan s jwt i token branch sha ! 4])"
  unfolding snapshot_installation_def snapshot_token_def snapshot_identity_def snapshot_commit_def
    snapshot_configuration_def snapshot_plan_def nth_Cons_0 nth_Cons_numeral One_nat_def nth_Cons_Suc
  by (simp_all add: conforms_request)

lemma snapshot_conforms:
  "conforms sv s (snapshot_with_jwt env sv s ctx jwt)
     (\<lambda>r ps. \<exists>i token branch sha. ps = snapshot_plan s jwt i token branch sha \<and>
        (case r of Inl e \<Rightarrow> True | Inr m \<Rightarrow> rm_revision m = sha))"
proof -
  let ?R = "\<lambda>r sha. case r of Inl e \<Rightarrow> True | Inr m \<Rightarrow> rm_revision m = sha"
  let ?material = "\<lambda>i fullName sha c. Inr \<lparr>rm_external_ref = fullName, rm_external_identity = dec_int i,
      rm_revision = sha, rm_configuration = c\<rparr>"
  have p5: "conforms sv s
      (abind (snapshot_configuration env sv s ctx token sha) (\<lambda>c. lift (?material i fullName sha c)))
      (\<lambda>r ps. ps = drop 4 (snapshot_plan s jwt iid token branch sha) \<and> ?R r sha)" for token sha i fullName iid branch
    by (rule conforms_weaken [OF conforms_bind [OF step_conforms(5) conforms_lift,
        where Q = "\<lambda>c r ps. ps = [] \<and> ?R r sha"]]) (auto simp: snapshot_plan_def)
  have p4: "conforms sv s
      (abind (snapshot_commit env sv s ctx token branch) (\<lambda>sha.
       abind (snapshot_configuration env sv s ctx token sha) (\<lambda>c. lift (?material i fullName sha c))))
      (\<lambda>r ps. \<exists>sha. ps = drop 3 (snapshot_plan s jwt iid token branch sha) \<and> ?R r sha)" for token i fullName iid branch
    by (rule conforms_weaken [OF conforms_bind [OF step_conforms(4) p5]])
      (auto simp: snapshot_plan_def)
  have p3: "conforms sv s
      (abind (snapshot_identity env sv s ctx token) (\<lambda>(i, fullName, branch).
       abind (snapshot_commit env sv s ctx token branch) (\<lambda>sha.
       abind (snapshot_configuration env sv s ctx token sha) (\<lambda>c. lift (?material i fullName sha c)))))
      (\<lambda>r ps. \<exists>branch sha. ps = drop 2 (snapshot_plan s jwt iid token branch sha) \<and> ?R r sha)" for token iid
  proof (rule conforms_weaken [OF conforms_bind [OF step_conforms(3),
      where Q = "\<lambda>x r ps. \<exists>sha. ps = drop 3 (snapshot_plan s jwt iid token (snd (snd x)) sha) \<and> ?R r sha"]])
    show "conforms sv s ((\<lambda>(i, fullName, branch). abind (snapshot_commit env sv s ctx token branch) (\<lambda>sha.
       abind (snapshot_configuration env sv s ctx token sha) (\<lambda>c. lift (?material i fullName sha c)))) x)
      (\<lambda>r ps. \<exists>sha. ps = drop 3 (snapshot_plan s jwt iid token (snd (snd x)) sha) \<and> ?R r sha)" for x
      using p4 by (cases x) simp
  qed (auto simp: snapshot_plan_def)
  have p2: "conforms sv s
      (abind (snapshot_token env sv s ctx jwt iid) (\<lambda>token.
       abind (snapshot_identity env sv s ctx token) (\<lambda>(i, fullName, branch).
       abind (snapshot_commit env sv s ctx token branch) (\<lambda>sha.
       abind (snapshot_configuration env sv s ctx token sha) (\<lambda>c. lift (?material i fullName sha c))))))
      (\<lambda>r ps. \<exists>token branch sha. ps = drop 1 (snapshot_plan s jwt iid token branch sha) \<and> ?R r sha)" for iid
    by (rule conforms_weaken [OF conforms_bind [OF step_conforms(2) p3]])
      (auto simp: snapshot_plan_def)
  show ?thesis
    unfolding snapshot_with_jwt_def
    by (rule conforms_weaken [OF conforms_bind [OF step_conforms(1) p2]])
      (auto simp: snapshot_plan_def)
qed

lemma sent_all_confined:
  assumes "list_all2 (sent sv s) ps requests"
  shows "list_all (\<lambda>rq. \<not> rq_follow_redirects rq \<and> rq_timeout rq \<le> ro_request_timeout (so_options s)) requests"
  unfolding list_all_iff
proof
  fix rq
  assume "rq \<in> set requests"
  with list_all2_witness [OF assms] obtain sp where "sent sv s sp rq" by metis
  then show "\<not> rq_follow_redirects rq \<and> rq_timeout rq \<le> ro_request_timeout (so_options s)" by (rule sent_confined)
qed

text \<open>The requests of a snapshot with the App's token in hand.\<close>

lemma requests_with_jwt:
  assumes "snapshot_with_jwt env sv s ctx jwt [] = (r, requests)"
  shows "\<exists>installationID token branch sha. length requests \<le> 5 \<and>
    list_all2 (sent sv s) (take (length requests) (snapshot_plan s jwt installationID token branch sha)) requests \<and>
    (case r of Inl e \<Rightarrow> True | Inr m \<Rightarrow> length requests = 5 \<and> sha = rm_revision m)"
proof -
  obtain i token branch sha where n: "case r of Inl e \<Rightarrow> True | Inr m \<Rightarrow> rm_revision m = sha"
    "follows sv s (snapshot_plan s jwt i token branch sha) requests"
    "is_ok r \<longrightarrow> length requests = length (snapshot_plan s jwt i token branch sha)"
    using snapshot_conforms [of sv s env ctx jwt] assms unfolding conforms_def
    by (metis append_Nil fst_conv snd_conv)
  have len: "length (snapshot_plan s jwt i token branch sha) = 5" by (simp add: snapshot_plan_def)
  show ?thesis
  proof (rule exI [of _ i], rule exI [of _ token], rule exI [of _ branch], rule exI [of _ sha], intro conjI)
    show "length requests \<le> 5"
      "list_all2 (sent sv s) (take (length requests) (snapshot_plan s jwt i token branch sha)) requests"
      using n(2) len by (simp_all add: follows_def)
    show "case r of Inl e \<Rightarrow> True | Inr m \<Rightarrow> length requests = 5 \<and> sha = rm_revision m"
      using n(1,3) len by (auto split: sum.splits)
  qed
qed

text \<open>A snapshot sends nothing, or has a usable key and a token signed with it.\<close>

lemma Snapshot_cases:
  obtains (none) e where "Snapshot env sv s ctx = (Inl e, [])"
  | (run) key jwt where "key_usable env (so_app s) (so_dir s) key"
    "appJWT env key (gc_app_id (so_app s)) (source_now s 0) = Inr jwt"
    "Snapshot env sv s ctx = snapshot_with_jwt env sv s ctx jwt []"
proof (cases "contextError ctx 0")
  case (Some c)
  then show ?thesis by (intro none) (simp add: Snapshot_def)
next
  case live: None
  show ?thesis
  proof (cases "loadPrivateKey env (so_app s) (so_dir s)")
    case (Inl p)
    then show ?thesis by (cases p) (auto intro: none simp: Snapshot_def live)
  next
    case key: (Inr key)
    show ?thesis
    proof (cases "appJWT env key (gc_app_id (so_app s)) (source_now s 0)")
      case (Inl m)
      show ?thesis by (rule none) (simp add: Snapshot_def live key Inl)
    next
      case (Inr jwt)
      have "key_usable env (so_app s) (so_dir s) key" using key by (simp add: loadPrivateKey_Inr)
      then show ?thesis using Inr by (rule run) (simp add: Snapshot_def live key Inr)
    qed
  qed
qed

text \<open>
  C8.  The connector does only what it must.  A snapshot sends at most five requests, a prefix of one fixed
  plan: look up the installation, ask for a token that can read the contents and metadata of this one
  repository, then read the repository, the newest commit of its default branch and the configuration
  file at that commit.  Only the token request is a POST, the App's token goes to the first two requests
  only, no redirect is followed, and a snapshot that succeeds has sent all five and names the commit at
  which it read the configuration.
\<close>

theorem Snapshot_requests_planned:
  "case Snapshot env sv s ctx of (r, requests) \<Rightarrow>
     \<exists>jwt installationID token branch sha.
       length requests \<le> 5 \<and>
       list_all2 (sent sv s) (take (length requests) (snapshot_plan s jwt installationID token branch sha)) requests \<and>
       list_all (\<lambda>rq. \<not> rq_follow_redirects rq \<and> rq_timeout rq \<le> ro_request_timeout (so_options s)) requests \<and>
       (requests = [] \<or> (\<exists>key. key_usable env (so_app s) (so_dir s) key \<and>
          appJWT env key (gc_app_id (so_app s)) (source_now s 0) = Inr jwt)) \<and>
       (case r of Inl e \<Rightarrow> True | Inr m \<Rightarrow> length requests = 5 \<and> sha = rm_revision m)"
proof (cases rule: Snapshot_cases [of env sv s ctx])
  case (run key jwt)
  obtain r requests where out: "snapshot_with_jwt env sv s ctx jwt [] = (r, requests)" by fastforce
  obtain i token branch sha where n: "length requests \<le> 5"
    "list_all2 (sent sv s) (take (length requests) (snapshot_plan s jwt i token branch sha)) requests"
    "case r of Inl e \<Rightarrow> True | Inr m \<Rightarrow> length requests = 5 \<and> sha = rm_revision m"
    using requests_with_jwt [OF out] by blast
  show ?thesis
    unfolding run(3) out prod.case using n sent_all_confined [OF n(2)] run(1,2) by blast
qed simp

section \<open>The material of a snapshot\<close>

text \<open>Every error is a \<open>repositoryError\<close> with one of the fixed reasons.\<close>

definition source_error :: "gerr \<Rightarrow> bool" where
  "source_error e \<longleftrightarrow> (\<exists>reason cause. e = RepositoryError reason cause \<and>
     reason \<in> key_reasons \<union> {''task cancelled'', ''repository is not installed'', ''repository is unavailable'',
       ''repository configuration is invalid''})"

lemma source_errorI:
  "source_error (unavailable_repository c)"
  "source_error (RepositoryError ''repository is not installed'' c)"
  "source_error (RepositoryError ''repository configuration is invalid'' c)"
  "source_error (RepositoryError ''task cancelled'' c)"
  by (simp_all add: source_error_def unavailable_repository_def)

definition gives :: "'a action \<Rightarrow> ('a \<Rightarrow> bool) \<Rightarrow> bool" where
  "gives m R \<longleftrightarrow> (\<forall>tr. case fst (m tr) of Inl e \<Rightarrow> source_error e | Inr x \<Rightarrow> R x)"

lemma gives_lift: "(case r of Inl e \<Rightarrow> source_error e | Inr x \<Rightarrow> R x) \<Longrightarrow> gives (lift r) R"
  by (simp add: gives_def lift_def)

lemma gives_bind:
  assumes m: "gives m R" and f: "\<And>x. R x \<Longrightarrow> gives (f x) Q"
  shows "gives (abind m f) Q"
  unfolding gives_def
proof
  fix tr
  obtain r tr1 where mr: "m tr = (r, tr1)" by fastforce
  have "case r of Inl e \<Rightarrow> source_error e | Inr x \<Rightarrow> R x" using m mr unfolding gives_def by (metis fst_conv)
  then show "case fst (abind m f tr) of Inl e \<Rightarrow> source_error e | Inr x \<Rightarrow> Q x"
    using f [unfolded gives_def] by (cases r) (simp_all add: abind_def mr)
qed

lemma request_error:
  "fst (request env sv s verb path query credential accept body tr) = Inl e \<Longrightarrow> \<exists>c. e = unavailable_repository c"
  by (auto simp: request_def abind_def lift_def read_response_def map_err_eq_Inl Let_def
      split: prod.splits sum.splits option.splits if_splits)

lemma mapError_source: "source_error (mapError ctx child (unavailable_repository c))"
  by (simp add: mapError_def source_errorI unavailable_repository_def [of c])
    (simp add: source_errorI unavailable_repository_def [symmetric])

lemma gives_request:
  assumes "g = mapError ctx child \<or> g = configuration_error ctx child"
    and h: "\<And>a. case h a of Inl e \<Rightarrow> source_error e | Inr x \<Rightarrow> R x"
  shows "gives (abind (amap_err g (request env sv s verb path query credential accept body)) (\<lambda>a. lift (h a))) R"
proof (rule gives_bind [where R = "\<lambda>a. True"])
  have "source_error (g (unavailable_repository c))" for c
    using assms(1) by (auto simp: configuration_error_def mapError_source source_errorI)
  note ok = this
  show "gives (amap_err g (request env sv s verb path query credential accept body)) (\<lambda>a. True)"
    unfolding gives_def
  proof
    fix tr
    obtain r tr1 where m: "request env sv s verb path query credential accept body tr = (r, tr1)" by fastforce
    show "case fst (amap_err g (request env sv s verb path query credential accept body) tr) of
        Inl e \<Rightarrow> source_error e | Inr x \<Rightarrow> True"
      using request_error [of env sv s verb path query credential accept body tr] ok
      by (cases r) (auto simp: amap_err_def m map_err_def)
  qed
qed (use h gives_lift in auto)

definition commit_sha :: "string \<Rightarrow> bool" where
  "commit_sha s \<longleftrightarrow> (length s = 40 \<or> length s = 64) \<and>
     (\<forall>c \<in> set s. 48 \<le> byte c \<and> byte c \<le> 57 \<or> 97 \<le> byte c \<and> byte c \<le> 102)"

lemma commit_lower: "rx_match commitPattern s \<Longrightarrow> commit_sha (map lower s)"
proof -
  assume "rx_match commitPattern s"
  then have s: "length s = 40 \<or> length s = 64" "\<forall>c \<in> set s. in_class hex_class c"
    by (auto simp: rx_match_iff commitPattern_def rx_lang_rep_class simp del: rx_lang.simps(7))
  have "48 \<le> byte (lower c) \<and> byte (lower c) \<le> 57 \<or> 97 \<le> byte (lower c) \<and> byte (lower c) \<le> 102"
    if "in_class hex_class c" for c
  proof -
    have "48 \<le> byte c \<and> byte c \<le> 57 \<or> 97 \<le> byte c \<and> byte c \<le> 102 \<or> 65 \<le> byte c \<and> byte c \<le> 70"
      using that by (auto simp: in_class_def hex_class_def byte_def)
    then show ?thesis by (auto simp: lower_def byte_of_code)
  qed
  with s show ?thesis by (auto simp: commit_sha_def)
qed

lemma empty_configuration_normal: "repository_normal emptyRepositoryConfiguration"
proof -
  have "NormalizeRequest \<lparr>pr_actions = Some [], pr_protected_paths = Some []\<rparr> =
      Inr \<lparr>pr_actions = Some [], pr_protected_paths = Some []\<rparr>"
    by (simp add: NormalizeRequest_def)
  then show ?thesis by (simp add: repository_normal_def emptyRepositoryConfiguration_def)
qed

lemma identity_id_int64: "identity_id body = Inr (Some i) \<Longrightarrow> int64 i"
  unfolding identity_id_def json_Unmarshal_def rbind_eq_Inr
proof (elim exE conjE)
  fix v
  assume "set_struct set_id None v = Inr (Some i)"
  then have "case Some i of None \<Rightarrow> True | Some j \<Rightarrow> int64 j"
    by (rule set_struct_inv [where P = "\<lambda>r. case r of None \<Rightarrow> True | Some j \<Rightarrow> int64 j", rotated 2])
      (auto simp: set_id_def split: if_splits option.splits dest: set_int_ptr_int64)
  then show "int64 i" by simp
qed

lemma read_identity_int64: "read_identity body = Inr r \<Longrightarrow> ri_id r = Some i \<Longrightarrow> int64 i"
  unfolding read_identity_def json_Unmarshal_def rbind_eq_Inr
proof (elim exE conjE)
  fix v
  assume r: "set_struct set_identity \<lparr>ri_id = None, ri_full_name = None, ri_default_branch = None\<rparr> v = Inr r" "ri_id r = Some i"
  have "case ri_id r of None \<Rightarrow> True | Some j \<Rightarrow> int64 j"
    by (rule set_struct_inv [where P = "\<lambda>r. case ri_id r of None \<Rightarrow> True | Some j \<Rightarrow> int64 j", OF _ _ r(1)])
      (auto simp: set_identity_def rbind_eq_Inr split: if_splits option.splits dest: set_int_ptr_int64)
  then show "int64 i" using r(2) by simp
qed

lemma installation_gives: "gives (snapshot_installation env sv s ctx jwt) (\<lambda>i. 0 < i \<and> int64 i)"
  unfolding snapshot_installation_def
  by (rule gives_request) (auto simp: source_errorI not_le dest: identity_id_int64 split: sum.split option.split)

lemma token_gives: "gives (snapshot_token env sv s ctx jwt i) (\<lambda>token. token \<noteq> '''')"
  unfolding snapshot_token_def
  by (rule gives_request) (auto simp: source_errorI split: sum.split option.split)

definition identified :: "RepositorySource \<Rightarrow> int \<times> string \<times> string \<Rightarrow> bool" where
  "identified s x \<longleftrightarrow> (case x of (i, fullName, branch) \<Rightarrow>
     0 < i \<and> int64 i \<and> equal_fold_ascii fullName (rcf_external_ref (so_resource s)) \<and> branch \<noteq> '''')"

lemma identity_gives: "gives (snapshot_identity env sv s ctx token) (identified s)"
  unfolding snapshot_identity_def
proof (rule gives_request)
  fix a :: apiResponse
  show "case if ar_status a \<noteq> 200 then Inl (unavailable_repository None)
        else (case read_identity (ar_body a) of
            Inl e \<Rightarrow> Inl (unavailable_repository (Some e))
          | Inr r \<Rightarrow>
              (case (ri_id r, ri_full_name r, ri_default_branch r) of
                 (Some i, Some fullName, Some defaultBranch) \<Rightarrow>
                   if i \<le> 0 \<or> defaultBranch = '''' \<or> \<not> equal_fold_ascii fullName (rcf_external_ref (so_resource s))
                   then Inl (unavailable_repository None) else Inr (i, fullName, defaultBranch)
               | _ \<Rightarrow> Inl (unavailable_repository None))) of
      Inl e \<Rightarrow> source_error e | Inr x \<Rightarrow> identified s x"
  proof (cases "read_identity (ar_body a)")
    case (Inr r)
    then show ?thesis
      using read_identity_int64 [OF Inr]
      by (cases "ri_id r"; cases "ri_full_name r"; cases "ri_default_branch r")
        (auto simp: source_errorI identified_def not_le)
  qed (simp add: source_errorI)
qed (rule disjI1, rule refl)

lemma commit_gives: "gives (snapshot_commit env sv s ctx token branch) commit_sha"
  unfolding snapshot_commit_def
  by (rule gives_request) (auto simp: source_errorI commit_lower split: sum.split list.split)

lemma configuration_gives: "gives (snapshot_configuration env sv s ctx token sha) repository_normal"
  unfolding snapshot_configuration_def
proof (rule gives_request)
  fix a :: apiResponse
  have "repository_normal c" if "DecodeRepository (sv_yaml sv) (sv_typed sv) (ar_body a) = Inr c" for c
    using that normalize_repository_idem by (auto simp: DecodeRepository_def rbind_eq_Inr)
  then show "case if ar_status a = 404 then Inr emptyRepositoryConfiguration
        else if ar_status a \<noteq> 200 then Inl (unavailable_repository None)
        else map_err (\<lambda>e. RepositoryError ''repository configuration is invalid'' (Some e))
               (DecodeRepository (sv_yaml sv) (sv_typed sv) (ar_body a)) of
      Inl e \<Rightarrow> source_error e | Inr x \<Rightarrow> repository_normal x"
    by (auto simp: source_errorI empty_configuration_normal map_err_def split: sum.split)
qed (rule disjI2, rule refl)

definition material_sound :: "RepositorySource \<Rightarrow> RepositoryMaterial \<Rightarrow> bool" where
  "material_sound s m \<longleftrightarrow>
     equal_fold_ascii (rm_external_ref m) (rcf_external_ref (so_resource s)) \<and>
     (\<exists>i. 0 < i \<and> int64 i \<and> rm_external_identity m = dec_int i) \<and>
     commit_sha (rm_revision m) \<and> repository_normal (rm_configuration m)"

lemma snapshot_gives: "gives (snapshot_with_jwt env sv s ctx jwt) (material_sound s)"
  unfolding snapshot_with_jwt_def
proof (rule gives_bind [OF installation_gives], rule gives_bind [OF token_gives], rule gives_bind [OF identity_gives])
  fix i token x
  assume "identified s x"
  then show "gives ((\<lambda>(repositoryID, fullName, defaultBranch).
     abind (snapshot_commit env sv s ctx token defaultBranch) (\<lambda>commitSHA.
     abind (snapshot_configuration env sv s ctx token commitSHA) (\<lambda>configuration.
     lift (Inr \<lparr>rm_external_ref = fullName, rm_external_identity = dec_int repositoryID,
                rm_revision = commitSHA, rm_configuration = configuration\<rparr>)))) x) (material_sound s)"
    by (auto simp: identified_def material_sound_def intro!: gives_bind [OF commit_gives] gives_bind [OF configuration_gives]
        gives_lift split: prod.splits)
qed

text \<open>
  What a snapshot returns is sound, whatever GitHub answers: the repository is the configured one (up
  to case), its identity is a positive 64-bit number in decimal, the revision is a commit of 40 or 64 lower
  case hexadecimal digits, and the configuration is in normal form, the empty one when the repository
  has none.  Everything else is an error of the connector with one of its fixed reasons, which hide the
  response.
\<close>

lemma Snapshot_gives:
  "case fst (Snapshot env sv s ctx) of Inl e \<Rightarrow> source_error e | Inr m \<Rightarrow> material_sound s m"
proof (cases "contextError ctx 0")
  case live: None
  show ?thesis
  proof (cases "loadPrivateKey env (so_app s) (so_dir s)")
    case (Inl p)
    then show ?thesis
      using loadPrivateKey_Inl [of env "so_app s" "so_dir s" "fst p" "snd p"]
      by (cases p) (auto simp: Snapshot_def live source_error_def)
  next
    case (Inr key)
    have "source_error (RepositoryError ''private key is invalid'' e)" for e
      by (simp add: source_error_def key_reasons_def)
    then show ?thesis
      using snapshot_gives [of env sv s ctx] Inr
      by (cases "appJWT env key (gc_app_id (so_app s)) (source_now s 0)") (simp_all add: Snapshot_def live gives_def)
  qed
qed (simp add: Snapshot_def source_errorI)

section \<open>The evidence behind the material\<close>

text \<open>
  \<open>answered env sv s k sp a\<close>: the request that \<open>sp\<close> asks for was the one sent after \<open>k\<close> others, the transport
  returned a response to it, and the response was read in full, with status and body \<open>a\<close>.
\<close>

definition answered ::
  "'k github_env \<Rightarrow> repository_env \<Rightarrow> RepositorySource \<Rightarrow> nat \<Rightarrow> request_spec \<Rightarrow> apiResponse \<Rightarrow> bool"
where
  "answered env sv s k sp a \<longleftrightarrow>
     (\<exists>rq response. sent sv s sp rq \<and> ge_do env k rq = Inr response \<and> read_response response = Inr a)"

text \<open>What GitHub said: the token it granted for the installation, the repository, its newest commit, and its file.\<close>

definition granted :: "'k github_env \<Rightarrow> repository_env \<Rightarrow> RepositorySource \<Rightarrow> string \<Rightarrow> bool" where
  "granted env sv s token \<longleftrightarrow>
     (\<exists>jwt i a b t.
        answered env sv s 0 (''GET'', repositoryPath s @ ''/installation'', [], jwt, github_json, None) a \<and>
        ar_status a = 200 \<and> identity_id (ar_body a) = Inr (Some i) \<and> 0 < i \<and>
        answered env sv s 1 (''POST'', token_endpoint i, [], jwt, github_json, Some (token_body s)) b \<and>
        ar_status b = 201 \<and> read_token (ar_body b) = Inr t \<and> token_scope_ok t \<and> token = tk_token t)"

definition named_repository ::
  "'k github_env \<Rightarrow> repository_env \<Rightarrow> RepositorySource \<Rightarrow> string \<Rightarrow> int \<Rightarrow> string \<Rightarrow> string \<Rightarrow> bool"
where
  "named_repository env sv s token i fullName branch \<longleftrightarrow>
     (\<exists>a. answered env sv s 2 (''GET'', repositoryPath s, [], token, github_json, None) a \<and> ar_status a = 200 \<and>
        read_identity (ar_body a) =
          Inr \<lparr>ri_id = Some i, ri_full_name = Some fullName, ri_default_branch = Some branch\<rparr>)"

definition named_commit ::
  "'k github_env \<Rightarrow> repository_env \<Rightarrow> RepositorySource \<Rightarrow> string \<Rightarrow> string \<Rightarrow> string \<Rightarrow> bool"
where
  "named_commit env sv s token branch revision \<longleftrightarrow>
     (\<exists>a sha older. answered env sv s 3 (''GET'', repositoryPath s @ ''/commits'',
          [(''sha'', branch), (''per_page'', ''1'')], token, github_json, None) a \<and> ar_status a = 200 \<and>
        read_commits (ar_body a) = Inr (sha # older) \<and> rx_match commitPattern sha \<and> revision = map lower sha)"

definition read_configuration ::
  "'k github_env \<Rightarrow> repository_env \<Rightarrow> RepositorySource \<Rightarrow> string \<Rightarrow> string \<Rightarrow> RepositoryConfiguration \<Rightarrow> bool"
where
  "read_configuration env sv s token revision configuration \<longleftrightarrow>
     (\<exists>a. answered env sv s 4 (''GET'', repositoryPath s @ ''/contents/.delegatd.yaml'', [(''ref'', revision)],
          token, github_raw, None) a \<and>
        (if ar_status a = 404 then configuration = emptyRepositoryConfiguration
         else ar_status a = 200 \<and> DecodeRepository (sv_yaml sv) (sv_typed sv) (ar_body a) = Inr configuration))"

text \<open>The material is what GitHub answered about the one repository, and the configuration is the one at the commit.\<close>

definition pinned :: "'k github_env \<Rightarrow> repository_env \<Rightarrow> RepositorySource \<Rightarrow> RepositoryMaterial \<Rightarrow> bool" where
  "pinned env sv s m \<longleftrightarrow>
     (\<exists>token i branch.
        granted env sv s token \<and>
        named_repository env sv s token i (rm_external_ref m) branch \<and> rm_external_identity m = dec_int i \<and>
        named_commit env sv s token branch (rm_revision m) \<and>
        read_configuration env sv s token (rm_revision m) (rm_configuration m))"

lemma abind_Inr: "abind m f tr = (Inr y, tr') \<longleftrightarrow> (\<exists>x tr1. m tr = (Inr x, tr1) \<and> f x tr1 = (Inr y, tr'))"
  by (auto simp: abind_def split: prod.splits sum.splits)

lemma lift_Inr: "lift r tr = (Inr y, tr') \<longleftrightarrow> r = Inr y \<and> tr' = tr"
  by (auto simp: lift_def)

lemma amap_err_Inr: "amap_err g m tr = (Inr y, tr') \<longleftrightarrow> m tr = (Inr y, tr')"
  by (auto simp: amap_err_def map_err_eq_Inr split: prod.splits)

lemma request_answered:
  assumes "abind (amap_err g (request env sv s verb path query credential accept body)) (\<lambda>a. lift (h a)) tr = (Inr x, tr')"
  shows "\<exists>a rq. tr' = tr @ [rq] \<and> answered env sv s (length tr) (verb, path, query, credential, accept, body) a \<and> h a = Inr x"
proof -
  obtain a where r: "request env sv s verb path query credential accept body tr = (Inr a, tr')" and h: "h a = Inr x"
    using assms by (auto simp: abind_Inr amap_err_Inr lift_Inr)
  from r obtain url where url: "endpoint sv s path query = Inr url"
    and d: "(case ge_do env (length tr) (make_request s verb url credential accept body) of
        Inl e \<Rightarrow> Inl (unavailable_repository (Some e)) | Inr response \<Rightarrow> read_response response) = Inr a"
    and tr': "tr' = tr @ [make_request s verb url credential accept body]"
    by (auto simp: request_def abind_Inr lift_Inr map_err_eq_Inr Let_def)
  have "sent sv s (verb, path, query, credential, accept, body) (make_request s verb url credential accept body)"
    using url by (simp add: sent_def make_request_def)
  with d have "answered env sv s (length tr) (verb, path, query, credential, accept, body) a"
    unfolding answered_def by (auto split: sum.splits)
  with tr' h show ?thesis by blast
qed

lemma snapshot_pinned:
  assumes "snapshot_with_jwt env sv s ctx jwt [] = (Inr m, requests)"
  shows "pinned env sv s m"
proof -
  from assms obtain i token n fullName branch sha configuration tr1 tr2 tr3 tr4 tr5 where
    i: "snapshot_installation env sv s ctx jwt [] = (Inr i, tr1)" and
    t: "snapshot_token env sv s ctx jwt i tr1 = (Inr token, tr2)" and
    n: "snapshot_identity env sv s ctx token tr2 = (Inr (n, fullName, branch), tr3)" and
    c: "snapshot_commit env sv s ctx token branch tr3 = (Inr sha, tr4)" and
    f: "snapshot_configuration env sv s ctx token sha tr4 = (Inr configuration, tr5)" and
    m: "m = \<lparr>rm_external_ref = fullName, rm_external_identity = dec_int n, rm_revision = sha, rm_configuration = configuration\<rparr>"
    by (auto simp: snapshot_with_jwt_def abind_Inr lift_Inr)
  have l1: "length tr1 = 1" and a0: "\<exists>a. answered env sv s 0 (''GET'', repositoryPath s @ ''/installation'', [], jwt, github_json, None) a \<and>
      ar_status a = 200 \<and> identity_id (ar_body a) = Inr (Some i) \<and> 0 < i"
    using request_answered [OF i [unfolded snapshot_installation_def]] by (auto split: if_splits sum.splits option.splits)
  have l2: "length tr2 = 2" and a1: "\<exists>b t. answered env sv s 1 (''POST'', token_endpoint i, [], jwt, github_json, Some (token_body s)) b \<and>
      ar_status b = 201 \<and> read_token (ar_body b) = Inr t \<and> token_scope_ok t \<and> token = tk_token t"
    using request_answered [OF t [unfolded snapshot_token_def]] l1 by (auto split: if_splits sum.splits option.splits)
  have l3: "length tr3 = 3" and a2: "named_repository env sv s token n fullName branch"
    using request_answered [OF n [unfolded snapshot_identity_def]] l2
    by (auto simp: named_repository_def split: if_splits sum.splits option.splits)
  have l4: "length tr4 = 4" and a3: "named_commit env sv s token branch sha"
    using request_answered [OF c [unfolded snapshot_commit_def]] l3
    by (auto simp: named_commit_def split: if_splits sum.splits list.splits)
  have a4: "read_configuration env sv s token sha configuration"
    using request_answered [OF f [unfolded snapshot_configuration_def]] l4
    by (auto simp: read_configuration_def map_err_eq_Inr split: if_splits)
  have "granted env sv s token" unfolding granted_def using a0 a1 by blast
  then show ?thesis unfolding pinned_def m using a2 a3 a4 by auto
qed

lemma Snapshot_pinned:
  assumes "fst (Snapshot env sv s ctx) = Inr m"
  shows "pinned env sv s m"
proof (cases rule: Snapshot_cases [of env sv s ctx])
  case (run key jwt)
  then show ?thesis using assms snapshot_pinned [of env sv s ctx jwt m "snd (snapshot_with_jwt env sv s ctx jwt [])"]
    by (simp add: prod_eq_iff)
qed (use assms in simp)

end
