(* ===== verification/Sqlite_Schema.thy ===== *)
theory Sqlite_Schema
  imports Sqlite_Store Go_Path
begin

text \<open>
  \<open>internal/store/sqlite/migrations.go\<close> and the opening of the store in \<open>store.go\<close>: the database
  file with its schema version, its schema objects and its tables, \<open>migrate\<close>, \<open>validateSchema\<close>,
  \<open>Open\<close> and \<open>OpenReadOnly\<close>.  A \<open>CREATE TABLE\<close> statement is kept as its columns and constraints: its
  text is rendered from them and what \<open>PRAGMA table_info\<close> reports is computed from them, so that the
  statements and the table of expected columns are checked against each other.  The file system and
  the driver are arguments, as in \<open>Sqlite_Store\<close>.
\<close>

section \<open>Schema objects\<close>

record column =
  cl_name :: string
  cl_typ :: string
  cl_not_null :: int
  cl_primary_key :: int

record schema_object =
  so_name :: string
  so_type :: string
  so_sql :: "string option"
  so_columns :: "column list"

record dbfile =
  df_version :: int
  df_objects :: "schema_object list"
  df_journal :: string
  df_data :: database

definition new_dbfile :: dbfile where
  "new_dbfile = \<lparr>df_version = 0, df_objects = [], df_journal = ''delete'', df_data = empty_database\<rparr>"

section \<open>The CREATE TABLE statements\<close>

record coldef =
  cd_name :: string
  cd_type :: string
  cd_primary :: bool
  cd_not_null :: bool
  cd_rest :: string

record tabledef =
  tb_name :: string
  tb_columns :: "coldef list"
  tb_primary :: "string list"
  tb_constraints :: "string list"

definition col :: "string \<Rightarrow> string \<Rightarrow> string \<Rightarrow> coldef" where
  "col n t rest = \<lparr>cd_name = n, cd_type = t, cd_primary = False, cd_not_null = True, cd_rest = rest\<rparr>"

definition primary_col :: "string \<Rightarrow> coldef" where
  "primary_col n = \<lparr>cd_name = n, cd_type = ''TEXT'', cd_primary = True, cd_not_null = True, cd_rest = ''''\<rparr>"

definition resources_table :: tabledef where
  "resources_table =
     \<lparr>tb_name = ''resources'',
      tb_columns = [primary_col ''id'', col ''name'' ''TEXT'' '' UNIQUE'', col ''kind'' ''TEXT'' '''',
        col ''connector_instance'' ''TEXT'' '''', col ''external_ref'' ''TEXT'' '''',
        col ''external_identity'' ''TEXT'' '''', col ''revision'' ''TEXT'' '''',
        col ''configuration_json'' ''BLOB'' '''', col ''policy_request_json'' ''BLOB'' '''',
        col ''onboarded_at'' ''TEXT'' '''', col ''updated_at'' ''TEXT'' ''''],
      tb_primary = [], tb_constraints = [''UNIQUE (connector_instance, external_identity)'']\<rparr>"

definition tasks_table :: tabledef where
  "tasks_table =
     \<lparr>tb_name = ''tasks'',
      tb_columns = [primary_col ''id'', col ''resource_id'' ''TEXT'' '' REFERENCES resources(id)'',
        col ''status'' ''TEXT'' '''', col ''resource_json'' ''BLOB'' '''', col ''input_json'' ''BLOB'' '''',
        col ''configuration_json'' ''BLOB'' '''', col ''policy_json'' ''BLOB'' '''', col ''created_at'' ''TEXT'' ''''],
      tb_primary = [], tb_constraints = []\<rparr>"

definition task_history_table :: tabledef where
  "task_history_table =
     \<lparr>tb_name = ''task_history'',
      tb_columns = [col ''task_id'' ''TEXT'' '' REFERENCES tasks(id)'',
        col ''sequence'' ''INTEGER'' '' CHECK (sequence > 0)'', col ''status'' ''TEXT'' '''',
        col ''occurred_at'' ''TEXT'' '''', col ''reason'' ''TEXT'' ''''],
      tb_primary = [''task_id'', ''sequence''], tb_constraints = []\<rparr>"

text \<open>The statement's text, and the columns \<open>PRAGMA table_info\<close> lists for the table it creates.\<close>

definition column_text :: "coldef \<Rightarrow> string" where
  "column_text c = cd_name c @ '' '' @ cd_type c @ (if cd_primary c then '' PRIMARY KEY'' else '''') @
     (if cd_not_null c then '' NOT NULL'' else '''') @ cd_rest c"

definition create_text :: "tabledef \<Rightarrow> string" where
  "create_text t = ''CREATE TABLE '' @ tb_name t @ '' ('' @
     join_with '', '' (map column_text (tb_columns t) @ tb_constraints t @
       (if tb_primary t = [] then [] else [''PRIMARY KEY ('' @ join_with '', '' (tb_primary t) @ '')''])) @
     '') STRICT''"

fun index_of :: "string \<Rightarrow> string list \<Rightarrow> nat option" where
  "index_of x [] = None"
| "index_of x (y # ys) = (if x = y then Some 0 else map_option Suc (index_of x ys))"

definition table_info :: "tabledef \<Rightarrow> column list" where
  "table_info t = map (\<lambda>c. \<lparr>cl_name = cd_name c, cl_typ = cd_type c,
     cl_not_null = (if cd_not_null c then 1 else 0),
     cl_primary_key = (if cd_primary c then 1
        else case index_of (cd_name c) (tb_primary t) of None \<Rightarrow> 0 | Some i \<Rightarrow> int i + 1)\<rparr>) (tb_columns t)"

definition object_of :: "tabledef \<Rightarrow> schema_object" where
  "object_of t = \<lparr>so_name = tb_name t, so_type = ''table'', so_sql = Some (create_text t), so_columns = table_info t\<rparr>"

definition schema_statements :: "tabledef list" where
  "schema_statements = [resources_table, tasks_table, task_history_table]"

section \<open>Migration\<close>

definition lower_byte :: "char \<Rightarrow> char" where
  "lower_byte c = (if 65 \<le> byte c \<and> byte c \<le> 90 then char_of (byte c + 32) else c)"

definition equal_fold :: "string \<Rightarrow> string \<Rightarrow> bool" where
  "equal_fold s t = (map lower_byte s = map lower_byte t)"

text \<open>\<open>name NOT LIKE 'sqlite_%'\<close>: \<open>LIKE\<close> ignores case and its \<open>_\<close> matches any character.\<close>

definition listed :: "schema_object \<Rightarrow> bool" where
  "listed o1 \<longleftrightarrow> \<not> (6 < length (so_name o1) \<and> equal_fold (take 6 (so_name o1)) ''sqlite'')"

definition currentSchemaVersion :: int where "currentSchemaVersion = 1"

definition create_table :: "tabledef \<Rightarrow> dbfile \<Rightarrow> gerr + dbfile" where
  "create_table t f =
     (if list_ex (\<lambda>o1. equal_fold (so_name o1) (tb_name t)) (df_objects f) then Inl (ErrNew ''table already exists'')
      else Inr (f\<lparr>df_objects := df_objects f @ [object_of t]\<rparr>))"

fun run_statements :: "driver \<Rightarrow> nat \<Rightarrow> tabledef list \<Rightarrow> dbfile \<Rightarrow> gerr + dbfile" where
  "run_statements drv k [] f = call drv k (Inr (f\<lparr>df_version := 1\<rparr>))"
| "run_statements drv k (t # ts) f = rbind (call drv k (create_table t f)) (run_statements drv (k + 1) ts)"

text \<open>The migrated file, of which a failure at any point leaves nothing (the transaction).\<close>

definition databaseSchemaVersion :: "driver \<Rightarrow> nat \<Rightarrow> dbfile \<Rightarrow> gerr + int" where
  "databaseSchemaVersion drv i f = call drv i (Inr (df_version f))"

declare databaseSchemaVersion_def [simp]

definition migration :: "driver \<Rightarrow> dbfile \<Rightarrow> gerr + dbfile" where
  "migration drv f =
     rbind (databaseSchemaVersion drv 0 f) (\<lambda>version.
     rbind (fail_if (version < 0 \<or> version > currentSchemaVersion) errStoreUnsupported) (\<lambda>_.
     if version = 0 then
       rbind (call drv 1 (Inr (length (filter listed (df_objects f))))) (\<lambda>objects.
       rbind (fail_if (objects \<noteq> 0) (ErrNew ''state store has an unknown version-zero schema'')) (\<lambda>_.
       rbind (call drv 2 (Inr ())) (\<lambda>_.
       rbind (run_statements drv 3 schema_statements f) (\<lambda>f'.
       rbind (call drv 7 (Inr ())) (\<lambda>_. Inr f')))))
     else Inr f))"

definition migrate :: "driver \<Rightarrow> dbfile \<Rightarrow> (gerr + unit) \<times> dbfile" where
  "migrate drv f = (case migration drv f of Inl e \<Rightarrow> (Inl e, f) | Inr f' \<Rightarrow> (Inr (), f'))"

section \<open>Schema validation\<close>

definition column_def :: "string \<Rightarrow> string \<Rightarrow> int \<Rightarrow> column" where
  "column_def n t pk = \<lparr>cl_name = n, cl_typ = t, cl_not_null = 1, cl_primary_key = pk\<rparr>"

definition expected :: "(string \<times> column list) list" where
  "expected =
     [(''resources'', [column_def ''id'' ''TEXT'' 1, column_def ''name'' ''TEXT'' 0, column_def ''kind'' ''TEXT'' 0,
        column_def ''connector_instance'' ''TEXT'' 0, column_def ''external_ref'' ''TEXT'' 0,
        column_def ''external_identity'' ''TEXT'' 0, column_def ''revision'' ''TEXT'' 0,
        column_def ''configuration_json'' ''BLOB'' 0, column_def ''policy_request_json'' ''BLOB'' 0,
        column_def ''onboarded_at'' ''TEXT'' 0, column_def ''updated_at'' ''TEXT'' 0]),
      (''tasks'', [column_def ''id'' ''TEXT'' 1, column_def ''resource_id'' ''TEXT'' 0, column_def ''status'' ''TEXT'' 0,
        column_def ''resource_json'' ''BLOB'' 0, column_def ''input_json'' ''BLOB'' 0,
        column_def ''configuration_json'' ''BLOB'' 0, column_def ''policy_json'' ''BLOB'' 0,
        column_def ''created_at'' ''TEXT'' 0]),
      (''task_history'', [column_def ''task_id'' ''TEXT'' 1, column_def ''sequence'' ''INTEGER'' 2,
        column_def ''status'' ''TEXT'' 0, column_def ''occurred_at'' ''TEXT'' 0, column_def ''reason'' ''TEXT'' 0])]"

definition column_matches :: "column \<Rightarrow> column \<Rightarrow> bool" where
  "column_matches c e \<longleftrightarrow> cl_name c = cl_name e \<and> equal_fold (cl_typ c) (cl_typ e) \<and>
     cl_not_null c = cl_not_null e \<and> cl_primary_key c = cl_primary_key e"

definition validateTableColumns :: "driver \<Rightarrow> nat \<Rightarrow> column list \<Rightarrow> column list \<Rightarrow> gerr + unit" where
  "validateTableColumns drv k rows columns =
     rbind (call drv k (Inr ())) (\<lambda>_. fail_if (\<not> list_all2 column_matches rows columns) errStoreCorrupt)"

text \<open>\<open>strings.ToUpper\<close>, as far as it makes ASCII letters: U+0131 and U+017F become \<open>I\<close> and \<open>S\<close>.\<close>

fun to_upper :: "string \<Rightarrow> string" where
  "to_upper [] = []"
| "to_upper (c # s) =
     (if 97 \<le> byte c \<and> byte c \<le> 122 then char_of (byte c - 32) # to_upper s
      else if prefix (utf8_enc 305) (c # s) then CHR ''I'' # to_upper (drop 1 s)
      else if prefix (utf8_enc 383) (c # s) then CHR ''S'' # to_upper (drop 1 s)
      else c # to_upper s)"

fun validate_objects :: "driver \<Rightarrow> nat \<Rightarrow> schema_object list \<Rightarrow> string set \<Rightarrow> gerr + string set" where
  "validate_objects drv k [] seen = Inr seen"
| "validate_objects drv k (o1 # os) seen =
     (if so_type o1 \<noteq> ''table'' then Inl (ErrNew ''unexpected state store object'')
      else case map_of expected (so_name o1) of
        None \<Rightarrow> Inl errStoreCorrupt
      | Some columns \<Rightarrow>
          if \<not> contains (to_upper (the (so_sql o1))) ''STRICT'' then Inl errStoreCorrupt
          else rbind (validateTableColumns drv k (so_columns o1) columns) (\<lambda>_.
               validate_objects drv (k + 1) os (insert (so_name o1) seen)))"

text \<open>The rows are scanned first: a \<open>NULL\<close> text cannot be scanned into a string.\<close>

definition validateSchema :: "driver \<Rightarrow> dbfile \<Rightarrow> gerr + unit" where
  "validateSchema drv f =
     rbind (databaseSchemaVersion drv 0 f) (\<lambda>version.
     rbind (fail_if (version \<noteq> currentSchemaVersion) errStoreUnsupported) (\<lambda>_.
     rbind (call drv 1 (Inr (sort_key so_name (filter listed (df_objects f))))) (\<lambda>definitions.
     rbind (fail_if (list_ex (\<lambda>o1. so_sql o1 = None) definitions) (ErrNew ''cannot scan NULL'')) (\<lambda>_.
     rbind (validate_objects drv 2 definitions {}) (\<lambda>seen.
     fail_if (card seen \<noteq> length expected) errStoreCorrupt)))))"

section \<open>Opening\<close>

text \<open>The path's file, if there is one, and what the operating system answers.\<close>

record path_file =
  pf_regular :: bool
  pf_perm :: nat
  pf_db :: dbfile

record environment =
  en_wd :: "gerr + string"
  en_parent :: "gerr + bool"
  en_stat :: "gerr option"
  en_create :: "gerr option"
  en_close :: "gerr option"
  en_remove :: bool
  en_windows :: bool
  en_sqlopen :: "gerr option"

definition resolveDatabasePath :: "gerr + string \<Rightarrow> string \<Rightarrow> string \<Rightarrow> gerr + string" where
  "resolveDatabasePath wd configuredPath dir =
     (if configuredPath = [] then Inl (ErrNew ''state store path is required'')
      else filepath_Abs wd (if filepath_IsAbs configuredPath then configuredPath else filepath_Join [dir, configuredPath]))"

definition permissions_too_broad :: "environment \<Rightarrow> path_file \<Rightarrow> bool" where
  "permissions_too_broad env f \<longleftrightarrow> \<not> en_windows env \<and> pf_perm f mod 64 \<noteq> 0"

definition remove_file :: "environment \<Rightarrow> path_file option \<Rightarrow> path_file option" where
  "remove_file env file = (if en_remove env then None else file)"

text \<open>\<open>prepareDatabaseFile\<close>: whether the file was created, and the file.\<close>

definition prepareDatabaseFile :: "environment \<Rightarrow> path_file option \<Rightarrow> (gerr + bool) \<times> path_file option" where
  "prepareDatabaseFile env file =
     (case en_parent env of
        Inl e \<Rightarrow> (Inl e, file)
      | Inr isdir \<Rightarrow>
          if \<not> isdir then (Inl (ErrNew ''state store parent is not a directory''), file)
          else (case (en_stat env, file) of
              (Some e, _) \<Rightarrow> (Inl e, file)
            | (None, None) \<Rightarrow>
                (case en_create env of
                   Some e \<Rightarrow> (Inl e, None)
                 | None \<Rightarrow>
                     let created = Some \<lparr>pf_regular = True, pf_perm = 384, pf_db = new_dbfile\<rparr> in
                     (case en_close env of
                        Some e \<Rightarrow> (Inl e, remove_file env created)
                      | None \<Rightarrow> (Inr True, created)))
            | (None, Some f) \<Rightarrow>
                if \<not> pf_regular f then (Inl (ErrNew ''state store path is not a regular file''), file)
                else if permissions_too_broad env f then (Inl (ErrNew ''state store permissions are too broad''), file)
                else (Inr False, file)))"

definition requireDeleteJournal :: "driver \<Rightarrow> nat \<Rightarrow> dbfile \<Rightarrow> gerr + unit" where
  "requireDeleteJournal drv k f =
     rbind (call drv k (Inr (df_journal f))) (\<lambda>journal.
     fail_if (\<not> equal_fold journal ''delete'') (ErrNew ''state store journal mode is unsupported''))"

definition after :: "nat \<Rightarrow> driver \<Rightarrow> driver" where
  "after k drv n = drv (k + n)"

text \<open>\<open>Open\<close> on the opened file: ping, journal mode, migration, validation.\<close>

definition open_writable :: "driver \<Rightarrow> dbfile \<Rightarrow> (gerr + unit) \<times> dbfile" where
  "open_writable drv f =
     (case rbind (call drv 0 (Inr ())) (\<lambda>_. requireDeleteJournal drv 1 f) of
        Inl e \<Rightarrow> (Inl e, f)
      | Inr _ \<Rightarrow>
          (case migrate (after 2 drv) f of
             (Inl e, f') \<Rightarrow> (Inl e, f')
           | (Inr _, f') \<Rightarrow> (validateSchema (after 10 drv) f', f')))"

definition sqlite_Open :: "environment \<Rightarrow> driver \<Rightarrow> string \<Rightarrow> string \<Rightarrow> path_file option \<Rightarrow> (gerr + handle) \<times> path_file option" where
  "sqlite_Open env drv configuredPath dir file =
     (case resolveDatabasePath (en_wd env) configuredPath dir of
        Inl e \<Rightarrow> (Inl (unavailable e), file)
      | Inr path \<Rightarrow>
          (case prepareDatabaseFile env file of
             (Inl e, file') \<Rightarrow> (Inl (unavailable e), file')
           | (Inr created, file') \<Rightarrow>
               let cleanup = (\<lambda>cause file. (Inl (unavailable cause), if created then remove_file env file else file)) in
               (case en_sqlopen env of
                  Some e \<Rightarrow> cleanup e file'
                | None \<Rightarrow>
                    (case open_writable drv (pf_db (the file')) of
                       (Inl e, f') \<Rightarrow> cleanup e (Some ((the file')\<lparr>pf_db := f'\<rparr>))
                     | (Inr _, f') \<Rightarrow> (Inr Writable, Some ((the file')\<lparr>pf_db := f'\<rparr>))))))"

definition sqlite_OpenReadOnly :: "environment \<Rightarrow> driver \<Rightarrow> string \<Rightarrow> string \<Rightarrow> path_file option \<Rightarrow> gerr + handle" where
  "sqlite_OpenReadOnly env drv configuredPath dir file =
     map_err unavailable
       (rbind (resolveDatabasePath (en_wd env) configuredPath dir) (\<lambda>path.
        rbind (case (en_stat env, file) of
                 (Some e, _) \<Rightarrow> Inl e
               | (None, None) \<Rightarrow> Inl (Sentinel ''os.ErrNotExist'')
               | (None, Some f) \<Rightarrow> Inr f) (\<lambda>info.
        rbind (fail_if (\<not> pf_regular info) (ErrNew ''state store path is not a regular file'')) (\<lambda>_.
        rbind (fail_if (permissions_too_broad env info) (ErrNew ''state store permissions are too broad'')) (\<lambda>_.
        rbind (case en_sqlopen env of Some e \<Rightarrow> Inl e | None \<Rightarrow> Inr ()) (\<lambda>_.
        rbind (call drv 0 (Inr ())) (\<lambda>_.
        rbind (requireDeleteJournal drv 1 (pf_db info)) (\<lambda>_.
        rbind (validateSchema (after 2 drv) (pf_db info)) (\<lambda>_.
        Inr ReadOnly)))))))))"

section \<open>The schema\<close>

text \<open>What \<open>validateSchema\<close> accepts: version one and exactly the three strict tables.\<close>

definition object_ok :: "schema_object \<Rightarrow> bool" where
  "object_ok o1 \<longleftrightarrow> so_type o1 = ''table'' \<and> so_sql o1 \<noteq> None \<and> contains (to_upper (the (so_sql o1))) ''STRICT'' \<and>
     (\<exists>columns. map_of expected (so_name o1) = Some columns \<and> list_all2 column_matches (so_columns o1) columns)"

definition schema_valid :: "dbfile \<Rightarrow> bool" where
  "schema_valid f \<longleftrightarrow> df_version f = 1 \<and> (\<forall>o1 \<in> set (df_objects f). listed o1 \<longrightarrow> object_ok o1) \<and>
     so_name ` {o1 \<in> set (df_objects f). listed o1} = {''resources'', ''tasks'', ''task_history''}"

lemma validate_objects_ok:
  "\<forall>o1 \<in> set os. so_sql o1 \<noteq> None \<Longrightarrow>
   validate_objects (\<lambda>_. None) k os seen = Inr r \<longleftrightarrow> (\<forall>o1 \<in> set os. object_ok o1) \<and> r = seen \<union> so_name ` set os"
proof (induction os arbitrary: k seen)
  case (Cons o1 os)
  have IH: "validate_objects (\<lambda>_. None) k os seen = Inr r \<longleftrightarrow> (\<forall>o1 \<in> set os. object_ok o1) \<and> r = seen \<union> so_name ` set os"
    for k seen using Cons by simp
  show ?case
    using Cons.prems
    by (auto simp: IH object_ok_def validateTableColumns_def rbind_eq_Inr fail_if_eq_Inr split: option.splits)
qed auto

lemma expected_names: "map_of expected n \<noteq> None \<longleftrightarrow> n \<in> {''resources'', ''tasks'', ''task_history''}"
  by (simp add: expected_def)

lemma card_three: "S \<subseteq> {''resources'', ''tasks'', ''task_history''} \<Longrightarrow>
   card S = length expected \<longleftrightarrow> S = {''resources'', ''tasks'', ''task_history''}"
proof -
  let ?T = "{''resources'', ''tasks'', ''task_history''}"
  have three: "card ?T = length expected" by (simp add: expected_def)
  assume sub: "S \<subseteq> ?T"
  have fin: "finite ?T" by (intro finite.insertI finite.emptyI)
  show ?thesis unfolding three [symmetric]
  proof
    assume "card S = card ?T"
    then show "S = ?T" by (rule card_subset_eq [OF fin sub])
  qed (rule arg_cong [where f = card])
qed

lemma validateSchema_iff: "validateSchema (\<lambda>_. None) f = Inr u \<longleftrightarrow> schema_valid f"
proof -
  let ?defs = "sort_key so_name (filter listed (df_objects f))"
  have set: "set ?defs = {o1 \<in> set (df_objects f). listed o1}" by auto
  have names: "so_name ` set ?defs \<subseteq> {''resources'', ''tasks'', ''task_history''}" if "\<forall>o1 \<in> set ?defs. object_ok o1"
    using that expected_names unfolding object_ok_def by (metis (no_types, lifting) image_subsetI option.distinct(1))
  have "validateSchema (\<lambda>_. None) f = Inr u \<longleftrightarrow> df_version f = 1 \<and> (\<forall>o1 \<in> set ?defs. so_sql o1 \<noteq> None) \<and>
      (\<exists>seen. validate_objects (\<lambda>_. None) 2 ?defs {} = Inr seen \<and> card seen = length expected)"
    by (auto simp: validateSchema_def rbind_eq_Inr fail_if_eq_Inr currentSchemaVersion_def list_ex_iff)
  also have "\<dots> \<longleftrightarrow> df_version f = 1 \<and> (\<forall>o1 \<in> set ?defs. so_sql o1 \<noteq> None) \<and>
      (\<forall>o1 \<in> set ?defs. object_ok o1) \<and> card (so_name ` set ?defs) = length expected"
  proof (cases "\<forall>o1 \<in> set ?defs. so_sql o1 \<noteq> None")
    case True
    show ?thesis unfolding validate_objects_ok [OF True] by auto
  next
    case False
    then show ?thesis by blast
  qed
  also have "\<dots> \<longleftrightarrow> df_version f = 1 \<and> (\<forall>o1 \<in> set ?defs. object_ok o1) \<and>
      so_name ` set ?defs = {''resources'', ''tasks'', ''task_history''}"
  proof (cases "\<forall>o1 \<in> set ?defs. object_ok o1")
    case True
    then have "\<forall>o1 \<in> set ?defs. so_sql o1 \<noteq> None" unfolding object_ok_def by blast
    then show ?thesis unfolding card_three [OF names [OF True]] using True by blast
  next
    case False
    then show ?thesis by blast
  qed
  also have "\<dots> \<longleftrightarrow> schema_valid f" unfolding set schema_valid_def by auto
  finally show ?thesis .
qed

section \<open>Migration makes a valid schema\<close>

lemma two_byte_runes:
  "utf8_enc 305 = [char_of (196::nat), char_of (177::nat)]" "utf8_enc 383 = [char_of (197::nat), char_of (191::nat)]"
  by (simp_all add: utf8_enc_def)

lemma two_byte_prefix:
  assumes "byte (hd v) < 128" "v \<noteq> []" "128 \<le> byte b"
  shows "prefix [a, b] (c # s @ v) \<longleftrightarrow> prefix [a, b] (c # s)" "prefix [a, b] (c # s) \<Longrightarrow> drop 1 (s @ v) = drop 1 s @ v"
proof -
  show "prefix [a, b] (c # s @ v) \<longleftrightarrow> prefix [a, b] (c # s)"
    using assms by (cases s; cases v) auto
  show "prefix [a, b] (c # s) \<Longrightarrow> drop 1 (s @ v) = drop 1 s @ v" by (cases s) auto
qed

lemma to_upper_append:
  assumes "byte (hd v) < 128" "v \<noteq> []"
  shows "to_upper (u @ v) = to_upper u @ to_upper v"
proof (induction u rule: to_upper.induct)
  case (2 c s)
  have hi: "128 \<le> byte (char_of (177::nat))" "128 \<le> byte (char_of (191::nat))" by (simp_all add: byte_def)
  note p = two_byte_prefix [OF assms hi(1)] two_byte_prefix [OF assms hi(2)]
  consider (low) "97 \<le> byte c \<and> byte c \<le> 122"
    | (i) "\<not> (97 \<le> byte c \<and> byte c \<le> 122)" "prefix (utf8_enc 305) (c # s)"
    | (s) "\<not> (97 \<le> byte c \<and> byte c \<le> 122)" "\<not> prefix (utf8_enc 305) (c # s)" "prefix (utf8_enc 383) (c # s)"
    | (other) "\<not> (97 \<le> byte c \<and> byte c \<le> 122)" "\<not> prefix (utf8_enc 305) (c # s)" "\<not> prefix (utf8_enc 383) (c # s)"
    by blast
  then show ?case
  proof cases
    case low
    then show ?thesis using 2 by simp
  next
    case i
    then have "to_upper (drop 1 s @ v) = to_upper (drop 1 s) @ to_upper v" using 2 by blast
    then show ?thesis using i p(1,2) [of "char_of (196::nat)" c s] unfolding two_byte_runes
      by (simp only: append_Cons to_upper.simps two_byte_runes if_False if_True simp_thms)
  next
    case s
    then have "to_upper (drop 1 s @ v) = to_upper (drop 1 s) @ to_upper v" using 2 by blast
    then show ?thesis using s p [of "char_of (196::nat)" c s] p(3,4) [of "char_of (197::nat)" c s] unfolding two_byte_runes
      by (simp only: append_Cons to_upper.simps two_byte_runes if_False if_True simp_thms)
  next
    case other
    then have "to_upper (s @ v) = to_upper s @ to_upper v" using 2 by blast
    then show ?thesis using other p(1) [of "char_of (196::nat)" c s] p(3) [of "char_of (197::nat)" c s] unfolding two_byte_runes
      by (simp only: append_Cons to_upper.simps two_byte_runes if_False if_True simp_thms)
  qed
qed simp

lemma create_text_strict: "contains (to_upper (create_text t)) ''STRICT''"
proof -
  obtain u where "create_text t = u @ '') STRICT''" by (auto simp: create_text_def)
  moreover have "to_upper '') STRICT'' = '') '' @ ''STRICT'' @ ''''"
    by (simp add: two_byte_runes byte_def char_of_eq_iff take_bit_eq_mod)
  moreover have "byte (hd '') STRICT'') < 128" by (simp add: byte_def)
  ultimately have "to_upper (create_text t) = (to_upper u @ '') '') @ ''STRICT'' @ ''''"
    using to_upper_append [of "'') STRICT''" u] by simp
  then show ?thesis unfolding contains_iff by blast
qed

lemma statements_ok: "t \<in> set schema_statements \<Longrightarrow> object_ok (object_of t)"
proof -
  assume "t \<in> set schema_statements"
  then have "\<exists>columns. map_of expected (tb_name t) = Some columns \<and> list_all2 column_matches (table_info t) columns"
    by (auto simp: schema_statements_def resources_table_def tasks_table_def task_history_table_def expected_def
        table_info_def column_matches_def column_def_def col_def primary_col_def equal_fold_def)
  then show ?thesis by (simp add: object_ok_def object_of_def create_text_strict)
qed

lemma statements_listed: "t \<in> set schema_statements \<Longrightarrow> listed (object_of t)"
  by (auto simp: schema_statements_def resources_table_def tasks_table_def task_history_table_def listed_def
      object_of_def equal_fold_def lower_byte_def byte_def)

definition migrated :: "dbfile \<Rightarrow> dbfile" where
  "migrated f = f\<lparr>df_version := 1, df_objects := df_objects f @ map object_of schema_statements\<rparr>"

lemma equal_fold_take: "equal_fold s t \<Longrightarrow> equal_fold (take n s) (take n t) \<and> length s = length t"
  unfolding equal_fold_def by (metis length_map take_map)

lemma statements_fresh:
  assumes "\<forall>o1 \<in> set os. \<not> listed o1" and "t \<in> set schema_statements"
  shows "\<not> list_ex (\<lambda>o1. equal_fold (so_name o1) (tb_name t)) os"
proof
  assume "list_ex (\<lambda>o1. equal_fold (so_name o1) (tb_name t)) os"
  then obtain o1 where o1: "o1 \<in> set os" "equal_fold (so_name o1) (tb_name t)" by (auto simp: list_ex_iff)
  then have "equal_fold (take 6 (so_name o1)) (take 6 (tb_name t))" by (blast dest: equal_fold_take)
  moreover have "equal_fold (take 6 (so_name o1)) ''sqlite''" using assms(1) o1(1) by (auto simp: listed_def)
  ultimately have "equal_fold (take 6 (tb_name t)) ''sqlite''" by (simp add: equal_fold_def)
  then show False using assms(2)
    by (auto simp: schema_statements_def resources_table_def tasks_table_def task_history_table_def
        equal_fold_def lower_byte_def byte_def)
qed

lemma run_statements_Inr:
  "run_statements drv k ts f = Inr f' \<Longrightarrow> f' = f\<lparr>df_version := 1, df_objects := df_objects f @ map object_of ts\<rparr>"
proof (induction ts arbitrary: k f)
  case (Cons t ts)
  then obtain g where "call drv k (create_table t f) = Inr g" "run_statements drv (k + 1) ts g = Inr f'"
    by (auto simp: rbind_eq_Inr)
  then show ?case using Cons.IH [of "k + 1" g] by (auto simp: call_Inr create_table_def split: if_splits)
qed (auto simp: call_Inr)

lemma run_statements_ok:
  assumes "\<forall>o1 \<in> set (df_objects f). \<not> listed o1"
  shows "run_statements (\<lambda>_. None) k schema_statements f = Inr (migrated f)"
proof -
  have names: "tb_name resources_table = ''resources''" "tb_name tasks_table = ''tasks''"
    "tb_name task_history_table = ''task_history''" "so_name (object_of t) = tb_name t" for t
    by (simp_all add: resources_table_def tasks_table_def task_history_table_def object_of_def)
  have "resources_table \<in> set schema_statements" "tasks_table \<in> set schema_statements"
    "task_history_table \<in> set schema_statements"
    by (simp_all add: schema_statements_def)
  note fresh = this [THEN statements_fresh [OF assms], unfolded names]
  have differ: "\<not> equal_fold ''resources'' ''tasks''" "\<not> equal_fold ''resources'' ''task_history''"
    "\<not> equal_fold ''tasks'' ''task_history''"
    by (simp_all add: equal_fold_def)
  show ?thesis
    using fresh differ by (simp add: schema_statements_def create_table_def names migrated_def)
qed

text \<open>Whatever the driver does, \<open>migrate\<close> either changes nothing or migrates an empty file completely.\<close>

lemma migrate_all_or_nothing:
  assumes "migrate drv f = (r, f')"
  shows "f' = f \<or> df_version f = 0 \<and> (\<forall>o1 \<in> set (df_objects f). \<not> listed o1) \<and> f' = migrated f \<and> r = Inr ()"
proof (cases "migration drv f")
  case (Inl e)
  then show ?thesis using assms by (simp add: migrate_def)
next
  case (Inr g)
  then have "g = f \<or> df_version f = 0 \<and> filter listed (df_objects f) = [] \<and>
      run_statements drv 3 schema_statements f = Inr g"
    by (auto simp: migration_def rbind_eq_Inr fail_if_eq_Inr call_Inr split: if_splits)
  then show ?thesis using assms Inr run_statements_Inr [of drv 3 schema_statements f g]
    by (auto simp: migrate_def migrated_def filter_empty_conv)
qed

lemma migrated_valid:
  assumes "\<forall>o1 \<in> set (df_objects f). \<not> listed o1"
  shows "schema_valid (migrated f)"
proof -
  have set: "{o1 \<in> set (df_objects (migrated f)). listed o1} = object_of ` set schema_statements"
    using assms statements_listed by (auto simp: migrated_def)
  have "so_name ` object_of ` set schema_statements = {''resources'', ''tasks'', ''task_history''}"
    by (simp add: schema_statements_def object_of_def resources_table_def tasks_table_def task_history_table_def)
  moreover have "\<forall>o1 \<in> set (df_objects (migrated f)). listed o1 \<longrightarrow> object_ok o1"
    using assms statements_ok by (auto simp: migrated_def)
  ultimately show ?thesis unfolding schema_valid_def set by (simp add: migrated_def)
qed

lemma validateSchema_Inr: "validateSchema drv f = Inr u \<Longrightarrow> schema_valid f"
proof -
  have v: "validate_objects drv k os seen = Inr r \<Longrightarrow> validate_objects (\<lambda>_. None) k os seen = Inr r" for k os seen r
    by (induction os arbitrary: k seen)
      (auto simp: validateTableColumns_def rbind_eq_Inr fail_if_eq_Inr call_Inr split: option.splits if_splits)
  assume "validateSchema drv f = Inr u"
  then have "validateSchema (\<lambda>_. None) f = Inr u"
    using v by (auto simp: validateSchema_def rbind_eq_Inr fail_if_eq_Inr call_Inr)
  then show ?thesis by (simp add: validateSchema_iff)
qed

section \<open>Opening, proved\<close>

lemma open_writable_cases:
  assumes "open_writable drv f = (r, f')"
  shows "f' = f \<or> df_version f = 0 \<and> (\<forall>o1 \<in> set (df_objects f). \<not> listed o1) \<and> f' = migrated f"
    "r = Inr u \<Longrightarrow> schema_valid f'"
proof -
  have "f' = f \<or> (\<exists>r'. migrate (after 2 drv) f = (r', f'))"
    using assms by (auto simp: open_writable_def split: sum.splits prod.splits)
  then show "f' = f \<or> df_version f = 0 \<and> (\<forall>o1 \<in> set (df_objects f). \<not> listed o1) \<and> f' = migrated f"
    using migrate_all_or_nothing by blast
  show "r = Inr u \<Longrightarrow> schema_valid f'"
    using assms by (auto simp: open_writable_def split: sum.splits prod.splits intro: validateSchema_Inr)
qed

lemma prepare_Inl:
  "prepareDatabaseFile env file = (Inl e, file') \<Longrightarrow> file' = file \<or> file = None \<and> \<not> en_remove env"
  by (auto simp: prepareDatabaseFile_def remove_file_def Let_def split: sum.splits if_splits option.splits)

lemma prepare_Inr:
  "prepareDatabaseFile env file = (Inr created, file') \<Longrightarrow>
     \<exists>f. file' = Some f \<and> pf_regular f \<and> \<not> permissions_too_broad env f \<and>
         (if created then file = None else file = Some f)"
  by (auto simp: prepareDatabaseFile_def Let_def permissions_too_broad_def split: sum.splits if_splits option.splits)

text \<open>\<open>untouched_or_migrated f f'\<close>: the file is as before, or its empty database has been migrated.\<close>

definition untouched_or_migrated :: "path_file \<Rightarrow> path_file \<Rightarrow> bool" where
  "untouched_or_migrated f f' \<longleftrightarrow>
     f' = f \<or> df_version (pf_db f) = 0 \<and> (\<forall>o1 \<in> set (df_objects (pf_db f)). \<not> listed o1) \<and>
              f' = f\<lparr>pf_db := migrated (pf_db f)\<rparr>"

text \<open>
  C10.  Opening the store for writing is safe for what is on disk, whatever the operating system and
  the driver do: an existing file is never removed and its database is either untouched or, when it
  was empty at version zero, completely migrated with its rows kept; a file that was not there is
  gone again after a failure (if it can be removed); a successful open finds a private regular file
  with the supported schema.
\<close>

theorem sqlite_Open_safe:
  "case sqlite_Open env drv configured dir file of (r, file') \<Rightarrow>
     (case file of
        Some f \<Rightarrow> (\<exists>f'. file' = Some f' \<and> untouched_or_migrated f f')
      | None \<Rightarrow> (if is_ok r then True else if en_remove env then file' = None else True)) \<and>
     (case r of Inl e \<Rightarrow> True
      | Inr h \<Rightarrow> h = Writable \<and> (\<exists>f'. file' = Some f' \<and> pf_regular f' \<and> \<not> permissions_too_broad env f' \<and>
                    schema_valid (pf_db f')))"
proof (cases "resolveDatabasePath (en_wd env) configured dir")
  case (Inl e)
  then show ?thesis by (simp add: sqlite_Open_def untouched_or_migrated_def split: option.split)
next
  case (Inr path)
  obtain p file1 where p: "prepareDatabaseFile env file = (p, file1)" by fastforce
  show ?thesis
  proof (cases p)
    case (Inl e)
    then show ?thesis using prepare_Inl [OF p [unfolded Inl]] p
      by (auto simp: sqlite_Open_def Inr untouched_or_migrated_def split: option.splits)
  next
    case created: (Inr created)
    obtain f1 where f1: "file1 = Some f1" "pf_regular f1" "\<not> permissions_too_broad env f1"
      "if created then file = None else file = Some f1"
      using prepare_Inr [OF p [unfolded created]] by blast
    show ?thesis
    proof (cases "en_sqlopen env")
      case (Some e)
      then show ?thesis using f1 by (auto simp: sqlite_Open_def Inr p created remove_file_def untouched_or_migrated_def)
    next
      case None
      obtain r g where g: "open_writable drv (pf_db f1) = (r, g)" by fastforce
      let ?f2 = "f1\<lparr>pf_db := g\<rparr>"
      have safe: "untouched_or_migrated f1 ?f2" using open_writable_cases(1) [OF g] by (auto simp: untouched_or_migrated_def)
      have "permissions_too_broad env ?f2 = permissions_too_broad env f1" by (simp add: permissions_too_broad_def)
      moreover have "sqlite_Open env drv configured dir file =
          (case r of Inl e \<Rightarrow> (Inl (unavailable e), if created then remove_file env (Some ?f2) else Some ?f2)
           | Inr x \<Rightarrow> (Inr Writable, Some ?f2))"
        by (simp add: sqlite_Open_def Inr p created f1(1) g None Let_def split: sum.split)
      ultimately show ?thesis
        using f1 safe open_writable_cases(2) [OF g]
        by (cases r) (auto simp: remove_file_def split: option.splits if_splits)
    qed
  qed
qed

lemma equal_fold_refl [simp]: "equal_fold s s"
  by (simp add: equal_fold_def)

text \<open>The environment in which nothing goes wrong.\<close>

definition sound_environment :: "environment \<Rightarrow> bool" where
  "sound_environment env \<longleftrightarrow> is_ok (en_wd env) \<and> en_parent env = Inr True \<and> en_stat env = None \<and>
     en_create env = None \<and> en_close env = None \<and> en_sqlopen env = None"

lemma resolve_sound: "is_ok wd \<Longrightarrow> path \<noteq> [] \<Longrightarrow> is_ok (resolveDatabasePath wd path dir)"
  by (auto simp: resolveDatabasePath_def filepath_Abs_def is_ok_iff simp del: filepath_Join.simps)

lemma sqlite_Open_fresh:
  assumes "sound_environment env" and "configured \<noteq> []"
  shows "\<exists>f. sqlite_Open env (\<lambda>_. None) configured dir None = (Inr Writable, Some f) \<and>
     pf_perm f = 384 \<and> df_data (pf_db f) = empty_database \<and> schema_valid (pf_db f) \<and>
     sqlite_Open env (\<lambda>_. None) configured dir (Some f) = (Inr Writable, Some f) \<and>
     sqlite_OpenReadOnly env (\<lambda>_. None) configured dir (Some f) = Inr ReadOnly"
proof -
  obtain path where path: "resolveDatabasePath (en_wd env) configured dir = Inr path"
    using resolve_sound [of "en_wd env" configured dir] assms by (auto simp: sound_environment_def is_ok_iff)
  let ?db = "migrated new_dbfile"
  let ?f = "\<lparr>pf_regular = True, pf_perm = 384, pf_db = ?db\<rparr>"
  have valid: "schema_valid ?db" by (rule migrated_valid) (simp add: new_dbfile_def)
  have check: "validateSchema (after k (\<lambda>_. None)) ?db = Inr ()" for k
    using valid validateSchema_iff [of ?db "()"] by (simp add: after_def [abs_def])
  have journal: "requireDeleteJournal (\<lambda>_. None) k new_dbfile = Inr ()" "requireDeleteJournal (\<lambda>_. None) k ?db = Inr ()" for k
    by (simp_all add: requireDeleteJournal_def new_dbfile_def migrated_def)
  have "migration (\<lambda>_. None) new_dbfile = Inr ?db"
    using run_statements_ok [of new_dbfile 3]
    by (simp add: migration_def new_dbfile_def currentSchemaVersion_def)
  then have first: "open_writable (\<lambda>_. None) new_dbfile = (Inr (), ?db)"
    using check journal by (simp add: open_writable_def migrate_def after_def [abs_def])
  have "migration (\<lambda>_. None) ?db = Inr ?db"
    by (simp add: migration_def migrated_def currentSchemaVersion_def)
  then have second: "open_writable (\<lambda>_. None) ?db = (Inr (), ?db)"
    using check journal by (simp add: open_writable_def migrate_def after_def [abs_def])
  have "sqlite_Open env (\<lambda>_. None) configured dir None = (Inr Writable, Some ?f)"
    using assms(1) first by (simp add: sqlite_Open_def path prepareDatabaseFile_def sound_environment_def Let_def)
  moreover have "\<not> permissions_too_broad env ?f" by (simp add: permissions_too_broad_def)
  then have "sqlite_Open env (\<lambda>_. None) configured dir (Some ?f) = (Inr Writable, Some ?f)"
    "sqlite_OpenReadOnly env (\<lambda>_. None) configured dir (Some ?f) = Inr ReadOnly"
    using assms(1) second check journal
    by (simp_all add: sqlite_Open_def sqlite_OpenReadOnly_def path prepareDatabaseFile_def sound_environment_def Let_def)
  moreover have "df_data ?db = empty_database" by (simp add: migrated_def new_dbfile_def)
  ultimately show ?thesis using valid by (intro exI [of _ ?f]) simp
qed

text \<open>
  C11.  A state store that does not exist yet is created on the first open, when nothing fails: the new
  file is private, holds the supported schema and no rows, opening it again for writing leaves it
  unchanged, and it can be opened for inspection.
\<close>

theorem sqlite_Open_creates:
  assumes "sound_environment env" and "configured \<noteq> []"
  shows "\<exists>f. sqlite_Open env (\<lambda>_. None) configured dir None = (Inr Writable, Some f) \<and>
     pf_perm f = 384 \<and> df_data (pf_db f) = empty_database \<and> schema_valid (pf_db f) \<and>
     sqlite_Open env (\<lambda>_. None) configured dir (Some f) = (Inr Writable, Some f) \<and>
     sqlite_OpenReadOnly env (\<lambda>_. None) configured dir (Some f) = Inr ReadOnly"
  by (rule sqlite_Open_fresh [OF assms])

lemma sqlite_Open_creates_witness:
  "\<exists>f. sqlite_Open \<lparr>en_wd = Inr ''/srv'', en_parent = Inr True, en_stat = None, en_create = None, en_close = None,
        en_remove = True, en_windows = False, en_sqlopen = None\<rparr> (\<lambda>_. None) ''state.db'' ''/srv'' None =
     (Inr Writable, Some f)"
  using sqlite_Open_creates [of "\<lparr>en_wd = Inr ''/srv'', en_parent = Inr True, en_stat = None, en_create = None,
     en_close = None, en_remove = True, en_windows = False, en_sqlopen = None\<rparr>" "''state.db''" "''/srv''"]
  by (simp add: sound_environment_def) blast

end
