(* ===== verification/Bootstrap.thy ===== *)
theory Bootstrap
  imports Config_Projection Sqlite_Doctor Docker_Doctor Omp_Doctor Github_Snapshot Sqlite_Schema Sqlite_Properties
begin

text \<open>
  \<open>internal/bootstrap\<close>: putting the parts together from the configuration file.  \<open>doctor.go\<close> makes one
  check for every configured instance; \<open>task.go\<close> submits and shows tasks with the configured store and
  repository source.  The arguments of all the parts are gathered in one environment; the store's file
  with its rows is the state.
\<close>

section \<open>The environment\<close>

text \<open>
  \<open>be_config\<close> and the fields after it are the strict decodings of the YAML library for the Go types;
  \<open>be_open\<close> and \<open>be_open_driver\<close> are the file system and the driver as \<open>Open\<close> sees them,
  \<open>be_show\<close> and \<open>be_show_driver\<close> as \<open>OpenReadOnly\<close> does, \<open>be_driver\<close> the calls on the open store.
\<close>

record 'k boot_env =
  be_files :: file_system
  be_yaml :: yaml
  be_config :: "string \<Rightarrow> Config decoded"
  be_store_document :: "string \<Rightarrow> (int \<times> Instance) decoded"
  be_github_config :: "string \<Rightarrow> github_Config decoded"
  be_repository_config :: "string \<Rightarrow> RepositoryConfig decoded"
  be_sqlite_config :: "string \<Rightarrow> string decoded"
  be_docker_config :: "string \<Rightarrow> unit decoded"
  be_omp_config :: "string \<Rightarrow> unit decoded"
  be_github :: "'k github_env"
  be_repository :: repository_env
  be_docker :: docker_env
  be_omp :: omp_env
  be_sqlite :: sqlite_env
  be_open :: environment
  be_open_driver :: driver
  be_show :: environment
  be_show_driver :: driver
  be_driver :: driver
  be_newID :: "string \<Rightarrow> string"
  be_now :: gotime

section \<open>The checks of the doctor\<close>

definition failedCheck :: "string \<Rightarrow> string \<Rightarrow> gerr option \<Rightarrow> check" where
  "failedCheck i reason cause =
     \<lparr>ck_id = i, ck_probe = Some (\<lambda>ctx. ('''', doctor_NewFailure reason cause))\<rparr>"

text \<open>One named instance: of the supported kind with a decodable configuration, or a failed check.\<close>

definition instance_check ::
  "yaml \<Rightarrow> string \<Rightarrow> string \<Rightarrow> (string \<Rightarrow> 'c decoded) \<Rightarrow> ('c \<Rightarrow> check) \<Rightarrow> Instance \<Rightarrow> check"
where
  "instance_check y checkID supported typed newCheck inst =
     (if in_kind inst = supported
      then (case Decode y typed (in_config inst) of
          Inl e \<Rightarrow> failedCheck checkID (checkID @ '' configuration contains unknown or invalid fields'') (Some e)
        | Inr adapterConfig \<Rightarrow> newCheck adapterConfig)
      else failedCheck checkID (checkID @ '' adapter kind is unsupported'') None)"

definition section_checks ::
  "yaml \<Rightarrow> string \<Rightarrow> string \<Rightarrow> (string \<Rightarrow> 'c decoded) \<Rightarrow> (string \<Rightarrow> 'c \<Rightarrow> check) \<Rightarrow> Instance gomap \<Rightarrow> check list"
where
  "section_checks y pre supported typed newCheck instances =
     map (\<lambda>name. instance_check y (pre @ name) supported typed (newCheck name) (entry instances name)) (sorted_names instances)"

definition document_checks :: "'k boot_env \<Rightarrow> Document \<Rightarrow> check list" where
  "document_checks env document =
     (let config = dc_config document; dir = dc_dir document; y = be_yaml env in
      section_checks y ''connector.'' ''github'' (be_github_config env)
        (\<lambda>name cfg. github_NewDoctorCheck (be_github env) name cfg dir) (cf_connectors config) @
      section_checks y ''workspace_provider.'' ''docker'' (be_docker_config env)
        (\<lambda>name cfg. docker_NewDoctorCheck name (be_docker env)) (cf_workspace_providers config) @
      section_checks y ''agent_runtime.'' ''omp'' (be_omp_config env)
        (\<lambda>name cfg. omp_NewDoctorCheck name (be_omp env)) (cf_agent_runtimes config) @
      [instance_check y (''store.'' @ in_kind (cf_store config)) ''sqlite'' (be_sqlite_config env)
         (\<lambda>path. sqlite_NewDoctorCheck (be_sqlite env) path dir) (cf_store config)])"

definition LoadDoctor :: "'k boot_env \<Rightarrow> string \<Rightarrow> DoctorFailure + (Document \<times> check list)" where
  "LoadDoctor env path =
     (case Load (be_files env) (be_yaml env) (be_config env) path of
        Inl err \<Rightarrow> Inl \<lparr>df_reason = config_SafeReason (Some err), df_cause = Some err\<rparr>
      | Inr document \<Rightarrow> Inr (document, document_checks env document))"

section \<open>Tasks\<close>

text \<open>The seams of \<open>taskOptions\<close>; a nil function is \<open>None\<close>.\<close>

record taskOptions =
  to_openStore :: "(string \<Rightarrow> string \<Rightarrow> path_file option \<Rightarrow> (gerr + handle) \<times> path_file option) option"
  to_openStoreReadOnly :: "(string \<Rightarrow> string \<Rightarrow> path_file option \<Rightarrow> gerr + handle) option"
  to_newRepositorySource ::
    "(github_Config \<Rightarrow> RepositoryConfig \<Rightarrow> string \<Rightarrow> gerr + (gctx \<Rightarrow> gerr + RepositoryMaterial)) option"
  to_newID :: "(string \<Rightarrow> string) option"

definition default_openStore :: "'k boot_env \<Rightarrow> string \<Rightarrow> string \<Rightarrow> path_file option \<Rightarrow> (gerr + handle) \<times> path_file option" where
  "default_openStore env = sqlite_Open (be_open env) (be_open_driver env)"

definition default_openStoreReadOnly :: "'k boot_env \<Rightarrow> string \<Rightarrow> string \<Rightarrow> path_file option \<Rightarrow> gerr + handle" where
  "default_openStoreReadOnly env = sqlite_OpenReadOnly (be_show env) (be_show_driver env)"

definition default_newRepositorySource ::
  "'k boot_env \<Rightarrow> github_Config \<Rightarrow> RepositoryConfig \<Rightarrow> string \<Rightarrow> gerr + (gctx \<Rightarrow> gerr + RepositoryMaterial)"
where
  "default_newRepositorySource env app resource dir =
     rbind (NewRepositorySource (ge_now (be_github env)) app resource dir) (\<lambda>s.
     Inr (\<lambda>ctx. fst (Snapshot (be_github env) (be_repository env) s ctx)))"

definition defaultTaskOptions :: "'k boot_env \<Rightarrow> taskOptions" where
  "defaultTaskOptions env =
     \<lparr>to_openStore = Some (default_openStore env), to_openStoreReadOnly = Some (default_openStoreReadOnly env),
      to_newRepositorySource = Some (default_newRepositorySource env), to_newID = None\<rparr>"

definition or_default :: "'a option \<Rightarrow> 'a \<Rightarrow> 'a" where
  "or_default x d = (case x of None \<Rightarrow> d | Some f \<Rightarrow> f)"

definition controlFromError :: "gerr \<Rightarrow> string \<Rightarrow> gerr" where
  "controlFromError err fallback =
     (case reason_provider err of
        Some r \<Rightarrow> if r \<noteq> '''' then NewFailure r err else NewFailure fallback err
      | None \<Rightarrow> NewFailure fallback err)"

text \<open>\<open>CreateTask\<close> and \<open>Task\<close> on the rows of the open store.\<close>

definition store_create :: "'k boot_env \<Rightarrow> handle \<Rightarrow> TaskDraft \<Rightarrow> database \<Rightarrow> (gerr + Task) \<times> database" where
  "store_create env h draft db = apfst the (sqlite_CreateTask (Some h) (be_driver env) draft db)"

definition store_task :: "'k boot_env \<Rightarrow> handle \<Rightarrow> task_id \<Rightarrow> database \<Rightarrow> gerr + Task" where
  "store_task env h i db = sqlite_Task (Some h) (be_driver env) i db"

text \<open>What \<open>submitTask\<close> reads from the configuration before it opens the store.\<close>

record submission =
  sb_app :: github_Config
  sb_repository :: RepositoryConfig
  sb_store :: string
  sb_connector :: string
  sb_policy :: PolicyRequest
  sb_dir :: string

definition plan_submission :: "'k boot_env \<Rightarrow> string \<Rightarrow> string \<Rightarrow> gerr + submission" where
  "plan_submission env configPath resourceName =
     rbind (map_err (\<lambda>e. NewFailure (config_SafeReason (Some e)) e)
              (Load (be_files env) (be_yaml env) (be_config env) configPath)) (\<lambda>document.
     let config = dc_config document; y = be_yaml env in
     (case map_of (elems (cf_resources config)) resourceName of
        None \<Rightarrow> Inl (NewFailure ''resource is not configured'' (ErrNew ''resource alias is absent''))
      | Some resource \<Rightarrow>
     rbind (fail_if (rsc_kind resource \<noteq> ResourceKindRepository \<or> rsc_connector resource = '''')
              (NewFailure ''resource is unsupported'' (ErrNew ''resource kind or connector is unsupported''))) (\<lambda>_.
     (case map_of (elems (cf_connectors config)) (rsc_connector resource) of
        None \<Rightarrow> Inl (NewFailure ''resource is unsupported'' (ErrNew ''resource connector is unsupported''))
      | Some connector \<Rightarrow>
     rbind (fail_if (in_kind connector \<noteq> ''github'')
              (NewFailure ''resource is unsupported'' (ErrNew ''resource connector is unsupported''))) (\<lambda>_.
     rbind (map_err (NewFailure ''connector configuration is invalid'')
              (Decode y (be_github_config env) (in_config connector))) (\<lambda>appConfig.
     rbind (map_err (NewFailure ''resource configuration is invalid'')
              (Decode y (be_repository_config env) (rsc_config resource))) (\<lambda>repositoryConfig.
     rbind (map_err (NewFailure ''state store is unavailable'')
              (Decode y (be_sqlite_config env) (in_config (cf_store config)))) (\<lambda>storeConfig.
     Inr \<lparr>sb_app = appConfig, sb_repository = repositoryConfig, sb_store = storeConfig,
          sb_connector = rsc_connector resource, sb_policy = cf_policy config, sb_dir = dc_dir document\<rparr>))))))))"

text \<open>\<open>sctx\<close> is the context as the repository source sees it.\<close>

definition submitTask ::
  "'k boot_env \<Rightarrow> gctx \<Rightarrow> gctx \<Rightarrow> string \<Rightarrow> string \<Rightarrow> TaskInput \<Rightarrow> taskOptions \<Rightarrow> path_file option \<Rightarrow>
   (gerr + Task) \<times> path_file option"
where
  "submitTask env ctx sctx configPath resourceName input options file =
     (case plan_submission env configPath resourceName of
        Inl e \<Rightarrow> (Inl e, file)
      | Inr p \<Rightarrow>
          (case or_default (to_openStore options) (default_openStore env) (sb_store p) (sb_dir p) file of
             (Inl err, file') \<Rightarrow> (Inl (controlFromError err ''state store is unavailable''), file')
           | (Inr store, file') \<Rightarrow>
               (case or_default (to_newRepositorySource options) (default_newRepositorySource env)
                       (sb_app p) (sb_repository p) (sb_dir p) of
                  Inl err \<Rightarrow> (Inl (NewFailure ''resource configuration is invalid'' err), file')
                | Inr source \<Rightarrow>
                    (let f = the file' in
                     (case SubmitManualRepository (Some (store_create env store)) (or_default (to_newID options) (be_newID env))
                             (be_now env) ctx resourceName (sb_connector p) input (sb_policy p) (Some (source sctx))
                             (df_data (pf_db f)) of
                        (r, db) \<Rightarrow> (r, Some (f\<lparr>pf_db := (pf_db f)\<lparr>df_data := db\<rparr>\<rparr>)))))))"

definition SubmitTask ::
  "'k boot_env \<Rightarrow> gctx \<Rightarrow> gctx \<Rightarrow> string \<Rightarrow> string \<Rightarrow> TaskInput \<Rightarrow> path_file option \<Rightarrow> (gerr + Task) \<times> path_file option"
where
  "SubmitTask env ctx sctx configPath resourceName input file =
     submitTask env ctx sctx configPath resourceName input (defaultTaskOptions env) file"

definition showTask :: "'k boot_env \<Rightarrow> gctx \<Rightarrow> string \<Rightarrow> task_id \<Rightarrow> taskOptions \<Rightarrow> path_file option \<Rightarrow> gerr + Task" where
  "showTask env ctx configPath i options file =
     rbind (map_err (\<lambda>e. NewFailure (config_SafeReason (Some e)) e)
              (LoadStore (be_files env) (be_yaml env) (be_store_document env) configPath)) (\<lambda>document.
     rbind (fail_if (in_kind (sd_store document) \<noteq> ''sqlite'')
              (NewFailure ''state store is unavailable'' (ErrNew ''store adapter is unsupported''))) (\<lambda>_.
     rbind (map_err (NewFailure ''state store is unavailable'')
              (Decode (be_yaml env) (be_sqlite_config env) (in_config (sd_store document)))) (\<lambda>storeConfig.
     rbind (map_err (\<lambda>e. controlFromError e ''state store is unavailable'')
              (or_default (to_openStoreReadOnly options) (default_openStoreReadOnly env) storeConfig (sd_dir document) file)) (\<lambda>store.
     Show (Some (store_task env store)) ctx i (df_data (pf_db (the file)))))))"

definition ShowTask :: "'k boot_env \<Rightarrow> gctx \<Rightarrow> string \<Rightarrow> task_id \<Rightarrow> path_file option \<Rightarrow> gerr + Task" where
  "ShowTask env ctx configPath i file = showTask env ctx configPath i (defaultTaskOptions env) file"


section \<open>The checks, proved\<close>

lemma failedCheck_id [simp]: "ck_id (failedCheck i r c) = i" "\<exists>p. ck_probe (failedCheck i r c) = Some p"
  by (simp_all add: failedCheck_def)

lemma instance_check_id:
  assumes "\<And>c. ck_id (newCheck c) = checkID \<and> ck_probe (newCheck c) \<noteq> None"
  shows "ck_id (instance_check y checkID supported typed newCheck inst) = checkID \<and>
    ck_probe (instance_check y checkID supported typed newCheck inst) \<noteq> None"
  using assms by (simp add: instance_check_def split: sum.split)

lemma section_checks_ids:
  assumes "\<And>name c. ck_id (newCheck name c) = pre @ name \<and> ck_probe (newCheck name c) \<noteq> None"
  shows "map ck_id (section_checks y pre supported typed newCheck m) = map ((@) pre) (sorted_names m) \<and>
    list_all (\<lambda>c. ck_probe c \<noteq> None) (section_checks y pre supported typed newCheck m)"
proof -
  have "ck_id (instance_check y (pre @ name) supported typed (newCheck name) inst) = pre @ name \<and>
      ck_probe (instance_check y (pre @ name) supported typed (newCheck name) inst) \<noteq> None" for name inst
    by (rule instance_check_id) (rule assms)
  then show ?thesis by (simp add: section_checks_def list_all_iff)
qed

definition check_ids :: "Config \<Rightarrow> string list" where
  "check_ids config =
     map ((@) ''connector.'') (sorted_names (cf_connectors config)) @
     map ((@) ''workspace_provider.'') (sorted_names (cf_workspace_providers config)) @
     map ((@) ''agent_runtime.'') (sorted_names (cf_agent_runtimes config)) @
     [''store.'' @ in_kind (cf_store config)]"

lemma document_checks_ids:
  "map ck_id (document_checks env d) = check_ids (dc_config d) \<and> list_all (\<lambda>c. ck_probe c \<noteq> None) (document_checks env d)"
proof -
  have store: "ck_id (instance_check y (''store.'' @ k) ''sqlite'' typed (\<lambda>path. sqlite_NewDoctorCheck e path dir)
        (cf_store (dc_config d))) = ''store.'' @ k \<and>
      ck_probe (instance_check y (''store.'' @ k) ''sqlite'' typed (\<lambda>path. sqlite_NewDoctorCheck e path dir)
        (cf_store (dc_config d))) \<noteq> None"
    if "k = in_kind (cf_store (dc_config d))" for y k typed e dir
    using that by (auto simp: instance_check_def sqlite_NewDoctorCheck_def split: sum.split)
  have sections:
    "map ck_id (section_checks y ''connector.'' ''github'' t1 (\<lambda>name cfg. github_NewDoctorCheck g name cfg dir) m) =
       map ((@) ''connector.'') (sorted_names m) \<and>
     list_all (\<lambda>c. ck_probe c \<noteq> None) (section_checks y ''connector.'' ''github'' t1 (\<lambda>name cfg. github_NewDoctorCheck g name cfg dir) m)"
    "map ck_id (section_checks y ''workspace_provider.'' ''docker'' t2 (\<lambda>name cfg. docker_NewDoctorCheck name de) m) =
       map ((@) ''workspace_provider.'') (sorted_names m) \<and>
     list_all (\<lambda>c. ck_probe c \<noteq> None) (section_checks y ''workspace_provider.'' ''docker'' t2 (\<lambda>name cfg. docker_NewDoctorCheck name de) m)"
    "map ck_id (section_checks y ''agent_runtime.'' ''omp'' t3 (\<lambda>name cfg. omp_NewDoctorCheck name oe) m) =
       map ((@) ''agent_runtime.'') (sorted_names m) \<and>
     list_all (\<lambda>c. ck_probe c \<noteq> None) (section_checks y ''agent_runtime.'' ''omp'' t3 (\<lambda>name cfg. omp_NewDoctorCheck name oe) m)"
    for y t1 t2 t3 g de oe dir m
    by (rule section_checks_ids; simp add: github_NewDoctorCheck_probe docker_NewDoctorCheck_def omp_NewDoctorCheck_def)+
  show ?thesis
    unfolding document_checks_def check_ids_def Let_def map_append list_all_append list.map list.pred_inject
    by (simp only: store [OF refl] sections simp_thms) simp
qed

lemma check_ids_distinct:
  "distinct (check_ids c) \<longleftrightarrow>
     keys_distinct (elems (cf_connectors c)) \<and> keys_distinct (elems (cf_workspace_providers c)) \<and>
     keys_distinct (elems (cf_agent_runtimes c))"
proof -
  have inj: "inj_on ((@) (p :: string)) A" for p A by (simp add: inj_on_def)
  have d: "distinct (map ((@) (p :: string)) (sorted_names m)) \<longleftrightarrow> keys_distinct (elems m)" for p and m :: "Instance gomap"
    by (simp add: distinct_map inj sorted_names_def keys_distinct_def)
  show ?thesis unfolding check_ids_def distinct_append d by auto
qed

text \<open>The reasons and identifiers that are printed.\<close>

lemma check_ids_printable: "config_valid c \<Longrightarrow> list_all printable (check_ids c)"
  by (auto simp: check_ids_def list_all_iff config_valid_def instances_valid_def printable_name byte_def)

text \<open>
  C25.  The doctor checks everything the configuration names, exactly once.  When the configuration cannot be
  loaded the failure carries the printable reason of the configuration error.  Otherwise there is one check
  per connector, workspace provider and agent runtime, in the order of their names, and one for the store;
  the report of the concurrent run lists them under these identifiers, in that order; they are printable,
  and pairwise different exactly when the names in each section are; none of them is skipped, whatever
  its kind or its own configuration.
\<close>

theorem LoadDoctor_checks:
  "case LoadDoctor env path of
     Inl f \<Rightarrow> printable (df_reason f) \<and> df_reason f \<noteq> '''' \<and>
       (\<exists>e. Load (be_files env) (be_yaml env) (be_config env) path = Inl e \<and> df_cause f = Some e)
   | Inr (d, checks) \<Rightarrow>
       Load (be_files env) (be_yaml env) (be_config env) path = Inr d \<and>
       map ck_id checks = check_ids (dc_config d) \<and> map re_id (Run ctx checks) = check_ids (dc_config d) \<and>
       list_all printable (check_ids (dc_config d)) \<and> 4 \<le> length checks \<and>
       list_all (\<lambda>c. ck_probe c \<noteq> None) checks \<and>
       (distinct (check_ids (dc_config d)) \<longleftrightarrow>
          keys_distinct (elems (cf_connectors (dc_config d))) \<and>
          keys_distinct (elems (cf_workspace_providers (dc_config d))) \<and>
          keys_distinct (elems (cf_agent_runtimes (dc_config d))))"
proof (cases "Load (be_files env) (be_yaml env) (be_config env) path")
  case (Inl e)
  then show ?thesis using config_SafeReason_error [OF Load_error [OF Inl]] by (simp add: LoadDoctor_def)
next
  case (Inr d)
  let ?checks = "document_checks env d"
  have valid: "config_valid (dc_config d)" by (rule Load_valid [OF Inr])
  have ids: "map ck_id ?checks = check_ids (dc_config d)" "list_all (\<lambda>c. ck_probe c \<noteq> None) ?checks"
    using document_checks_ids [of env d] by auto
  have report: "map re_id (Run ctx ?checks) = map ck_id ?checks"
    by (simp add: Run_def check_result_def write_outcome_def write_id_def split: option.split prod.split)
  have "1 \<le> length (sorted_names m)" if "names m \<noteq> {}" for m :: "Instance gomap"
    using that set_sorted_names [of m] by (cases "sorted_names m") auto
  note some = this
  have "1 \<le> length (sorted_names (cf_connectors (dc_config d)))" "1 \<le> length (sorted_names (cf_workspace_providers (dc_config d)))"
    "1 \<le> length (sorted_names (cf_agent_runtimes (dc_config d)))"
    using valid by (auto simp: config_valid_def instances_valid_def intro!: some [unfolded One_nat_def])
  then have "4 \<le> length (check_ids (dc_config d))" by (simp add: check_ids_def)
  moreover have "length ?checks = length (check_ids (dc_config d))" using ids(1) by (metis length_map)
  ultimately show ?thesis
    using Inr ids report check_ids_printable [OF valid] check_ids_distinct [of "dc_config d"]
    by (simp add: LoadDoctor_def)
qed

end
