(* ===== verification/Bootstrap_Tasks.thy ===== *)
theory Bootstrap_Tasks
  imports Bootstrap
begin

text \<open>
  The task commands from the configuration file to the rows of the store, proved: what was submitted is
  shown again, and a submission that fails stores nothing.
\<close>

section \<open>The store between the commands\<close>

text \<open>A file that a writable open has accepted.\<close>

definition open_file :: "environment \<Rightarrow> path_file \<Rightarrow> bool" where
  "open_file env f \<longleftrightarrow>
     pf_regular f \<and> \<not> permissions_too_broad env f \<and> schema_valid (pf_db f) \<and> equal_fold (df_journal (pf_db f)) ''delete''"

lemma open_writable_journal:
  assumes "open_writable drv f = (Inr u, f')"
  shows "equal_fold (df_journal f') ''delete''" "df_data f' = df_data f"
proof -
  have "f' = f \<or> f' = migrated f" using open_writable_cases(1) [OF assms] by blast
  then have same: "df_journal f' = df_journal f \<and> df_data f' = df_data f" by (auto simp: migrated_def)
  have "requireDeleteJournal drv 1 f = Inr ()"
    using assms by (cases "requireDeleteJournal drv 1 f"; cases "call drv 0 (Inr ())") (auto simp: open_writable_def)
  then show "equal_fold (df_journal f') ''delete''"
    using same by (auto simp: requireDeleteJournal_def rbind_eq_Inr fail_if_eq_Inr call_Inr)
  show "df_data f' = df_data f" using same by simp
qed

text \<open>The rows of a store: none when there is no file.\<close>

definition file_rows :: "path_file option \<Rightarrow> database" where
  "file_rows file = (case file of None \<Rightarrow> empty_database | Some f \<Rightarrow> df_data (pf_db f))"

lemma sqlite_Open_Inr:
  assumes "sqlite_Open env drv configured dir file = (Inr h, file')"
  obtains f path where "h = Writable" "file' = Some f" "open_file env f" "df_data (pf_db f) = file_rows file"
    "resolveDatabasePath (en_wd env) configured dir = Inr path"
proof -
  obtain path where path: "resolveDatabasePath (en_wd env) configured dir = Inr path"
    using assms by (cases "resolveDatabasePath (en_wd env) configured dir") (auto simp: sqlite_Open_def)
  obtain r file1 where p: "prepareDatabaseFile env file = (r, file1)" by fastforce
  obtain created where created: "r = Inr created"
    using assms by (cases r) (auto simp: sqlite_Open_def path p)
  obtain f1 where f1: "file1 = Some f1" "pf_regular f1" "\<not> permissions_too_broad env f1"
    using prepare_Inr [OF p [unfolded created]] by blast
  have rows: "df_data (pf_db f1) = file_rows file"
    using p created prepare_Inr [OF p [unfolded created]] f1(1)
    by (auto simp: prepareDatabaseFile_def Let_def file_rows_def new_dbfile_def
        split: sum.splits if_splits option.splits)
  obtain q g where g: "open_writable drv (pf_db f1) = (q, g)" by fastforce
  have o: "en_sqlopen env = None" "q = Inr ()" "h = Writable" "file' = Some (f1\<lparr>pf_db := g\<rparr>)"
    using assms by (cases "en_sqlopen env"; cases q; simp add: sqlite_Open_def path p created f1(1) g Let_def)+
  note w = g [unfolded o(2)]
  have "open_file env (f1\<lparr>pf_db := g\<rparr>)"
    using f1(2,3) open_writable_cases(2) [OF w refl] open_writable_journal(1) [OF w]
    by (simp add: open_file_def permissions_too_broad_def)
  then show thesis using that o(3,4) open_writable_journal(2) [OF w] rows path by simp
qed

text \<open>An open for inspection that nothing disturbs.\<close>

definition undisturbed :: "environment \<Rightarrow> environment \<Rightarrow> bool" where
  "undisturbed env env' \<longleftrightarrow>
     en_wd env' = en_wd env \<and> en_windows env' = en_windows env \<and> en_stat env' = None \<and> en_sqlopen env' = None"

lemma sqlite_OpenReadOnly_ok:
  assumes "open_file env f" "undisturbed env env'" "resolveDatabasePath (en_wd env) configured dir = Inr path"
  shows "sqlite_OpenReadOnly env' (\<lambda>_. None) configured dir (Some f) = Inr ReadOnly"
proof -
  have "validateSchema (after 2 (\<lambda>_. None)) (pf_db f) = Inr ()"
    using assms(1) validateSchema_iff [of "pf_db f" "()"] by (simp add: open_file_def after_def [abs_def])
  moreover have "requireDeleteJournal (\<lambda>_. None) 1 (pf_db f) = Inr ()"
    using assms(1) by (simp add: requireDeleteJournal_def open_file_def)
  ultimately show ?thesis
    using assms by (auto simp: sqlite_OpenReadOnly_def undisturbed_def open_file_def permissions_too_broad_def)
qed

lemma open_file_rows: "open_file env (f\<lparr>pf_db := (pf_db f)\<lparr>df_data := db\<rparr>\<rparr>) = open_file env f"
  by (simp add: open_file_def permissions_too_broad_def schema_valid_def)

section \<open>What a submission reads\<close>

lemma case_option_Inr:
  "(case x of None \<Rightarrow> Inl e | Some y \<Rightarrow> f y) = Inr z \<longleftrightarrow> (\<exists>y. x = Some y \<and> f y = Inr z)"
  by (cases x) auto

lemma case_option_Inl:
  "(case x of None \<Rightarrow> Inl e | Some y \<Rightarrow> f y) = Inl z \<longleftrightarrow> (x = None \<and> e = z) \<or> (\<exists>y. x = Some y \<and> f y = Inl z)"
  by (cases x) auto

lemma plan_submission_Inr:
  assumes "plan_submission env configPath rn = Inr p"
  obtains d r where "Load (be_files env) (be_yaml env) (be_config env) configPath = Inr d"
    "map_of (elems (cf_resources (dc_config d))) rn = Some r" "sb_connector p = rsc_connector r"
    "Decode (be_yaml env) (be_sqlite_config env) (in_config (cf_store (dc_config d))) = Inr (sb_store p)"
    "sb_dir p = dc_dir d" "sb_policy p = cf_policy (dc_config d)"
  using assms
  by (auto simp: plan_submission_def rbind_eq_Inr map_err_eq_Inr fail_if_eq_Inr Let_def case_option_Inr)

text \<open>Unlike \<open>showTask\<close>, a submission never looks at the kind of the store.\<close>

lemma submit_ignores_store_kind:
  assumes "Load (be_files env) (be_yaml env) (be_config env) path = Inr d"
    and "Load (be_files env) (be_yaml env) config path =
      Inr (d\<lparr>dc_config := (dc_config d)\<lparr>cf_store := (cf_store (dc_config d))\<lparr>in_kind := kind\<rparr>\<rparr>\<rparr>)"
  shows "plan_submission (env\<lparr>be_config := config\<rparr>) path rn = plan_submission env path rn"
  using assms by (simp add: plan_submission_def Let_def cong: option.case_cong)

lemma planned_names:
  assumes "Load fs y typed path = Inr d" "map_of (elems (cf_resources (dc_config d))) rn = Some r"
  shows "instance_name rn" "instance_name (rsc_connector r)"
proof -
  have v: "config_valid (dc_config d)" by (rule Load_valid [OF assms(1)])
  have n: "rn \<in> names (cf_resources (dc_config d))"
    using assms(2) map_of_SomeD by (force simp: names_def)
  have "entry (cf_resources (dc_config d)) rn = r" by (simp add: entry_def assms(2))
  then show "instance_name rn" "instance_name (rsc_connector r)"
    using v n by (auto simp: config_valid_def resource_valid_def)
qed

lemma instance_name_utf8: "instance_name s \<Longrightarrow> utf8_valid s"
  by (rule ascii_valid) (rule instance_name_ascii)

section \<open>Sources\<close>

text \<open>A repository source names a revision that can be stored.\<close>

definition source_storable :: "(gctx \<Rightarrow> gerr + RepositoryMaterial) \<Rightarrow> bool" where
  "source_storable source \<longleftrightarrow>
     (\<forall>ctx m. source ctx = Inr m \<longrightarrow> utf8_valid (rm_revision m) \<and> length (rm_revision m) \<le> 512 * 1024)"

definition sources_storable :: "'k boot_env \<Rightarrow> taskOptions \<Rightarrow> bool" where
  "sources_storable env options \<longleftrightarrow>
     (\<forall>app resource dir source.
        or_default (to_newRepositorySource options) (default_newRepositorySource env) app resource dir = Inr source \<longrightarrow>
        source_storable source)"

lemma commit_sha_storable: "commit_sha s \<Longrightarrow> utf8_valid s \<and> length s \<le> 512 * 1024"
  by (rule conjI, rule ascii_valid) (fastforce simp: commit_sha_def)+

lemma Snapshot_revision: "fst (Snapshot env sv s ctx) = Inr m \<Longrightarrow> commit_sha (rm_revision m)"
proof -
  assume "fst (Snapshot env sv s ctx) = Inr m"
  then obtain jwt where "fst (snapshot_with_jwt env sv s ctx jwt []) = Inr m"
    by (auto simp: Snapshot_def split: option.splits sum.splits)
  moreover have "case fst (snapshot_with_jwt env sv s ctx jwt []) of Inl e \<Rightarrow> source_error e | Inr x \<Rightarrow> material_sound s x"
    using snapshot_gives unfolding gives_def by blast
  ultimately show ?thesis by (simp add: material_sound_def)
qed

text \<open>The GitHub source does.\<close>

lemma default_sources_storable: "sources_storable env (defaultTaskOptions env)"
  by (auto simp: sources_storable_def source_storable_def defaultTaskOptions_def or_default_def
      default_newRepositorySource_def rbind_eq_Inr dest!: Snapshot_revision commit_sha_storable)

section \<open>Submitting and showing\<close>

lemma submitTask_Inr:
  assumes "submitTask env ctx sctx configPath rn input options file = (Inr t, file')"
  obtains p store f source db where "plan_submission env configPath rn = Inr p"
    "or_default (to_openStore options) (default_openStore env) (sb_store p) (sb_dir p) file = (Inr store, f)"
    "or_default (to_newRepositorySource options) (default_newRepositorySource env)
       (sb_app p) (sb_repository p) (sb_dir p) = Inr source"
    "SubmitManualRepository (Some (store_create env store)) (or_default (to_newID options) (be_newID env))
       (be_now env) ctx rn (sb_connector p) input (sb_policy p) (Some (source sctx)) (df_data (pf_db (the f))) = (Inr t, db)"
    "file' = Some ((the f)\<lparr>pf_db := (pf_db (the f))\<lparr>df_data := db\<rparr>\<rparr>)"
proof -
  obtain p where p: "plan_submission env configPath rn = Inr p"
    using assms by (cases "plan_submission env configPath rn") (auto simp: submitTask_def)
  obtain r f where o: "or_default (to_openStore options) (default_openStore env) (sb_store p) (sb_dir p) file = (r, f)"
    by fastforce
  obtain store where r: "r = Inr store" using assms by (cases r) (auto simp: submitTask_def p o)
  obtain source where s: "or_default (to_newRepositorySource options) (default_newRepositorySource env)
       (sb_app p) (sb_repository p) (sb_dir p) = Inr source"
    using assms
    by (cases "or_default (to_newRepositorySource options) (default_newRepositorySource env) (sb_app p) (sb_repository p) (sb_dir p)")
      (auto simp: submitTask_def p o r)
  obtain q db where q: "SubmitManualRepository (Some (store_create env store)) (or_default (to_newID options) (be_newID env))
       (be_now env) ctx rn (sb_connector p) input (sb_policy p) (Some (source sctx)) (df_data (pf_db (the f))) = (q, db)"
    by fastforce
  have "q = Inr t" "file' = Some ((the f)\<lparr>pf_db := (pf_db (the f))\<lparr>df_data := db\<rparr>\<rparr>)"
    using assms by (simp_all add: submitTask_def p o r s q Let_def)
  with q show thesis by (intro that [OF p o [unfolded r] s]) simp_all
qed

lemma store_create_writable: "be_driver env = (\<lambda>_. None) \<Longrightarrow> store_create env Writable = sqlite_create"
  by (intro ext) (simp add: store_create_def sqlite_create_def)

lemma store_task_lookup: "be_driver env = (\<lambda>_. None) \<Longrightarrow> store_task env h = sqlite_lookup"
  by (intro ext) (simp add: store_task_def sqlite_lookup_def sqlite_Task_def)

text \<open>
  A submitted task is what showing it returns, from nothing but the configuration file and the store it
  names; when that store is of another kind than \<open>sqlite\<close>, which a submission does not look at, showing it fails.
  The calls on the open store and the second open are not disturbed; the first open may take any
  course that succeeds.
\<close>

definition plain_seams :: "'k boot_env \<Rightarrow> taskOptions \<Rightarrow> bool" where
  "plain_seams env options \<longleftrightarrow>
     or_default (to_openStore options) (default_openStore env) = default_openStore env \<and>
     or_default (to_openStoreReadOnly options) (default_openStoreReadOnly env) = default_openStoreReadOnly env \<and>
     sources_storable env options"

lemma default_seams: "plain_seams env (defaultTaskOptions env)"
  by (simp add: plain_seams_def default_sources_storable) (simp add: or_default_def defaultTaskOptions_def)

definition unsupported_store :: gerr where
  "unsupported_store = NewFailure ''state store is unavailable'' (ErrNew ''store adapter is unsupported'')"

lemma submitted_task_shown:
  assumes lib: "decodes_fields (be_yaml env) (be_config env) (be_store_document env)"
    and calls: "be_driver env = (\<lambda>_. None)" "be_show_driver env = (\<lambda>_. None)" "undisturbed (be_open env) (be_show env)"
    and plain: "plain_document (be_files env) (be_yaml env) configPath" and options: "plain_seams env options"
    and rows: "sqlite_inv (file_rows file)" and now: "storable (time_UTC (be_now env))"
    and plan: "plan_submission env configPath rn = Inr p" "length rn \<le> 512 * 1024" "length (sb_connector p) \<le> 512 * 1024"
    and load: "Load (be_files env) (be_yaml env) (be_config env) configPath = Inr d"
    and submit: "submitTask env ctx sctx configPath rn input options file = (Inr t, file')"
    and observed: "contextError ctx' 0 = None"
  shows "showTask env ctx' configPath (tk_id t) options file' =
      (if in_kind (cf_store (dc_config d)) = ''sqlite'' then Inr t else Inl unsupported_store)" "is_ok (ParseTaskID (tk_id t))"
    "tk_status t = TaskStatusPending" "tk_created_at t = time_UTC (be_now env)"
    "\<exists>material. stored_faithfully input (cf_policy (dc_config d)) material t"
proof -
  obtain store f source db where o: "default_openStore env (sb_store p) (sb_dir p) file = (Inr store, f)"
    and s: "or_default (to_newRepositorySource options) (default_newRepositorySource env)
       (sb_app p) (sb_repository p) (sb_dir p) = Inr source"
    and sub: "SubmitManualRepository (Some (store_create env store)) (or_default (to_newID options) (be_newID env))
       (be_now env) ctx rn (sb_connector p) input (sb_policy p) (Some (source sctx)) (df_data (pf_db (the f))) = (Inr t, db)"
    and file': "file' = Some ((the f)\<lparr>pf_db := (pf_db (the f))\<lparr>df_data := db\<rparr>\<rparr>)"
    by (rule submitTask_Inr [OF submit]) (use plan(1) options in \<open>simp add: plain_seams_def\<close>)
  obtain g path where g: "store = Writable" "f = Some g" "open_file (be_open env) g"
    "df_data (pf_db g) = file_rows file" "resolveDatabasePath (en_wd (be_open env)) (sb_store p) (sb_dir p) = Inr path"
    by (rule sqlite_Open_Inr [OF o [unfolded default_openStore_def]])
  obtain r where r: "map_of (elems (cf_resources (dc_config d))) rn = Some r" "sb_connector p = rsc_connector r"
    "Decode (be_yaml env) (be_sqlite_config env) (in_config (cf_store (dc_config d))) = Inr (sb_store p)"
    "sb_dir p = dc_dir d" "sb_policy p = cf_policy (dc_config d)"
    by (rule plan_submission_Inr [OF plan(1)]) (use load in auto)
  note names = planned_names [OF load r(1)]
  have repr: "sqlite_repr x"
    if "Some (source sctx) = Some (Inr m)" "build_draft newID (be_now env) rn (sb_connector p) input (sb_policy p) m = Inr x"
    for m newID x
  proof (rule sqlite_repr_built [OF that(2)])
    show "utf8_valid (rm_revision m)" "length (rm_revision m) \<le> 512 * 1024"
      using options s that(1) unfolding plain_seams_def sources_storable_def source_storable_def by blast+
  qed (use names plan now r(2) instance_name_utf8 in auto)
  note sub' = sub [unfolded g(1,2) store_create_writable [OF calls(1)] option.sel g(4)]
  have shown: "Show (Some sqlite_lookup) ctx' (tk_id t) (snd (run_store sqlite_create [] db)) = Inr t"
    by (rule sqlite.submit_then_show [OF rows _ sub' observed]) (auto intro: repr)
  have task: "\<exists>material. Some (source sctx) = Some (Inr material) \<and> stored_faithfully input (sb_policy p) material t \<and>
      tk_id t = or_default (to_newID options) (be_newID env) ''task_'' \<and> tk_status t = TaskStatusPending \<and>
      tk_created_at t = time_UTC (be_now env)"
    by (rule sqlite.submitted_task(1) [OF rows _ sub']) (rule repr)
  have doc: "LoadStore (be_files env) (be_yaml env) (be_store_document env) configPath =
      Inr \<lparr>sd_path = dc_path d, sd_dir = dc_dir d, sd_version = 1, sd_store = cf_store (dc_config d)\<rparr>"
    by (rule LoadStore_of_Load [OF lib plain load])
  have ro: "default_openStoreReadOnly env (sb_store p) (dc_dir d) file' = Inr ReadOnly"
    unfolding default_openStoreReadOnly_def file' calls(2) g(2) option.sel
    by (rule sqlite_OpenReadOnly_ok [OF _ calls(3) g(5) [unfolded r(4)]]) (simp add: open_file_rows g(3))
  have "or_default (to_openStoreReadOnly options) (default_openStoreReadOnly env) = default_openStoreReadOnly env"
    using options by (simp add: plain_seams_def)
  then show "showTask env ctx' configPath (tk_id t) options file' =
      (if in_kind (cf_store (dc_config d)) = ''sqlite'' then Inr t else Inl unsupported_store)"
    using shown ro r(3)
    by (simp add: showTask_def doc file' store_task_lookup [OF calls(1)] fail_if_def unsupported_store_def)
  show "is_ok (ParseTaskID (tk_id t))" by (rule sqlite.submitted_task(4) [OF rows _ sub']) (rule repr)
  show "tk_status t = TaskStatusPending" "tk_created_at t = time_UTC (be_now env)"
    "\<exists>material. stored_faithfully input (cf_policy (dc_config d)) material t"
    using task r(5) by auto
qed

section \<open>A submission that fails\<close>

lemma file_rows_data: "df_data (pf_db f) = db \<Longrightarrow> file_rows (Some f) = db"
  by (simp add: file_rows_def)

lemma sqlite_Open_rows:
  assumes "sqlite_Open env drv configured dir file = (r, file')"
  shows "file_rows file' = file_rows file"
proof (cases "resolveDatabasePath (en_wd env) configured dir")
  case (Inl e)
  with assms show ?thesis by (simp add: sqlite_Open_def)
next
  case (Inr path)
  obtain p file1 where p: "prepareDatabaseFile env file = (p, file1)" by fastforce
  have rows1: "file_rows file1 = file_rows file"
    using p by (auto simp: prepareDatabaseFile_def remove_file_def Let_def file_rows_def new_dbfile_def
        split: sum.splits if_splits option.splits)
  show ?thesis
  proof (cases p)
    case (Inl e)
    with assms rows1 show ?thesis by (simp add: sqlite_Open_def Inr p)
  next
    case created: (Inr created)
    obtain f1 where f1: "file1 = Some f1" "if created then file = None else file = Some f1"
      using prepare_Inr [OF p [unfolded created]] by blast
    obtain q g where g: "open_writable drv (pf_db f1) = (q, g)" by fastforce
    have data: "df_data g = df_data (pf_db f1)"
      using open_writable_cases(1) [OF g] by (auto simp: migrated_def)
    have new: "file_rows file = empty_database" if created using f1(2) that by (simp add: file_rows_def)
    have rm: "file_rows (if created then remove_file env (Some h) else Some h) = file_rows file"
      if "df_data (pf_db h) = file_rows file" for h
      using that new by (auto simp: remove_file_def file_rows_def [of None] file_rows_def [of "Some h"])
    have f1_rows: "df_data (pf_db f1) = file_rows file" using rows1 by (simp add: f1(1) file_rows_def)
    then have "df_data (pf_db (f1\<lparr>pf_db := g\<rparr>)) = file_rows file" using data by simp
    note ends = rm [OF f1_rows] rm [OF this] file_rows_data [OF this]
    show ?thesis
      using assms ends by (auto simp: sqlite_Open_def Inr p created f1(1) g Let_def split: option.splits sum.splits)
  qed
qed

lemma sqlite_Open_keeps:
  assumes "sqlite_Open env drv configured dir file = (r, file')" and "file \<noteq> None"
  shows "file' \<noteq> None"
proof -
  have "\<not> created \<and> file1 \<noteq> None" if "prepareDatabaseFile env file = (Inr created, file1)" for created file1
    using prepare_Inr [OF that] assms(2) by (auto split: if_splits)
  moreover have "file1 \<noteq> None" if "prepareDatabaseFile env file = (Inl e, file1)" for e file1
    using prepare_Inl [OF that] assms(2) by auto
  ultimately show ?thesis
    using assms(1,2)
    by (auto simp: sqlite_Open_def Let_def split: sum.splits prod.splits option.splits)
qed

lemma store_create_Inl: "store_create env h d db = (Inl e, db') \<Longrightarrow> db' = db"
  using sqlite_CreateTask_returns [of "Some h" "be_driver env" d db]
  by (auto simp: store_create_def sqlite_CreateTask_def Let_def split: sum.splits prod.splits if_splits option.splits)

lemma plan_submission_failure: "plan_submission env configPath rn = Inl e \<Longrightarrow> is_failure e"
  by (auto simp: plan_submission_def rbind_eq_Inl map_err_eq_Inl fail_if_eq_Inl Let_def NewFailure_def case_option_Inl)

lemma controlFromError_failure: "is_failure (controlFromError e fallback)"
  by (simp add: controlFromError_def NewFailure_def split: option.split)

lemma submitTask_failure:
  assumes "submitTask env ctx sctx configPath rn input options file = (Inl e, file')"
  shows "is_failure e"
proof (cases "plan_submission env configPath rn")
  case (Inl e')
  then show ?thesis using assms plan_submission_failure by (simp add: submitTask_def)
next
  case (Inr p)
  obtain r f where o: "or_default (to_openStore options) (default_openStore env) (sb_store p) (sb_dir p) file = (r, f)"
    by fastforce
  show ?thesis
  proof (cases r)
    case (Inl e')
    then show ?thesis using assms controlFromError_failure by (auto simp: submitTask_def Inr o)
  next
    case store: (Inr store)
    show ?thesis
    proof (cases "or_default (to_newRepositorySource options) (default_newRepositorySource env)
        (sb_app p) (sb_repository p) (sb_dir p)")
      case bad: (Inl e')
      then show ?thesis using assms by (auto simp: submitTask_def Inr o store NewFailure_def)
    next
      case source: (Inr source)
      then show ?thesis
        using assms by (auto simp: submitTask_def Inr o store Let_def split: prod.splits dest: submit_failure)
    qed
  qed
qed

text \<open>
  C7.  A submission that fails leaves no trace in the store, whatever fails: the configuration, the open, the
  repository source, the service or any call of the driver.  The rows are the ones before, a file that
  existed is still there, and the error is a failure of the control package, whose reason is safe to
  show.  A submission that succeeds ends with the file in place, in the supported schema.
\<close>

theorem SubmitTask_atomic:
  "case SubmitTask env ctx sctx configPath rn input file of
     (Inl e, file') \<Rightarrow> is_failure e \<and> file_rows file' = file_rows file \<and> (case file of None \<Rightarrow> True | Some _ \<Rightarrow> \<exists>f. file' = Some f)
   | (Inr t, file') \<Rightarrow> (\<exists>f. file' = Some f \<and> open_file (be_open env) f)"
proof (cases "plan_submission env configPath rn")
  case (Inl e)
  then show ?thesis by (cases "file") (simp_all add: SubmitTask_def submitTask_def plan_submission_failure)
next
  case (Inr p)
  let ?open = "sqlite_Open (be_open env) (be_open_driver env) (sb_store p) (sb_dir p) file"
  have seams: "or_default (to_openStore (defaultTaskOptions env)) x (sb_store p) (sb_dir p) file = ?open"
    "or_default (to_newRepositorySource (defaultTaskOptions env)) y = default_newRepositorySource env" for x y
    by (simp_all add: or_default_def defaultTaskOptions_def default_openStore_def)
  obtain r f where o: "?open = (r, f)" by fastforce
  note rows = sqlite_Open_rows [OF o]
  show ?thesis
  proof (cases r)
    case (Inl e)
    have "file = None \<or> f \<noteq> None" using sqlite_Open_keeps [OF o] by blast
    then show ?thesis
      using rows by (auto simp: SubmitTask_def submitTask_def Inr seams o Inl controlFromError_failure split: option.split)
  next
    case store: (Inr store)
    have kept: "case file of None \<Rightarrow> True | Some _ \<Rightarrow> \<exists>f. Some x = Some f" for x :: path_file
      by (simp split: option.split)
    obtain g where g: "f = Some g" "open_file (be_open env) g" "df_data (pf_db g) = file_rows file"
      using sqlite_Open_Inr [OF o [unfolded store]] by metis
    show ?thesis
    proof (cases "default_newRepositorySource env (sb_app p) (sb_repository p) (sb_dir p)")
      case (Inl e)
      then show ?thesis
        using rows g(1) by (simp add: kept SubmitTask_def submitTask_def Inr seams o store NewFailure_def)
    next
      case source: (Inr source)
      obtain q db where q: "SubmitManualRepository (Some (store_create env store))
          (or_default (to_newID (defaultTaskOptions env)) (be_newID env)) (be_now env) ctx rn (sb_connector p) input
          (sb_policy p) (Some (source sctx)) (df_data (pf_db g)) = (q, db)" by fastforce
      have run: "SubmitTask env ctx sctx configPath rn input file = (q, Some (g\<lparr>pf_db := (pf_db g)\<lparr>df_data := db\<rparr>\<rparr>))"
        by (simp add: kept SubmitTask_def submitTask_def Inr seams o store source g(1) q Let_def)
      have "db = df_data (pf_db g)" if "q = Inl e" for e
        using q [unfolded that] by (rule submit_Inl) (auto dest: store_create_Inl)
      then show ?thesis
        using run g q submit_failure by (cases q) (auto simp: kept open_file_rows file_rows_def [of "Some _"])
    qed
  qed
qed

end
