(* ===== verification/Submission_Source.thy ===== *)
theory Submission_Source
  imports Bootstrap_Tasks
begin

text \<open>
  The interface \<open>RepositorySource\<close> of \<open>internal/control/task.go\<close> as a locale: what a source promises of the material
  it returns, and what the task service makes of it, whatever the store.  The GitHub source that \<open>bootstrap\<close> hands to
  the service keeps the promise, so every task it submits is pinned to the commit that GitHub answered with.
\<close>

section \<open>The interface\<close>

text \<open>\<open>sound\<close> is what the source guarantees of its material, and \<open>reported\<close> of its errors.\<close>

locale repository_source =
  fixes snapshot :: "gctx \<Rightarrow> gerr + RepositoryMaterial"
    and sound :: "RepositoryMaterial \<Rightarrow> bool"
    and reported :: "gerr \<Rightarrow> bool"
  assumes snapshot_sound: "snapshot ctx = Inr m \<Longrightarrow> sound m"
    and snapshot_failed: "snapshot ctx = Inl e \<Longrightarrow> reported e"
    and reported_reason: "reported e \<Longrightarrow> \<exists>r. SafeReason_method e = Some r \<and> r \<noteq> ''''"
begin

text \<open>A failing source: the store is untouched and the operator is told the source's own reason.\<close>

lemma source_failure:
  assumes "snapshot sctx = Inl e" and "contextError ctx 0 = None" "contextError ctx 1 = None" and "rn \<noteq> ''''" "cn \<noteq> ''''"
  shows "\<exists>r. SafeReason_method e = Some r \<and> r \<noteq> '''' \<and>
    SubmitManualRepository (Some create) newID now ctx rn cn input operator (Some (snapshot sctx)) s =
      (Inl (NewFailure r e), s)"
proof -
  obtain r where r: "SafeReason_method e = Some r" "r \<noteq> ''''"
    using reported_reason [OF snapshot_failed [OF assms(1)]] by blast
  then have "reason_provider e = Some r" unfolding reason_provider_def by (subst chain.simps) simp
  then have "failureFromCause ctx 1 e = NewFailure r e"
    using assms(3) r(2) by (simp add: failureFromCause_def NewFailure_def)
  then show ?thesis using assms r by (simp add: SubmitManualRepository_def)
qed

text \<open>What a submission hands to the store is a draft of sound material under the given names.\<close>

lemma submission:
  "case SubmitManualRepository (Some create) newID now ctx rn cn input operator (Some (snapshot sctx)) s of
     (Inl e, s') \<Rightarrow> is_failure e
   | (Inr t, s') \<Rightarrow> \<exists>m d. sound m \<and> build_draft newID now rn cn input operator m = Inr d \<and> create d s = (Inr t, s') \<and>
       rd_name (td_resource d) = rn \<and> rd_connector (td_resource d) = cn \<and>
       rd_kind (td_resource d) = ResourceKindRepository \<and> rd_revision (td_resource d) = rm_revision m"
proof -
  obtain r s' where sub: "SubmitManualRepository (Some create) newID now ctx rn cn input operator (Some (snapshot sctx)) s = (r, s')"
    by fastforce
  show ?thesis
  proof (cases r)
    case (Inl e)
    then show ?thesis using sub submit_failure [of "Some create"] by simp
  next
    case (Inr t)
    obtain m d where m: "snapshot sctx = Inr m"
      and d: "build_draft newID now rn cn input operator m = Inr d" "create d s = (Inr t, s')"
      by (rule submit_Inr [OF sub [unfolded Inr]]) simp
    from d(1) have "rd_name (td_resource d) = rn \<and> rd_connector (td_resource d) = cn \<and>
        rd_kind (td_resource d) = ResourceKindRepository \<and> rd_revision (td_resource d) = rm_revision m"
      by (rule build_draft_facts) (simp add: make_draft_def)
    then show ?thesis using sub Inr d snapshot_sound [OF m] by auto
  qed
qed

end

section \<open>The GitHub source\<close>

interpretation github: repository_source "\<lambda>ctx. fst (Snapshot env sv source ctx)"
  "\<lambda>m. material_sound source m \<and> pinned env sv source m" source_error
  for env sv source
proof unfold_locales
  show "material_sound source m \<and> pinned env sv source m" if "fst (Snapshot env sv source ctx) = Inr m" for ctx m
    using Snapshot_gives [where env = env and sv = sv and s = source and ctx = ctx] Snapshot_pinned [OF that] that by simp
  show "source_error e" if "fst (Snapshot env sv source ctx) = Inl e" for ctx e
    using Snapshot_gives [where env = env and sv = sv and s = source and ctx = ctx] that by simp
  show "\<exists>r. SafeReason_method e = Some r \<and> r \<noteq> ''''" if "source_error e" for e
    using that by (auto simp: source_error_def key_reasons_def)
qed

lemma sqlite_create_result:
  assumes "sqlite_CreateTask h drv d db = (Some (Inr t), db')"
  shows "\<exists>i. t = task_of d i"
proof -
  have snapshot: "\<exists>i. rs = draft_resource_snapshot d i" if "create_transaction drv d db = Inr (rs, db')" for rs
    using that by (auto simp: create_transaction_def Let_def rbind_eq_Inr)
  have parsed: "mustSnapshot (Snapshot_Bytes x) = Some y \<Longrightarrow> y = parsed x" for x y
    by (auto simp: mustSnapshot_def Snapshot_Bytes_def parsed_def split: sum.splits)
  show ?thesis
    using assms snapshot
    by (fastforce simp: sqlite_CreateTask_def task_of_def draft_resource_snapshot_def dest!: parsed
        split: if_splits sum.splits option.splits prod.splits)
qed

lemma store_create_result:
  assumes "store_create env h d db = (Inr t, db')"
  shows "\<exists>i. t = task_of d i"
proof -
  obtain r where r: "sqlite_CreateTask (Some h) (be_driver env) d db = (Some r, db')"
    using assms sqlite_CreateTask_returns [of "Some h" "be_driver env" d db]
    by (cases "sqlite_CreateTask (Some h) (be_driver env) d db"; cases "fst (sqlite_CreateTask (Some h) (be_driver env) d db)")
      (auto simp: store_create_def)
  then have "r = Inr t" using assms by (simp add: store_create_def)
  then show ?thesis using r sqlite_create_result by blast
qed

lemma SubmitTask_pinned:
  "case SubmitTask env ctx sctx configPath rn input file of
     (Inl e, file') \<Rightarrow> is_failure e
   | (Inr t, file') \<Rightarrow> \<exists>p s m. plan_submission env configPath rn = Inr p \<and>
       NewRepositorySource (ge_now (be_github env)) (sb_app p) (sb_repository p) (sb_dir p) = Inr s \<and>
       pinned (be_github env) (be_repository env) s m \<and> material_sound s m \<and> stored_faithfully input (sb_policy p) m t \<and>
       tk_resource t = \<lparr>rs_id = rs_id (tk_resource t), rs_name = rn, rs_kind = ResourceKindRepository,
         rs_connector = sb_connector p, rs_revision = rm_revision m\<rparr>"
proof -
  obtain r file' where out: "SubmitTask env ctx sctx configPath rn input file = (r, file')" by fastforce
  show ?thesis
  proof (cases r)
    case (Inl e)
    then show ?thesis using submitTask_failure [OF out [unfolded SubmitTask_def Inl]] out by simp
  next
    case (Inr t)
    obtain p store f source db where p: "plan_submission env configPath rn = Inr p"
      and "or_default (to_openStore (defaultTaskOptions env)) (default_openStore env) (sb_store p) (sb_dir p) file = (Inr store, f)"
      and source: "or_default (to_newRepositorySource (defaultTaskOptions env)) (default_newRepositorySource env)
        (sb_app p) (sb_repository p) (sb_dir p) = Inr source"
      and sub: "SubmitManualRepository (Some (store_create env store)) (or_default (to_newID (defaultTaskOptions env)) (be_newID env))
        (be_now env) ctx rn (sb_connector p) input (sb_policy p) (Some (source sctx)) (df_data (pf_db (the f))) = (Inr t, db)"
      and "file' = Some ((the f)\<lparr>pf_db := (pf_db (the f))\<lparr>df_data := db\<rparr>\<rparr>)"
      by (rule submitTask_Inr [OF out [unfolded SubmitTask_def Inr]])
    obtain s where s: "NewRepositorySource (ge_now (be_github env)) (sb_app p) (sb_repository p) (sb_dir p) = Inr s"
      "source = (\<lambda>ctx. fst (Snapshot (be_github env) (be_repository env) s ctx))"
      using source by (auto simp: or_default_def defaultTaskOptions_def default_newRepositorySource_def rbind_eq_Inr)
    obtain m d where m: "material_sound s m" "pinned (be_github env) (be_repository env) s m"
      and b: "build_draft (or_default (to_newID (defaultTaskOptions env)) (be_newID env)) (be_now env) rn (sb_connector p)
        input (sb_policy p) m = Inr d"
      and c: "store_create env store d (df_data (pf_db (the f))) = (Inr t, db)"
      and fields: "rd_name (td_resource d) = rn" "rd_connector (td_resource d) = sb_connector p"
        "rd_kind (td_resource d) = ResourceKindRepository" "rd_revision (td_resource d) = rm_revision m"
      using github.submission [where env = "be_github env" and sv = "be_repository env" and source = s and rn = rn
          and cn = "sb_connector p" and create = "store_create env store" and ctx = ctx and sctx = sctx
          and newID = "or_default (to_newID (defaultTaskOptions env)) (be_newID env)" and now = "be_now env"
          and input = input and operator = "sb_policy p" and s = "df_data (pf_db (the f))"] sub s(2)
      by auto
    obtain i where t: "t = task_of d i" using store_create_result [OF c] by blast
    have "stored_faithfully input (sb_policy p) m t" unfolding t by (rule task_of_faithful [OF b])
    then show ?thesis using out Inr p s(1) m fields by (auto simp: t task_of_def)
  qed
qed

text \<open>
  C2.  A task that the program submits is pinned to what GitHub answered (\<open>pinned\<close>): with the token it granted for the
  installation, the third request asked for the configured repository, and the answer gave its name, its identity and its
  default branch; the fourth asked for the newest commit of that branch, and the task's revision is the commit in the
  answer, in lower case; the fifth asked for the configuration file at that very revision, and the task's
  configuration snapshot is of the document in the answer, or of the empty configuration when there was none.  Each answer
  is the one the transport returned to a request that was sent.  The task's resource has the requested name and the configured
  connector, and its policy snapshot resolves that configuration's policy with the operator's.  Whatever else happens is a
  failure of the control package.
\<close>

theorem submitted_task_pinned:
  "case SubmitTask env ctx sctx configPath rn input file of
     (Inl e, file') \<Rightarrow> is_failure e
   | (Inr t, file') \<Rightarrow> \<exists>p s m. plan_submission env configPath rn = Inr p \<and>
       NewRepositorySource (ge_now (be_github env)) (sb_app p) (sb_repository p) (sb_dir p) = Inr s \<and>
       pinned (be_github env) (be_repository env) s m \<and> material_sound s m \<and> stored_faithfully input (sb_policy p) m t \<and>
       tk_resource t = \<lparr>rs_id = rs_id (tk_resource t), rs_name = rn, rs_kind = ResourceKindRepository,
         rs_connector = sb_connector p, rs_revision = rm_revision m\<rparr>"
  by (rule SubmitTask_pinned)

end
