(* ===== verification/Task_Output.thy ===== *)
theory Task_Output
  imports Snapshots Go_Numbers
begin

text \<open>
  What \<open>delegatd task\<close> prints: \<open>writeJSON\<close> of \<open>cmd/delegatd/main.go\<close> on the task identifier and on a
  whole \<open>domain.Task\<close>.  Values with a \<open>MarshalJSON\<close> method (the time and the snapshots) go through the
  encoder's check and compaction; on what the program holds that changes nothing (\<open>marshaled_enc\<close>),
  the output is one line (\<open>enc_no_control\<close>), and it reads back (\<open>encode_Task_reads\<close>).
\<close>

section \<open>Marshalled values\<close>

text \<open>Removing the white space between tokens; the flag says that the text so far ends inside a string.\<close>

fun compact_text :: "bool \<Rightarrow> string \<Rightarrow> string" where
  "compact_text q [] = []"
| "compact_text False (c # s) =
     (if is_ws c then compact_text False s else c # compact_text (c = dquote) s)"
| "compact_text True (c # s) =
     (if c = backslash then c # (case s of [] \<Rightarrow> [] | d # s' \<Rightarrow> d # compact_text True s')
      else c # compact_text (c \<noteq> dquote) s)"

definition marshaled :: "gerr + string \<Rightarrow> gerr + string" where
  "marshaled r =
     map_err (WrapE ''json: error calling MarshalJSON'')
       (rbind r (\<lambda>b. case decode_one b of
          Some (v, t) \<Rightarrow> if skip_ws t = [] then Inr (compact_text False b) else Inl json_error
        | None \<Rightarrow> Inl json_error))"

text \<open>\<open>time.Time.MarshalJSON\<close>; \<open>local\<close> gives the offset of the local zone at an instant, in seconds.\<close>

definition time_offset :: "(int \<Rightarrow> int) \<Rightarrow> gotime \<Rightarrow> int" where
  "time_offset local t = (case t_loc t of UTC \<Rightarrow> 0 | LocalZone \<Rightarrow> local (t_sec t) | FixedZone n \<Rightarrow> n)"

definition format_zone :: "int \<Rightarrow> string" where
  "format_zone offset =
     (if offset = 0 then ''Z''
      else let zone = nat \<bar>offset\<bar> div 60 in
        (if offset \<le> - 60 then CHR ''-'' else CHR ''+'') # pad2 (zone div 60) @ '':'' @ pad2 (zone mod 60))"

definition Time_MarshalJSON :: "(int \<Rightarrow> int) \<Rightarrow> gotime \<Rightarrow> gerr + string" where
  "Time_MarshalJSON local t =
     (let offset = time_offset local t; sec = t_sec t + offset; secs = nat (sec mod 86400) in
      case date_of_days (sec div 86400) of (y, m, d) \<Rightarrow>
        if y < 0 \<or> 9999 < y then Inl (ErrNew ''year outside of range [0,9999]'')
        else if 24 \<le> \<bar>offset\<bar> div 3600 then Inl (ErrNew ''timezone hour outside of range [0,23]'')
        else Inr (dquote # format_year y @ ''-'' @ pad2 m @ ''-'' @ pad2 (nat d) @ ''T'' @
               pad2 (secs div 3600) @ '':'' @ pad2 (secs div 60 mod 60) @ '':'' @ pad2 (secs mod 60) @
               format_fraction (t_nsec t) @ format_zone offset @ [dquote]))"

section \<open>The lines\<close>

definition raw_member :: "string \<times> string \<Rightarrow> string" where
  "raw_member = (\<lambda>(k, v). dquote # esc False k @ dquote # CHR '':'' # v)"

definition raw_object :: "(string \<times> string) list \<Rightarrow> string" where
  "raw_object kvs = CHR ''{'' # join_with '','' (map raw_member kvs) @ ''}''"

text \<open>\<open>Encoder.Encode\<close> of a task; the fields are encoded in the order of the struct.\<close>

definition encode_Task :: "(int \<Rightarrow> int) \<Rightarrow> Task \<Rightarrow> gerr + string" where
  "encode_Task local t =
     rbind (marshaled (Time_MarshalJSON local (tk_created_at t))) (\<lambda>created.
     rbind (marshaled (Snapshot_MarshalJSON (tk_input t))) (\<lambda>input.
     rbind (marshaled (Snapshot_MarshalJSON (tk_configuration t))) (\<lambda>configuration.
     rbind (marshaled (Snapshot_MarshalJSON (tk_policy t))) (\<lambda>policy.
     Inr (raw_object
       [(''id'', enc False (JStr (tk_id t))), (''status'', enc False (JStr (tk_status t))), (''created_at'', created),
        (''resource'', enc False (json_ResourceSnapshot (tk_resource t))), (''input'', input),
        (''configuration'', configuration), (''policy'', policy)] @ [LF])))))"

text \<open>The anonymous struct with the field \<open>task_id\<close>.\<close>

definition encode_task_id :: "task_id \<Rightarrow> gerr + string" where
  "encode_task_id i = Inr (enc False (JObj [(''task_id'', JStr i)]) @ [LF])"

section \<open>Text without white space between tokens\<close>

definition solid :: "string \<Rightarrow> bool" where
  "solid w \<longleftrightarrow> (\<forall>t. compact_text False (w @ t) = w @ compact_text False t)"

lemma solidD: "solid w \<Longrightarrow> compact_text False (w @ t) = w @ compact_text False t"
  by (simp add: solid_def)

lemma solid_compact: "solid w \<Longrightarrow> compact_text False w = w"
  using solidD [of w "[]"] by simp

lemma solid_Nil [simp]: "solid []"
  by (simp add: solid_def)

lemma solid_append [intro]: "solid u \<Longrightarrow> solid v \<Longrightarrow> solid (u @ v)"
  by (simp add: solid_def)

lemma solid_char: "\<not> is_ws c \<Longrightarrow> c \<noteq> dquote \<Longrightarrow> solid [c]"
  by (simp add: solid_def)

lemma solid_Cons: "\<not> is_ws c \<Longrightarrow> c \<noteq> dquote \<Longrightarrow> solid w \<Longrightarrow> solid (c # w)"
  by (simp add: solid_def)

lemma solid_plain: "(\<And>c. c \<in> set w \<Longrightarrow> \<not> is_ws c \<and> c \<noteq> dquote) \<Longrightarrow> solid w"
  by (induction w) (auto intro: solid_Cons)

lemma solid_join: "(\<And>w. w \<in> set ws \<Longrightarrow> solid w) \<Longrightarrow> solid (join_with '','' ws)"
proof (induction "'',''" ws rule: join_with.induct)
  case (3 w v ws)
  have "solid '',''" by (rule solid_char) (simp_all add: dquote_def)
  then have "solid ('','' @ join_with '','' (v # ws))" using 3 by (intro solid_append) auto
  then show ?case using 3 by (auto intro!: solid_append)
qed auto

text \<open>The text of a string, one rune at a time.\<close>

definition inner :: "char \<Rightarrow> bool" where
  "inner c \<longleftrightarrow> c \<noteq> backslash \<and> c \<noteq> dquote \<and> 32 \<le> byte c"

lemma inner_byte: "48 \<le> byte c \<Longrightarrow> byte c \<noteq> 92 \<Longrightarrow> inner c"
  by (auto simp: inner_def backslash_def dquote_def byte_def)

lemma hex_digit_inner:
  assumes "n < 16" shows "inner (hex_digit n)"
proof (rule inner_byte)
  have "byte (hex_digit n) = (if n < 10 then 48 + n else 87 + n)"
    using assms by (simp add: hex_digit_def byte_def)
  then show "48 \<le> byte (hex_digit n)" "byte (hex_digit n) \<noteq> 92" using assms by simp_all
qed

lemma hex_esc_inner:
  assumes "x < 65536"
  shows "\<exists>u. hex_esc x = backslash # CHR ''u'' # u \<and> (\<forall>c \<in> set u. inner c)"
proof -
  have "x div 4096 < 16" using assms by (simp add: div_less_iff_less_mult)
  then show ?thesis by (simp add: hex_esc_def hex_digit_inner)
qed

lemma compact_inner: "(\<forall>c \<in> set u. inner c) \<Longrightarrow> compact_text True (u @ t) = u @ compact_text True t"
  by (induction u) (auto simp: inner_def)

lemma compact_hex:
  assumes "x < 65536"
  shows "compact_text True (hex_esc x @ t) = hex_esc x @ compact_text True t"
proof -
  obtain u where "hex_esc x = backslash # CHR ''u'' # u" "\<forall>c \<in> set u. inner c"
    using hex_esc_inner [OF assms] by blast
  then show ?thesis using compact_inner by simp
qed

lemma hex_no_control:
  assumes "x < 65536" and "c \<in> set (hex_esc x)" shows "32 \<le> byte c"
proof -
  obtain u where "hex_esc x = backslash # CHR ''u'' # u" "\<forall>c \<in> set u. inner c"
    using hex_esc_inner [OF assms(1)] by blast
  moreover have "32 \<le> byte backslash" "32 \<le> byte (CHR ''u'')" by (simp_all add: backslash_def byte_def)
  ultimately show ?thesis using assms(2) by (auto simp: inner_def)
qed

lemma esc_rune_shape:
  assumes "rune_len (a # s) = Suc n"
  shows "(\<exists>x < 65536. esc_rune h (a # take n s) = hex_esc x) \<or>
    (\<exists>c. esc_rune h (a # take n s) = [backslash, c] \<and> 32 \<le> byte c) \<or>
    (\<forall>c \<in> set (a # take n s). inner c) \<and> esc_rune h (a # take n s) = a # take n s"
proof (cases n)
  case 0
  have "byte a < 65536" using byte_less [of a] by simp
  moreover have "(\<exists>c. esc_rune h [a] = [backslash, c] \<and> 32 \<le> byte c) \<or>
      esc_rune h [a] = hex_esc (byte a) \<or> esc_rune h [a] = [a] \<and> inner a"
  proof (cases "a = dquote \<or> a = backslash")
    case True
    then show ?thesis by (auto simp: esc_rune_def dquote_def backslash_def byte_def)
  next
    case False
    then show ?thesis by (simp add: esc_rune_def inner_def byte_def)
  qed
  ultimately show ?thesis unfolding 0 take_0 list.set by blast
next
  case (Suc m)
  have two: "take n s \<noteq> []" using rune_len_drop_split [OF assms] Suc by (cases s) auto
  have high: "inner c" if "c \<in> set (a # take n s)" for c
  proof -
    have "128 \<le> byte c" using rune_len_high [of "a # s" c] assms Suc that by simp
    then show ?thesis by (intro inner_byte) simp_all
  qed
  have "esc_rune h (a # take n s) = hex_esc 8232 \<or> esc_rune h (a # take n s) = hex_esc 8233 \<or>
      esc_rune h (a # take n s) = a # take n s"
    using two by (cases "take n s") (auto simp: esc_rune_def)
  moreover have "(8232 :: nat) < 65536" "(8233 :: nat) < 65536" by simp_all
  ultimately show ?thesis using high by blast
qed

lemma compact_esc: "compact_text True (esc h s @ t) = esc h s @ compact_text True t"
proof (induction h s rule: esc.induct)
  case (2 h a s)
  show ?case
  proof (cases "rune_len (a # s)")
    case 0
    then show ?thesis using "2.IH"(1) [OF 0] compact_hex [of 65533 "esc h s @ t"] by simp
  next
    case (Suc n)
    let ?u = "esc_rune h (a # take n s)"
    have "compact_text True (?u @ r) = ?u @ compact_text True r" for r
      using esc_rune_shape [OF Suc, of h] compact_hex compact_inner [of "a # take n s" r] by fastforce
    then show ?thesis using "2.IH"(2) [OF Suc] Suc by simp
  qed
qed simp

lemma esc_no_control: "c \<in> set (esc h s) \<Longrightarrow> 32 \<le> byte c"
proof (induction h s rule: esc.induct)
  case (2 h a s)
  show ?case
  proof (cases "rune_len (a # s)")
    case 0
    then show ?thesis using "2.IH"(1) [OF 0] "2.prems" hex_no_control [of 65533 c] by auto
  next
    case (Suc n)
    have "32 \<le> byte backslash" by (simp add: backslash_def byte_def)
    then have "32 \<le> byte c" if "c \<in> set (esc_rune h (a # take n s))"
      using that esc_rune_shape [OF Suc, of h] hex_no_control [of _ c] by (auto simp: inner_def)
    then show ?thesis using "2.IH"(2) [OF Suc] "2.prems" Suc by auto
  qed
qed simp

text \<open>Numbers and whole values.\<close>

definition num_char :: "char \<Rightarrow> bool" where
  "num_char c \<longleftrightarrow> is_digit c \<or> c \<in> set ''-+.eE''"

lemma num_digits_chars: "num_digits p r = Some (u, t) \<Longrightarrow> list_all num_char p \<Longrightarrow> list_all num_char u"
  by (auto simp: num_digits_def num_char_def list_all_iff dest: set_takeWhileD split: if_splits)

lemma num_part_chars:
  "num_sign s = (g, r) \<Longrightarrow> list_all num_char g"
  "num_int s = Some (i, r) \<Longrightarrow> list_all num_char i"
  "num_frac s = Some (f, r) \<Longrightarrow> list_all num_char f"
  "num_exp s = Some (e, r) \<Longrightarrow> list_all num_char e"
proof -
  have "num_char (CHR ''.'')" "num_char (CHR ''e'')" "num_char (CHR ''E'')" "num_char (CHR ''+'')" "num_char (CHR ''-'')"
    by (simp_all add: num_char_def)
  moreover have "list_all num_char (takeWhile is_digit s)"
    by (auto simp: list_all_iff num_char_def dest: set_takeWhileD)
  ultimately show "num_sign s = (g, r) \<Longrightarrow> list_all num_char g" "num_int s = Some (i, r) \<Longrightarrow> list_all num_char i"
    "num_frac s = Some (f, r) \<Longrightarrow> list_all num_char f" "num_exp s = Some (e, r) \<Longrightarrow> list_all num_char e"
    by (auto simp: num_sign_def num_int_def num_frac_def num_exp_def num_char_def [of "CHR ''0''"]
        elim!: num_digits_chars split: list.splits if_splits)
qed

lemma num_chars: "parse_num s = Some (n, r) \<Longrightarrow> list_all num_char n"
  by (auto simp: parse_num_def dest: num_part_chars split: option.splits prod.splits)

lemma num_solid:
  assumes "num_ok n"
  shows "solid n" "c \<in> set n \<Longrightarrow> 32 \<le> byte c"
proof -
  have chars: "num_char c" if "c \<in> set n" for c
    using num_chars [of n n "[]"] assms that by (simp add: num_ok_def list_all_iff)
  have "\<not> is_ws c \<and> c \<noteq> dquote \<and> 32 \<le> byte c" if "num_char c" for c
  proof (cases "is_digit c")
    case True
    moreover have "\<not> is_digit dquote" by (simp add: is_digit_def dquote_def byte_def)
    ultimately show ?thesis by (auto simp: is_digit_def)
  next
    case False
    with that have "c \<in> {CHR ''-'', CHR ''+'', CHR ''.'', CHR ''e'', CHR ''E''}" by (auto simp: num_char_def)
    then show ?thesis by (elim insertE emptyE) (simp_all add: dquote_def is_ws_def byte_def)
  qed
  with chars show "solid n" "c \<in> set n \<Longrightarrow> 32 \<le> byte c" by (blast intro: solid_plain)+
qed


lemma solid_quoted: "solid (dquote # esc h s @ [dquote])"
proof -
  have "dquote \<noteq> backslash" by (simp add: dquote_def backslash_def)
  then show ?thesis by (simp add: solid_def compact_esc)
qed

lemma solid_member: "solid v \<Longrightarrow> solid (raw_member (k, v))"
proof -
  assume "solid v"
  then have "solid ((dquote # esc False k @ [dquote]) @ '':'' @ v)"
    by (intro solid_append solid_quoted solid_char) (simp_all add: dquote_def)
  then show ?thesis by (simp add: raw_member_def)
qed

lemma solid_brackets: "solid w \<Longrightarrow> b \<in> {CHR ''{'', CHR ''[''} \<Longrightarrow> e \<in> {CHR ''}'', CHR '']''} \<Longrightarrow> solid (b # w @ [e])"
  by (intro solid_Cons solid_append solid_char) (auto simp: dquote_def)

lemma enc_raw: "enc False (JObj kvs) = raw_object (map (\<lambda>(k, v). (k, enc False v)) kvs)"
proof -
  have "enc_member False p = raw_member (case p of (k, v) \<Rightarrow> (k, enc False v))" for p
    by (cases p) (simp add: enc_member_def raw_member_def)
  then have "enc_member False = raw_member \<circ> (\<lambda>(k, v). (k, enc False v))" by (simp add: fun_eq_iff)
  then show ?thesis by (simp add: enc_obj raw_object_def)
qed

lemma enc_solid: "nums_ok v \<Longrightarrow> solid (enc False v)"
proof (induction v)
  case (JArr vs)
  then have "solid (join_with '','' (map (enc False) vs))" by (intro solid_join) auto
  then show ?case using solid_brackets [of _ "CHR ''[''" "CHR '']''"] by simp
next
  case (JObj kvs)
  have "solid (raw_member p)" if "p \<in> set (map (\<lambda>(k, v). (k, enc False v)) kvs)" for p
    using that JObj by (auto intro!: solid_member simp: snds.simps)
  then have "solid (join_with '','' (map raw_member (map (\<lambda>(k, v). (k, enc False v)) kvs)))"
    by (intro solid_join) (metis (no_types, lifting) imageE list.set_map)
  then show ?case using solid_brackets [of _ "CHR ''{''" "CHR ''}''"] by (simp only: enc_raw raw_object_def) simp
next
  case JNull
  show ?case by (simp add: solid_def dquote_def is_ws_def byte_def)
next
  case (JBool b)
  show ?case by (simp add: solid_def dquote_def is_ws_def byte_def)
next
  case (JStr s)
  show ?case using solid_quoted by simp
qed (simp add: num_solid)

lemma join_with_set: "set (join_with sep ws) \<subseteq> set sep \<union> \<Union> (set ` set ws)"
  by (induction sep ws rule: join_with.induct) auto

lemma enc_no_control: "nums_ok v \<Longrightarrow> c \<in> set (enc h v) \<Longrightarrow> 32 \<le> byte c"
proof -
  have syntax_char: "c \<in> {dquote, CHR ''['', CHR '']'', CHR ''{'', CHR ''}'', CHR '':'', CHR '',''} \<Longrightarrow> 32 \<le> byte c" for c
    by (elim insertE emptyE) (simp_all add: dquote_def byte_def)
  show "nums_ok v \<Longrightarrow> c \<in> set (enc h v) \<Longrightarrow> 32 \<le> byte c"
  proof (induction v)
    case JNull
    then show ?case by (auto simp: byte_def)
  next
    case (JBool b)
    then show ?case by (auto simp: byte_def split: if_splits)
  next
    case (JNum n)
    then show ?case using num_solid(2) by simp
  next
    case (JStr s)
    then show ?case using esc_no_control syntax_char [of c] by auto
  next
    case (JArr vs)
    then show ?case using subsetD [OF join_with_set, of c "'',''" "map (enc h) vs"] syntax_char [of c] by auto
  next
    case (JObj kvs)
    have "32 \<le> byte c" if "p \<in> set kvs" "c \<in> set (enc_member h p)" for p
    proof -
      obtain k v where p: "p = (k, v)" by (cases p)
      show ?thesis using that JObj.IH [of p v] JObj.prems(1) esc_no_control [of c h k] syntax_char [of c]
        by (auto simp: p enc_member_def snds.simps)
    qed
    then show ?case using JObj.prems(2) subsetD [OF join_with_set, of c "'',''" "map (enc_member h) kvs"] syntax_char [of c]
      by (auto simp: enc_obj)
  qed
qed


section \<open>What the program writes\<close>

lemma marshaled_solid:
  assumes "decode_one b = Some (v, t)" "skip_ws t = []" "solid b"
  shows "marshaled (Inr b) = Inr b"
  using assms by (simp add: marshaled_def solid_compact)

lemma marshaled_enc:
  assumes "json_wf v" "json_depth v \<le> max_depth"
  shows "marshaled (Inr (enc False v)) = Inr (enc False v)"
proof (rule marshaled_solid)
  show "decode_one (enc False v) = Some (v, [])" using decode_enc [OF assms, of "[]" False] by simp
qed (simp_all add: enc_solid json_wf_nums assms)

text \<open>The value of a snapshot.\<close>

lemma canonical_value:
  assumes "canonical s"
  obtains v where "json_wf v" "json_depth v \<le> max_depth" "s = enc False v" "marshaled (Snapshot_MarshalJSON s) = Inr s"
proof -
  obtain data w r where "decode_one data = Some (w, r)" "s = enc False (jnorm w)"
    using assms unfolding canonical_def canonicalJSON_ok by blast
  then have v: "json_wf (jnorm w)" "json_depth (jnorm w) \<le> max_depth" "s = enc False (jnorm w)"
    using decode_one_facts [of data w r] by (simp_all add: jnorm_wf jnorm_depth)
  moreover have "Snapshot_MarshalJSON s = Inr s"
    using canonical_nonempty [OF assms] by (simp add: Snapshot_MarshalJSON_def Snapshot_Bytes_def)
  ultimately show thesis using that marshaled_enc [OF v(1,2)] by simp
qed

text \<open>Times in UTC.\<close>

definition time_char :: "char \<Rightarrow> bool" where
  "time_char c \<longleftrightarrow> is_dec c \<or> c \<in> set ''-T:.Z''"

lemma time_char_inner: "time_char c \<Longrightarrow> inner c \<and> byte c < 128"
proof (cases "is_dec c")
  case True
  then have "48 \<le> byte c" "byte c \<le> 57" by (auto simp: is_dec_def)
  then show ?thesis using inner_byte [of c] by simp
next
  case False
  assume "time_char c"
  with False have "c \<in> {CHR ''-'', CHR ''T'', CHR '':'', CHR ''.'', CHR ''Z''}" by (auto simp: time_char_def)
  then show ?thesis by (elim insertE emptyE) (simp_all add: inner_def dquote_def backslash_def byte_def)
qed

lemma esc_plain: "(\<And>c. c \<in> set s \<Longrightarrow> inner c \<and> byte c < 128) \<Longrightarrow> esc False s = s"
proof (induction s)
  case (Cons c s)
  then have "inner c" "byte c < 128" by auto
  then have "esc_rune False [c] = [c]" by (auto simp: inner_def esc_rune_def byte_def)
  then show ?case using Cons \<open>byte c < 128\<close> by simp
qed simp

lemma digit_time [simp]: "n < 10 \<Longrightarrow> time_char (digit n)"
  by (simp add: time_char_def is_dec_def digit_def byte_def)

lemma time_char_simps [simp]:
  "time_char (CHR ''-'')" "time_char (CHR ''T'')" "time_char (CHR '':'')" "time_char (CHR ''.'')" "time_char (CHR ''Z'')"
  by (simp_all add: time_char_def)

lemma pad2_time: "n < 100 \<Longrightarrow> list_all time_char (pad2 n)"
  by (simp add: pad2_def)

lemma pad4_time: "list_all time_char (pad4 n)"
  using dec_nat_is_dec [of _ n] by (auto simp: pad4_def list_all_iff time_char_def [of "_"])

lemma digits_msb_time: "list_all time_char (digits_msb k n)"
  by (induction k n rule: digits_msb.induct) simp_all

lemma fraction_time: "list_all time_char (format_fraction n)"
proof -
  have "set (trim_zeros s) \<subseteq> set s" for s
    unfolding trim_zeros_def by (auto dest: set_dropWhileD)
  then have "list_all time_char (trim_zeros (digits_msb 9 n))"
    using digits_msb_time [of 9 n] by (auto simp: list_all_iff)
  then show ?thesis by (simp add: format_fraction_def Let_def)
qed

lemma date_bounds:
  assumes "date_of_days (t_sec t div 86400) = (y, m, d)"
  shows "nat d < 100" "m < 100"
  using date_of_days_facts(1-4) [OF assms] month_len_bounds [of m y] by auto

lemma storable_date:
  assumes "storable t" and "date_of_days (t_sec t div 86400) = (y, m, d)"
  shows "0 \<le> y" "y < 10000"
  using date_of_days_year [OF assms(2)] assms(1) by (auto simp: storable_def)

lemma formatTime_chars: "list_all time_char (formatTime t)"
proof -
  obtain y m d where date: "date_of_days (t_sec t div 86400) = (y, m, d)" by (metis prod_cases3)
  note y = date_bounds [OF date]
  have "nat (t_sec t mod 86400) < 86400" by simp
  note clock = clock_fields [OF this]
  have "n mod 60 < 100" for n :: nat using mod_less_divisor [of 60 n] by linarith
  then show ?thesis
    using y pad2_time pad4_time fraction_time clock(1)
    by (simp add: formatTime_def date Let_def format_year_def)
qed

lemma formatTime_enc: "dquote # formatTime t @ [dquote] = enc False (JStr (formatTime t))"
  using formatTime_chars [of t] esc_plain [of "formatTime t"] time_char_inner by (auto simp: list_all_iff)

lemma formatTime_utf8: "utf8_valid (formatTime t)"
  using formatTime_chars [of t] time_char_inner by (auto intro!: ascii_valid simp: list_all_iff)

lemma time_marshaled:
  assumes "storable t" "t_loc t = UTC"
  shows "marshaled (Time_MarshalJSON local t) = Inr (enc False (JStr (formatTime t)))"
proof -
  obtain y m d where date: "date_of_days (t_sec t div 86400) = (y, m, d)" by (metis prod_cases3)
  note y = storable_date [OF assms(1) date]
  have "Time_MarshalJSON local t = Inr (dquote # formatTime t @ [dquote])"
    using y date assms(2) by (simp add: Time_MarshalJSON_def time_offset_def format_zone_def formatTime_def Let_def)
  then show ?thesis
    using marshaled_enc [of "JStr (formatTime t)"] formatTime_enc [of t] formatTime_utf8 [of t]
    by (simp add: max_depth_def)
qed


section \<open>The printed task\<close>

definition task_json :: "Task \<Rightarrow> json \<Rightarrow> json \<Rightarrow> json \<Rightarrow> json" where
  "task_json t input configuration policy =
     JObj [(''id'', JStr (tk_id t)), (''status'', JStr (tk_status t)), (''created_at'', JStr (formatTime (tk_created_at t))),
           (''resource'', json_ResourceSnapshot (tk_resource t)), (''input'', input), (''configuration'', configuration),
           (''policy'', policy)]"

lemma encode_Task_json:
  assumes "canonical (tk_input t)" "canonical (tk_configuration t)" "canonical (tk_policy t)"
    and "storable (tk_created_at t)" "t_loc (tk_created_at t) = UTC"
  obtains i c p where "tk_input t = enc False i" "tk_configuration t = enc False c" "tk_policy t = enc False p"
    "json_wf i" "json_wf c" "json_wf p" "encode_Task local t = Inr (enc False (task_json t i c p) @ [LF])"
proof -
  obtain i where i: "json_wf i" "tk_input t = enc False i" "marshaled (Snapshot_MarshalJSON (tk_input t)) = Inr (tk_input t)"
    using canonical_value [OF assms(1)] by metis
  obtain c where c: "json_wf c" "tk_configuration t = enc False c"
    "marshaled (Snapshot_MarshalJSON (tk_configuration t)) = Inr (tk_configuration t)"
    using canonical_value [OF assms(2)] by metis
  obtain p where p: "json_wf p" "tk_policy t = enc False p" "marshaled (Snapshot_MarshalJSON (tk_policy t)) = Inr (tk_policy t)"
    using canonical_value [OF assms(3)] by metis
  have "encode_Task local t = Inr (enc False (task_json t i c p) @ [LF])"
    unfolding encode_Task_def i(3) c(3) p(3) time_marshaled [OF assms(4,5)]
    by (simp add: task_json_def enc_raw i(2) c(2) p(2))
  with i c p show thesis by (intro that)
qed

text \<open>A task whose printed text is one line that any JSON reader reads back as its fields.\<close>

definition printed_as :: "Task \<Rightarrow> string \<Rightarrow> bool" where
  "printed_as t line \<longleftrightarrow>
     (\<exists>i c p. tk_input t = enc False i \<and> tk_configuration t = enc False c \<and> tk_policy t = enc False p \<and>
        line = enc False (task_json t i c p) @ [LF] \<and> LF \<notin> set (enc False (task_json t i c p)) \<and>
        (\<forall>n. json_depth (task_json t i c p) \<le> n \<longrightarrow>
           parse_value (json_fuel line) n line = Some (jfix (task_json t i c p), [LF])))"

lemma task_json_nums: "nums_ok i \<Longrightarrow> nums_ok c \<Longrightarrow> nums_ok p \<Longrightarrow> nums_ok (task_json t i c p)"
  by (simp add: task_json_def json_ResourceSnapshot_def)

lemma encode_Task_reads:
  assumes "canonical (tk_input t)" "canonical (tk_configuration t)" "canonical (tk_policy t)"
    and "storable (tk_created_at t)" "t_loc (tk_created_at t) = UTC"
  shows "\<exists>line. encode_Task local t = Inr line \<and> printed_as t line"
proof -
  obtain i c p where v: "tk_input t = enc False i" "tk_configuration t = enc False c" "tk_policy t = enc False p"
    "json_wf i" "json_wf c" "json_wf p" "encode_Task local t = Inr (enc False (task_json t i c p) @ [LF])"
    by (rule encode_Task_json [OF assms])
  have nums: "nums_ok (task_json t i c p)" using v by (intro task_json_nums json_wf_nums)
  have "byte LF < 32" by (simp add: LF_def byte_def)
  then have "LF \<notin> set (enc False (task_json t i c p))" using enc_no_control [OF nums, of LF False] by fastforce
  moreover have "delim [LF]" by (simp add: delim_def LF_def is_digit_def byte_def)
  then have "parse_value (json_fuel (enc False (task_json t i c p) @ [LF])) n (enc False (task_json t i c p) @ [LF]) =
      Some (jfix (task_json t i c p), [LF])" if "json_depth (task_json t i c p) \<le> n" for n
    using parse_enc [OF nums that, of "[LF]" False "json_fuel (enc False (task_json t i c p) @ [LF])"]
    by (simp add: json_fuel_def)
  ultimately show ?thesis using v unfolding printed_as_def by blast
qed


end
