(* ===== verification/Go_Flag.thy ===== *)
theory Go_Flag
  imports Go_Numbers
begin

text \<open>
  Go's \<open>flag\<close> package as far as the commands use it: \<open>FlagSet.Parse\<close> with \<open>ContinueOnError\<close> over Boolean
  flags and flags that take a value.  Parsing returns the assignments in the order of the arguments and
  the arguments left; a later assignment to a flag wins.  \<open>parse_flags_pairs\<close> says what the usual form of
  a command line parses to.
\<close>

section \<open>One argument\<close>

text \<open>The end of the flags, a syntax error, or one flag with its name and its value after an equals sign.\<close>

datatype flag_arg = Rest "string list" | BadSyntax | FlagArg string "string option" "string list"

definition split_equals :: "string \<Rightarrow> string \<times> string option" where
  "split_equals name =
     (let n = hd name # takeWhile (\<lambda>c. c \<noteq> CHR ''='') (tl name)
      in if length n < length name then (n, Some (drop (Suc (length n)) name)) else (name, None))"

definition flag_arg :: "string list \<Rightarrow> flag_arg" where
  "flag_arg args =
     (case args of [] \<Rightarrow> Rest []
      | s # args' \<Rightarrow>
          if length s < 2 \<or> hd s \<noteq> CHR ''-'' then Rest args
          else if s = ''--'' then Rest args'
          else let name = (if s ! 1 = CHR ''-'' then drop 2 s else drop 1 s) in
            if hd name = CHR ''-'' \<or> hd name = CHR ''='' then BadSyntax
            else case split_equals name of (n, v) \<Rightarrow> FlagArg n v args')"

section \<open>All arguments\<close>

lemma flag_arg_shorter: "flag_arg args = FlagArg name val args' \<Longrightarrow> length args' < length args"
  by (auto simp: flag_arg_def Let_def split: list.splits if_splits prod.splits)

text \<open>\<open>formal\<close> says whether a defined flag is Boolean.  \<open>None\<close> is the error of \<open>Parse\<close>.\<close>

function parse_flags :: "(string \<Rightarrow> bool option) \<Rightarrow> string list \<Rightarrow> (string \<times> string) list \<Rightarrow>
    ((string \<times> string) list \<times> string list) option" where
  "parse_flags formal args given =
     (case flag_arg args of
        Rest r \<Rightarrow> Some (given, r)
      | BadSyntax \<Rightarrow> None
      | FlagArg name val args' \<Rightarrow>
          (case formal name of
             None \<Rightarrow> None
           | Some True \<Rightarrow>
               (let v = (case val of None \<Rightarrow> ''true'' | Some v \<Rightarrow> v) in
                case ParseBool v of None \<Rightarrow> None | Some b \<Rightarrow> parse_flags formal args' (given @ [(name, v)]))
           | Some False \<Rightarrow>
               (case val of
                  Some v \<Rightarrow> parse_flags formal args' (given @ [(name, v)])
                | None \<Rightarrow> (case args' of [] \<Rightarrow> None
                         | v # args'' \<Rightarrow> parse_flags formal args'' (given @ [(name, v)])))))"
  by pat_completeness auto

termination
  by (relation "measure (\<lambda>(formal, args, given). length args)") (auto dest: flag_arg_shorter)

declare parse_flags.simps [simp del]

section \<open>Values\<close>

definition assignments :: "string \<Rightarrow> (string \<times> string) list \<Rightarrow> string list" where
  "assignments name given = map snd (filter (\<lambda>p. fst p = name) given)"

definition flag_string :: "string \<Rightarrow> string \<Rightarrow> (string \<times> string) list \<Rightarrow> string" where
  "flag_string name def given = (case rev (assignments name given) of [] \<Rightarrow> def | v # _ \<Rightarrow> v)"

definition flag_bool :: "string \<Rightarrow> (string \<times> string) list \<Rightarrow> bool" where
  "flag_bool name given = (case rev (assignments name given) of [] \<Rightarrow> False | v # _ \<Rightarrow> ParseBool v = Some True)"


lemma assignments_simps [simp]:
  "assignments name [] = []"
  "assignments name (p # given) = (if fst p = name then snd p # assignments name given else assignments name given)"
  by (simp_all add: assignments_def)

section \<open>The usual form\<close>

text \<open>\<open>--name value\<close> for a flag that takes a value, whatever the value is.\<close>

definition plain_name :: "string \<Rightarrow> bool" where
  "plain_name n \<longleftrightarrow> n \<noteq> [] \<and> CHR ''-'' \<noteq> hd n \<and> CHR ''='' \<notin> set n"

lemma flag_arg_name: "plain_name n \<Longrightarrow> flag_arg ((''--'' @ n) # args) = FlagArg n None args"
proof -
  assume n: "plain_name n"
  then obtain c m where m: "n = c # m" by (cases n) (auto simp: plain_name_def)
  from n have c: "c \<noteq> CHR ''-''" "c \<noteq> CHR ''=''" "CHR ''='' \<notin> set m" by (auto simp: m plain_name_def)
  then have tw: "takeWhile (\<lambda>c. c \<noteq> CHR ''='') m = m" by (simp add: takeWhile_eq_all_conv) metis
  have "split_equals n = (n, None)" unfolding m split_equals_def list.sel tw by simp
  then show ?thesis using c(1,2) by (simp add: m flag_arg_def)
qed

lemma parse_flags_value:
  assumes "plain_name n" "formal n = Some False"
  shows "parse_flags formal ((''--'' @ n) # v # args) given = parse_flags formal args (given @ [(n, v)])"
  using assms by (subst parse_flags.simps) (simp only: flag_arg_name, simp)

lemma parse_flags_rest: "flag_arg args = Rest r \<Longrightarrow> parse_flags formal args given = Some (given, r)"
  by (subst parse_flags.simps) simp

definition pair_args :: "(string \<times> string) list \<Rightarrow> string list" where
  "pair_args ps = concat (map (\<lambda>(n, v). [''--'' @ n, v]) ps)"

lemma parse_flags_pairs:
  assumes "list_all (\<lambda>(n, v). plain_name n \<and> formal n = Some False) ps" and "flag_arg args = Rest r"
  shows "parse_flags formal (pair_args ps @ args) given = Some (given @ ps, r)"
  using assms(1)
proof (induction ps arbitrary: given)
  case Nil
  then show ?case by (simp add: pair_args_def parse_flags_rest [OF assms(2)])
next
  case (Cons p ps)
  obtain n v where p: "p = (n, v)" by (cases p)
  have "pair_args (p # ps) @ args = (''--'' @ n) # v # (pair_args ps @ args)" by (simp add: pair_args_def p)
  then show ?case using Cons parse_flags_value [of n formal v] by (simp only:) (simp add: p)
qed

end
