(* ===== verification/Command_Line.thy ===== *)
theory Command_Line
  imports Bootstrap Task_Output Go_Flag
begin

text \<open>
  \<open>cmd/delegatd/main.go\<close>: the arguments, exit codes and output of \<open>delegatd doctor\<close>, \<open>delegatd task
  submit\<close> and \<open>delegatd task show\<close>, over the functions \<open>commandDependencies\<close> holds.  \<open>'s\<close> is the state
  those functions work on, for the program itself the file of the store.
\<close>

section \<open>Usage\<close>

definition doctorUsage :: string where
  "doctorUsage = ''usage: delegatd doctor --config FILE [--timeout DURATION]''"
definition taskSubmitUsage :: string where
  "taskSubmitUsage = ''usage: delegatd task submit --config FILE --resource NAME (--input TEXT | --input-file FILE)''"
definition taskShowUsage :: string where
  "taskShowUsage = ''usage: delegatd task show --config FILE TASK_ID''"
definition taskUsage :: string where
  "taskUsage = taskSubmitUsage @ [LF] @ taskShowUsage"
definition rootUsage :: string where
  "rootUsage = doctorUsage @ [LF] @ taskUsage"
definition maxTaskInputSize :: nat where
  "maxTaskInputSize = 2 ^ 20"

section \<open>The two outputs\<close>

text \<open>
  \<open>co_writes\<close> counts the writes to standard output.  The \<open>k\<close>-th of them fails after \<open>n\<close> bytes when
  \<open>w k\<close> is \<open>Some (n, e)\<close>; \<open>fmt.Fprint\<close> and its kin ignore that, \<open>writeJSON\<close> reports it.
\<close>

type_synonym writer = "nat \<Rightarrow> (nat \<times> gerr) option"

record console =
  co_out :: string
  co_err :: string
  co_writes :: nat

definition silent :: console where
  "silent = \<lparr>co_out = '''', co_err = '''', co_writes = 0\<rparr>"

definition write_out :: "writer \<Rightarrow> string \<Rightarrow> console \<Rightarrow> gerr option \<times> console" where
  "write_out w t c =
     (case w (co_writes c) of
        None \<Rightarrow> (None, c\<lparr>co_out := co_out c @ t, co_writes := Suc (co_writes c)\<rparr>)
      | Some (n, e) \<Rightarrow> (Some e, c\<lparr>co_out := co_out c @ take n t, co_writes := Suc (co_writes c)\<rparr>))"

definition print :: "writer \<Rightarrow> string \<Rightarrow> console \<Rightarrow> console" where
  "print w t c = snd (write_out w t c)"

definition println :: "writer \<Rightarrow> string \<Rightarrow> console \<Rightarrow> console" where
  "println w t = print w (t @ [LF])"

text \<open>\<open>fmt.Fprintln(stderr, usage)\<close> of the \<open>write...Usage\<close> functions.\<close>

definition write_usage :: "string \<Rightarrow> console \<Rightarrow> console" where
  "write_usage usage c = c\<lparr>co_err := co_err c @ usage @ [LF]\<rparr>"

definition writeDoctorUsage :: "console \<Rightarrow> console" where "writeDoctorUsage = write_usage doctorUsage"
definition writeTaskSubmitUsage :: "console \<Rightarrow> console" where "writeTaskSubmitUsage = write_usage taskSubmitUsage"
definition writeTaskShowUsage :: "console \<Rightarrow> console" where "writeTaskShowUsage = write_usage taskShowUsage"
definition writeTaskUsage :: "console \<Rightarrow> console" where "writeTaskUsage = write_usage taskUsage"
definition writeRootUsage :: "console \<Rightarrow> console" where "writeRootUsage = write_usage rootUsage"

definition writeTaskFailure :: "writer \<Rightarrow> gerr \<Rightarrow> console \<Rightarrow> int \<times> console" where
  "writeTaskFailure w err c = (1, println w (''FAIL task: '' @ SafeReason (Some err)) c)"

text \<open>\<open>writeJSON\<close>: \<open>json\<close> is what the encoder makes of the value; an encoding error writes nothing.\<close>

definition writeJSON :: "writer \<Rightarrow> gerr + string \<Rightarrow> console \<Rightarrow> gerr option \<times> console" where
  "writeJSON w json c = (case json of Inl e \<Rightarrow> (Some e, c) | Inr line \<Rightarrow> write_out w line c)"

definition safeReason :: "DoctorFailure option \<Rightarrow> string" where
  "safeReason failure =
     (case failure of None \<Rightarrow> ''diagnostic failed''
      | Some f \<Rightarrow> if trim_space (df_reason f) = '''' then ''diagnostic failed'' else df_reason f)"

section \<open>Task input\<close>

text \<open>
  The input sources.  A reader is the bytes it delivers with the error it ends with, if any; a file also
  has the results of \<open>Stat\<close> (regular or not, and the size), \<open>Open\<close> and \<open>Close\<close>.  \<open>is_stdin\<close> is \<open>None\<close>
  when standard input is nil.
\<close>

record input_sources =
  is_stdin :: "(string \<times> gerr option) option"
  is_stat :: "string \<Rightarrow> gerr + (bool \<times> nat)"
  is_open :: "string \<Rightarrow> gerr option"
  is_read :: "string \<Rightarrow> string \<times> gerr option"
  is_close :: "string \<Rightarrow> gerr option"

text \<open>\<open>io.ReadAll(io.LimitReader(r, maxTaskInputSize+1))\<close>.\<close>

definition read_task_input :: "string \<times> gerr option \<Rightarrow> gerr + string" where
  "read_task_input r =
     (case r of (data, err) \<Rightarrow>
        if length data > maxTaskInputSize then Inr (take (maxTaskInputSize + 1) data)
        else case err of Some e \<Rightarrow> Inl e | None \<Rightarrow> Inr data)"

definition unreadable :: "gerr \<Rightarrow> gerr" where
  "unreadable = NewFailure ''task input is unreadable''"

definition input_too_large :: gerr where
  "input_too_large = ControlFailure ''task input exceeds 1 MiB'' None"

text \<open>
  Standard input is read by a goroutine; the \<open>select\<close> takes the context's branch when its observation
  finds the context done.  The standard input that is closed then is not observed again.
\<close>

definition read_stdin :: "gctx \<Rightarrow> (string \<times> gerr option) option \<Rightarrow> gerr + string" where
  "read_stdin ctx stdin =
     (case stdin of
        None \<Rightarrow> Inl (unreadable (ErrNew ''stdin is unavailable''))
      | Some r \<Rightarrow>
          (case contextError ctx 0 of
             Some e \<Rightarrow> Inl (NewFailure ''task cancelled'' (CtxError e))
           | None \<Rightarrow>
               rbind (map_err unreadable (read_task_input r)) (\<lambda>data.
               rbind (fail_if (length data > maxTaskInputSize) input_too_large) (\<lambda>_. Inr data))))"

definition read_file :: "input_sources \<Rightarrow> string \<Rightarrow> gerr + string" where
  "read_file src path =
     (case is_stat src path of
        Inl e \<Rightarrow> Inl (unreadable e)
      | Inr (regular, bytes) \<Rightarrow>
          if \<not> regular then Inl (unreadable (ErrNew ''task input is not a regular file''))
          else if bytes > maxTaskInputSize then Inl input_too_large
          else (case is_open src path of
              Some e \<Rightarrow> Inl (unreadable e)
            | None \<Rightarrow>
                (case read_task_input (is_read src path) of
                   Inl e \<Rightarrow> Inl (unreadable e)
                 | Inr raw \<Rightarrow>
                     (case is_close src path of
                        Some e \<Rightarrow> Inl (unreadable e)
                      | None \<Rightarrow> if length raw > maxTaskInputSize then Inl input_too_large else Inr raw))))"

definition input_reason :: "gerr \<Rightarrow> string" where
  "input_reason err =
     (case err of ErrNew t \<Rightarrow> if contains t ''exceeds'' then ''task input exceeds 1 MiB'' else ''task input is invalid''
      | _ \<Rightarrow> ''task input is invalid'')"

definition readTaskInput :: "input_sources \<Rightarrow> gctx \<Rightarrow> string \<Rightarrow> string \<Rightarrow> gerr + TaskInput" where
  "readTaskInput src ctx inlineValue fileValue =
     rbind (if fileValue = '''' then Inr inlineValue
            else if fileValue = ''-'' then read_stdin ctx (is_stdin src)
            else read_file src fileValue) (\<lambda>raw.
     map_err (\<lambda>err. NewFailure (input_reason err) err) (NormalizeManualInput raw))"

section \<open>Commands\<close>

text \<open>
  \<open>cd_timeout\<close> is \<open>context.WithTimeout\<close>.  The calls on the state are \<open>cd_submit\<close> and \<open>cd_show\<close>; a nil
  function is \<open>None\<close>.
\<close>

record 's commandDependencies =
  cd_loadDoctor :: "(string \<Rightarrow> DoctorFailure + (Document \<times> check list)) option"
  cd_submitTask :: "(gctx \<Rightarrow> string \<Rightarrow> string \<Rightarrow> TaskInput \<Rightarrow> 's \<Rightarrow> (gerr + Task) \<times> 's) option"
  cd_showTask :: "(gctx \<Rightarrow> string \<Rightarrow> task_id \<Rightarrow> 's \<Rightarrow> gerr + Task) option"

record command_env =
  ce_ctx :: gctx
  ce_timeout :: "int \<Rightarrow> gctx \<Rightarrow> gctx"
  ce_input :: input_sources
  ce_writer :: writer
  ce_local :: "int \<Rightarrow> int"

definition help_flag :: "string \<Rightarrow> bool option" where
  "help_flag name = (if name = ''help'' \<or> name = ''h'' then Some True else None)"

definition value_flags :: "string list \<Rightarrow> string \<Rightarrow> bool option" where
  "value_flags valued name = (if name \<in> set valued then Some False else help_flag name)"

definition wants_help :: "(string \<times> string) list \<Rightarrow> bool" where
  "wants_help given \<longleftrightarrow> flag_bool ''help'' given \<or> flag_bool ''h'' given"

text \<open>The lines of the report.\<close>

definition result_line :: "dresult \<Rightarrow> string" where
  "result_line r =
     (if re_failure r \<noteq> None then ''FAIL '' @ re_id r @ '': '' @ safeReason (re_failure r)
      else ''PASS '' @ re_id r @ '': '' @ re_detail r)"

definition print_report :: "writer \<Rightarrow> int \<Rightarrow> report \<Rightarrow> console \<Rightarrow> int \<times> console" where
  "print_report w version report c =
     (let c = println w (''PASS config: schema version '' @ dec_int version) c;
          c = fold (\<lambda>r. println w (result_line r)) report c;
          failed = length (filter (\<lambda>r. re_failure r \<noteq> None) report) in
      if failed = 0
      then (0, println w (''PASS doctor: '' @ dec_nat (length report) @ '' checks passed'') c)
      else (1, println w (''FAIL doctor: '' @ dec_nat failed @ '' of '' @ dec_nat (length report) @ '' checks failed'') c))"

definition runDoctor ::
  "command_env \<Rightarrow> string list \<Rightarrow> (string \<Rightarrow> DoctorFailure + (Document \<times> check list)) option \<Rightarrow> console \<Rightarrow> int \<times> console"
where
  "runDoctor env args load c =
     (let w = ce_writer env in
      case parse_flags (value_flags [''config'', ''timeout'']) args [] of
        None \<Rightarrow> (2, writeDoctorUsage c)
      | Some (given, extra) \<Rightarrow>
          if wants_help given then (0, println w doctorUsage c)
          else if flag_string ''config'' '''' given = '''' \<or> extra \<noteq> [] then (2, writeDoctorUsage c)
          else (case ParseDuration (flag_string ''timeout'' ''10s'' given) of
              None \<Rightarrow> (2, writeDoctorUsage c)
            | Some timeout \<Rightarrow>
                if timeout \<le> 0 then (2, writeDoctorUsage c)
                else (case load of
                    None \<Rightarrow> (1, println w (''FAIL config: configuration loader is unavailable'' @ [LF] @
                                        ''FAIL doctor: configuration invalid'') c)
                  | Some load \<Rightarrow>
                      (case load (flag_string ''config'' '''' given) of
                         Inl failure \<Rightarrow> (1, println w (''FAIL config: '' @ safeReason (Some failure) @ [LF] @
                                                    ''FAIL doctor: configuration invalid'') c)
                       | Inr (document, checks) \<Rightarrow>
                           print_report w (cf_version (dc_config document))
                             (Run (ce_timeout env timeout (ce_ctx env)) checks) c))))"

definition finish_JSON :: "writer \<Rightarrow> gerr + string \<Rightarrow> console \<Rightarrow> int \<times> console" where
  "finish_JSON w json c = (case writeJSON w json c of (None, c) \<Rightarrow> (0, c) | (Some e, c) \<Rightarrow> writeTaskFailure w e c)"

definition runTaskSubmit ::
  "command_env \<Rightarrow> string list \<Rightarrow> (gctx \<Rightarrow> string \<Rightarrow> string \<Rightarrow> TaskInput \<Rightarrow> 's \<Rightarrow> (gerr + Task) \<times> 's) option \<Rightarrow>
   console \<Rightarrow> 's \<Rightarrow> (int \<times> console) \<times> 's"
where
  "runTaskSubmit env args submit c s =
     (let w = ce_writer env in
      case parse_flags (value_flags [''config'', ''resource'', ''input'', ''input-file'']) args [] of
        None \<Rightarrow> ((2, writeTaskSubmitUsage c), s)
      | Some (given, extra) \<Rightarrow>
          (let configPath = flag_string ''config'' '''' given; resourceName = flag_string ''resource'' '''' given in
           if wants_help given then ((0, println w taskSubmitUsage c), s)
           else if configPath = '''' \<or> resourceName = '''' \<or> extra \<noteq> [] \<or>
             length (assignments ''input'' given) + length (assignments ''input-file'' given) \<noteq> 1
           then ((2, writeTaskSubmitUsage c), s)
           else (case readTaskInput (ce_input env) (ce_ctx env) (flag_string ''input'' '''' given)
                        (flag_string ''input-file'' '''' given) of
               Inl err \<Rightarrow> (writeTaskFailure w err c, s)
             | Inr input \<Rightarrow>
                 (case submit of
                    None \<Rightarrow> (writeTaskFailure w (NewFailure ''task failed'' (ErrNew ''submit command is unavailable'')) c, s)
                  | Some submit \<Rightarrow>
                      (case submit (ctx_from 1 (ce_ctx env)) configPath resourceName input s of
                         (Inl err, s') \<Rightarrow> (writeTaskFailure w err c, s')
                       | (Inr task, s') \<Rightarrow> (finish_JSON w (encode_task_id (tk_id task)) c, s'))))))"

definition runTaskShow ::
  "command_env \<Rightarrow> string list \<Rightarrow> (gctx \<Rightarrow> string \<Rightarrow> task_id \<Rightarrow> 's \<Rightarrow> gerr + Task) option \<Rightarrow> console \<Rightarrow> 's \<Rightarrow> int \<times> console"
where
  "runTaskShow env args show_task c s =
     (let w = ce_writer env in
      case parse_flags (value_flags [''config'']) args [] of
        None \<Rightarrow> (2, writeTaskShowUsage c)
      | Some (given, extra) \<Rightarrow>
          if wants_help given then (0, println w taskShowUsage c)
          else if flag_string ''config'' '''' given = '''' \<or> length extra \<noteq> 1 then (2, writeTaskShowUsage c)
          else (case ParseTaskID (hd extra) of
              Inl _ \<Rightarrow> (2, writeTaskShowUsage c)
            | Inr i \<Rightarrow>
                (case show_task of
                   None \<Rightarrow> writeTaskFailure w (NewFailure ''task failed'' (ErrNew ''show command is unavailable'')) c
                 | Some show_task \<Rightarrow>
                     (case show_task (ce_ctx env) (flag_string ''config'' '''' given) i s of
                        Inl err \<Rightarrow> writeTaskFailure w err c
                      | Inr task \<Rightarrow> finish_JSON w (encode_Task (ce_local env) task) c))))"

definition runTask :: "command_env \<Rightarrow> string list \<Rightarrow> 's commandDependencies \<Rightarrow> console \<Rightarrow> 's \<Rightarrow> (int \<times> console) \<times> 's" where
  "runTask env args deps c s =
     (case args of
        [] \<Rightarrow> ((2, writeTaskUsage c), s)
      | command # args' \<Rightarrow>
          if command = ''--help'' \<or> command = ''-h'' then ((0, println (ce_writer env) taskUsage c), s)
          else if command = ''submit'' then runTaskSubmit env args' (cd_submitTask deps) c s
          else if command = ''show'' then (runTaskShow env args' (cd_showTask deps) c s, s)
          else ((2, writeTaskUsage c), s))"

definition run_command :: "command_env \<Rightarrow> string list \<Rightarrow> 's commandDependencies \<Rightarrow> console \<Rightarrow> 's \<Rightarrow> (int \<times> console) \<times> 's" where
  "run_command env args deps c s =
     (case args of
        [] \<Rightarrow> ((2, writeRootUsage c), s)
      | command # args' \<Rightarrow>
          if command = ''doctor'' then (runDoctor env args' (cd_loadDoctor deps) c, s)
          else if command = ''task'' then runTask env args' deps c s
          else ((2, writeRootUsage c), s))"

text \<open>\<open>main\<close>: \<open>sctx\<close> is the signal context as the repository source observes it.\<close>

definition main_dependencies :: "'k boot_env \<Rightarrow> gctx \<Rightarrow> path_file option commandDependencies" where
  "main_dependencies benv sctx =
     \<lparr>cd_loadDoctor = Some (LoadDoctor benv),
      cd_submitTask = Some (\<lambda>ctx. SubmitTask benv ctx sctx),
      cd_showTask = Some (ShowTask benv)\<rparr>"

definition main :: "'k boot_env \<Rightarrow> gctx \<Rightarrow> command_env \<Rightarrow> string list \<Rightarrow> path_file option \<Rightarrow> (int \<times> console) \<times> path_file option" where
  "main benv sctx env args file = run_command env args (main_dependencies benv sctx) silent file"

end
