(* ===== verification/Bootstrap_Sample.thy ===== *)
theory Bootstrap_Sample
  imports Submission_Source
begin

text \<open>
  A deployment in which a task can be submitted and shown: one connector, one repository, a store that does
  not exist yet, a YAML library that reads exactly this configuration, and GitHub's answers to the five requests
  of a snapshot.  It witnesses the properties of the commands, with the program's own repository source.
\<close>

section \<open>The answers of GitHub\<close>

text \<open>An installation, a token for it, the repository, its newest commit, and no configuration file.\<close>

definition sample_answers :: "(int \<times> json) list" where
  "sample_answers =
     [(200, JObj [(''id'', JNum ''9'')]),
      (201, JObj [(''token'', JStr ''t''), (''expires_at'', JStr ''2026-02-03T00:00:00Z''),
         (''permissions'', JObj [(''contents'', JStr ''read''), (''metadata'', JStr ''read'')])]),
      (200, JObj [(''id'', JNum ''42''), (''full_name'', JStr ''owner/repo''), (''default_branch'', JStr ''main'')]),
      (200, JArr [JObj [(''sha'', JStr sample_commit)]]),
      (404, JObj [])]"

definition answer_body :: "nat \<Rightarrow> string" where
  "answer_body k = enc True (snd (sample_answers ! k))"

definition sample_response :: "nat \<Rightarrow> http_response" where
  "sample_response k =
     \<lparr>http_response.hr_status = fst (sample_answers ! k), hr_header = (\<lambda>name. ''''), hr_body = answer_body k, hr_read = None, hr_close = None\<rparr>"

lemma Unmarshal_enc: "json_wf v \<Longrightarrow> json_depth v \<le> max_depth \<Longrightarrow> json_Unmarshal f (enc h v) = f v"
  using decode_enc [of v "[]" h] by (simp add: json_Unmarshal_def json_value_def)

lemma sample_numbers: "num_ok ''42''" "num_ok ''9''" "ParseInt ''42'' = Some 42" "ParseInt ''9'' = Some 9"
  by (simp_all add: num_ok_def parse_num_def num_sign_def num_int_def num_frac_def num_exp_def is_digit_def byte_def)
    code_simp+

lemma upper_chars:
  "char_of (65::nat) = CHR ''A''" "char_of (66::nat) = CHR ''B''" "char_of (67::nat) = CHR ''C''" "char_of (68::nat) = CHR ''D''"
  "char_of (69::nat) = CHR ''E''" "char_of (70::nat) = CHR ''F''" "char_of (72::nat) = CHR ''H''" "char_of (73::nat) = CHR ''I''"
  "char_of (75::nat) = CHR ''K''" "char_of (76::nat) = CHR ''L''" "char_of (77::nat) = CHR ''M''" "char_of (78::nat) = CHR ''N''"
  "char_of (79::nat) = CHR ''O''" "char_of (80::nat) = CHR ''P''" "char_of (82::nat) = CHR ''R''" "char_of (83::nat) = CHR ''S''"
  "char_of (84::nat) = CHR ''T''" "char_of (85::nat) = CHR ''U''" "char_of (88::nat) = CHR ''X''"
  by (simp_all add: char_of_def bit_Suc_0_iff)

lemma fold_runes: "utf8_enc 383 = [CHR 0xC5, CHR 0xBF]" "utf8_enc 8490 = [CHR 0xE2, CHR 0x84, CHR 0xAA]"
  by (simp_all add: utf8_enc_def char_of_def bit_Suc_0_iff)

lemma sample_keys:
  "fold_key ''id'' = ''ID''" "fold_key ''token'' = ''TOKEN''" "fold_key ''expires_at'' = ''EXPIRES_AT''"
  "fold_key ''permissions'' = ''PERMISSIONS''" "fold_key ''full_name'' = ''FULL_NAME''" "fold_key ''sha'' = ''SHA''"
  "fold_key ''default_branch'' = ''DEFAULT_BRANCH''"
  by (simp_all add: byte_def upper_chars fold_runes)

lemmas answer_eval = answer_body_def sample_answers_def Unmarshal_enc json_depth_le max_depth_def sample_numbers
  set_struct_def sample_keys byte_def set_string_def set_string_ptr_def set_string_map_def set_int_ptr_def

lemma read_answers:
  "identity_id (answer_body 0) = Inr (Some 9)"
  "read_token (answer_body 1) = Inr \<lparr>tk_token = ''t'', tk_expires_at = ''2026-02-03T00:00:00Z'',
     tk_permissions = Some [(''contents'', ''read''), (''metadata'', ''read'')]\<rparr>"
  "read_identity (answer_body 2) =
     Inr \<lparr>ri_id = Some 42, ri_full_name = Some ''owner/repo'', ri_default_branch = Some ''main''\<rparr>"
  "read_commits (answer_body 3) = Inr [sample_commit]"
  by (simp_all add: answer_eval identity_id_def set_id_def read_token_def set_token_def read_identity_def set_identity_def
      read_commits_def set_sha_def sample_commit_def del: fold_key.simps enc.simps)

lemmas asked = read_answers [unfolded One_nat_def numeral_2_eq_2 numeral_3_eq_3]

lemma answers_short: "list_all (\<lambda>p. length (enc True (snd p)) \<le> maxAPIResponseSize) sample_answers"
  by (simp add: sample_answers_def maxAPIResponseSize_def enc.simps(6) sort_members_def less_char_def byte_def esc_rune_def
      dquote_def backslash_def sample_commit_def)

lemma read_sample_response:
  "k < 5 \<Longrightarrow> read_response (sample_response k) = Inr \<lparr>ar_status = fst (sample_answers ! k), ar_body = answer_body k\<rparr>"
proof -
  assume k: "k < 5"
  have "length sample_answers = 5" by (simp add: sample_answers_def)
  then have "length (answer_body k) \<le> maxAPIResponseSize" using answers_short k by (simp add: answer_body_def list_all_length)
  then show ?thesis by (simp add: read_response_def read_limited_def sample_response_def)
qed

lemma sample_expiry: "\<exists>t. parse_RFC3339 ''2026-02-03T00:00:00Z'' = Some t \<and> time_After t sample_time"
proof -
  have "map_option (\<lambda>t. time_After t sample_time) (parse_RFC3339 ''2026-02-03T00:00:00Z'') = Some True" by code_simp
  then show ?thesis by auto
qed

lemma sample_commit_ok: "rx_match commitPattern sample_commit" "map lower sample_commit = sample_commit"
proof -
  show "rx_match commitPattern sample_commit"
    by (simp add: rx_match_iff commitPattern_def rx_lang_rep_class sample_commit_def in_class_def hex_class_def byte_def
        del: rx_lang.simps(7))
qed (simp add: sample_commit_def lower_def byte_def)

section \<open>A snapshot of them\<close>

text \<open>A transport that gives these answers, whatever it is asked.\<close>

definition online :: "'k github_env \<Rightarrow> repository_env \<Rightarrow> RepositorySource \<Rightarrow> bool" where
  "online env sv s \<longleftrightarrow>
     (\<forall>u. ge_new_request env u = None) \<and> (\<forall>k rq. ge_do env k rq = Inr (sample_response k)) \<and>
     (\<forall>path query. is_ok (endpoint sv s path query)) \<and> (\<forall>k. source_now s k = sample_time) \<and>
     rcf_external_ref (so_resource s) = ''owner/repo''"

lemma online_request:
  assumes "online env sv s" and "length tr < 5"
    and "h \<lparr>ar_status = fst (sample_answers ! length tr), ar_body = answer_body (length tr)\<rparr> = Inr x"
  shows "\<exists>rq. abind (amap_err g (request env sv s verb path query credential accept body)) (\<lambda>a. lift (h a)) tr = (Inr x, tr @ [rq])"
proof -
  obtain u where "endpoint sv s path query = Inr u" using assms(1) unfolding online_def is_ok_iff by blast
  then show ?thesis
    using assms by (simp add: online_def request_def abind_def lift_def amap_err_def map_err_def read_sample_response Let_def)
qed

lemma online_snapshot:
  assumes "online env sv s"
  shows "\<exists>requests. snapshot_with_jwt env sv s ctx jwt [] = (Inr sample_material, requests)"
proof -
  note ask = online_request [OF assms]
  have "\<exists>r1. snapshot_installation env sv s ctx jwt [] = (Inr 9, [] @ [r1])"
    unfolding snapshot_installation_def by (rule ask) (simp_all add: asked, simp_all add: sample_answers_def)
  then obtain r1 where r1: "snapshot_installation env sv s ctx jwt [] = (Inr 9, [r1])" by auto
  have token: "token_scope_ok \<lparr>tk_token = ''t'', tk_expires_at = ''2026-02-03T00:00:00Z'',
     tk_permissions = Some [(''contents'', ''read''), (''metadata'', ''read'')]\<rparr>"
    by (simp add: token_scope_ok_def)
  have "\<exists>r2. snapshot_token env sv s ctx jwt 9 [r1] = (Inr ''t'', [r1] @ [r2])"
    unfolding snapshot_token_def
    by (rule ask) (use sample_expiry token assms in \<open>auto simp: asked online_def sample_answers_def\<close>)
  then obtain r2 where r2: "snapshot_token env sv s ctx jwt 9 [r1] = (Inr ''t'', [r1, r2])" by auto
  have "\<exists>r3. snapshot_identity env sv s ctx ''t'' [r1, r2] = (Inr (42, ''owner/repo'', ''main''), [r1, r2] @ [r3])"
    unfolding snapshot_identity_def
    by (rule ask) (use assms in \<open>auto simp: asked sample_answers_def online_def equal_fold_ascii_def\<close>)
  then obtain r3 where r3: "snapshot_identity env sv s ctx ''t'' [r1, r2] = (Inr (42, ''owner/repo'', ''main''), [r1, r2, r3])"
    by auto
  have "\<exists>r4. snapshot_commit env sv s ctx ''t'' ''main'' [r1, r2, r3] = (Inr sample_commit, [r1, r2, r3] @ [r4])"
    unfolding snapshot_commit_def by (rule ask) (auto simp: asked sample_answers_def sample_commit_ok)
  then obtain r4 where r4: "snapshot_commit env sv s ctx ''t'' ''main'' [r1, r2, r3] = (Inr sample_commit, [r1, r2, r3, r4])"
    by auto
  have "\<exists>r5. snapshot_configuration env sv s ctx ''t'' sample_commit [r1, r2, r3, r4] =
      (Inr emptyRepositoryConfiguration, [r1, r2, r3, r4] @ [r5])"
    unfolding snapshot_configuration_def by (rule ask) (simp_all add: sample_answers_def)
  then obtain r5 where r5: "snapshot_configuration env sv s ctx ''t'' sample_commit [r1, r2, r3, r4] =
      (Inr emptyRepositoryConfiguration, [r1, r2, r3, r4, r5])" by auto
  have "dec_int 42 = ''42''" by code_simp
  then show ?thesis
    using r1 r2 r3 r4 r5
    by (simp add: snapshot_with_jwt_def abind_def lift_def sample_material_def emptyRepositoryConfiguration_def)
qed

section \<open>The configuration\<close>

definition section_node :: "string \<Rightarrow> ynode" where
  "section_node name = YNode MappingNode ''!!map'' name []"

definition deployment_root :: ynode where
  "deployment_root = YNode MappingNode ''!!map'' ''''
     [leaf ''version'', leaf ''1'', leaf ''store'', leaf ''s'', leaf ''connectors'', leaf ''c'',
      leaf ''workspace_providers'', leaf ''w'', leaf ''agent_runtimes'', leaf ''a'', leaf ''resources'', leaf ''r'']"

definition deployment_store :: Instance where
  "deployment_store = \<lparr>in_kind = ''sqlite'', in_config = section_node ''store''\<rparr>"

definition deployment_instances :: "string \<Rightarrow> Instance gomap" where
  "deployment_instances name = Some [(name, \<lparr>in_kind = name, in_config = section_node name\<rparr>)]"

definition deployment_config :: Config where
  "deployment_config = \<lparr>cf_version = 1, cf_store = deployment_store, cf_connectors = deployment_instances ''github'',
     cf_workspace_providers = deployment_instances ''docker'', cf_agent_runtimes = deployment_instances ''omp'',
     cf_resources = Some [(''core'', \<lparr>rsc_kind = ResourceKindRepository, rsc_connector = ''github'',
                                      rsc_config = section_node ''core''\<rparr>)],
     cf_policy = \<lparr>pr_actions = None, pr_protected_paths = None\<rparr>\<rparr>"

definition deployment_library :: yaml where
  "deployment_library =
     \<lparr>ya_node = (\<lambda>data k. if k = 0 then Value (YNode DocumentNode '''' '''' [deployment_root]) else EOF),
      ya_marshal = (\<lambda>node. if node = deployment_root then Inr ''root''
                           else if node = projection (leaf ''1'') (leaf ''s'') then Inr ''projection''
                           else Inr (CHR ''@'' # y_value node))\<rparr>"

definition deployment_env :: "unit boot_env" where
  "deployment_env =
     \<lparr>be_files = sample_files, be_yaml = deployment_library,
      be_config = (\<lambda>data. if data = ''root'' then Value deployment_config else EOF),
      be_store_document = (\<lambda>data. if data = ''projection'' then Value (1, deployment_store) else EOF),
      be_github_config = (\<lambda>data. if data = ''@github'' then Value \<lparr>gc_app_id = 7, gc_private_key_file = ''key.pem''\<rparr> else EOF),
      be_repository_config = (\<lambda>data. if data = ''@core'' then Value \<lparr>rcf_external_ref = ''owner/repo''\<rparr> else EOF),
      be_sqlite_config = (\<lambda>data. if data = ''@store'' then Value ''/srv/state.db'' else EOF),
      be_docker_config = (\<lambda>data. Value ()), be_omp_config = (\<lambda>data. Value ()),
      be_github = \<lparr>ge_stat = (\<lambda>path. Inr (True, 0, 384)), ge_read = (\<lambda>path. Inr ''''),
        ge_windows = False, ge_pem = (\<lambda>data. Some (''RSA PRIVATE KEY'', '''', '''')), ge_pkcs1 = (\<lambda>data. Inr ()), ge_pkcs8 = (\<lambda>data. Inr None),
        ge_sha256 = (\<lambda>data. data), ge_sign = (\<lambda>key digest. Inr digest), ge_now = (\<lambda>k. sample_time),
        ge_new_request = (\<lambda>url. None), ge_do = (\<lambda>k rq. Inr (sample_response k))\<rparr>,
      be_repository = \<lparr>sv_url = (\<lambda>s. Inr \<lparr>ur_scheme = ''https'', ur_host = ''api.github.com'',
          ur_authority = ''api.github.com'', ur_path = '''', ur_force_query = False\<rparr>), sv_child = (\<lambda>timeout. None),
        sv_yaml = deployment_library, sv_typed = (\<lambda>data. EOF)\<rparr>,
      be_docker = \<lparr>dk_lookpath = Inl (ErrNew ''absent''), dk_output = [], dk_run = None\<rparr>,
      be_omp = \<lparr>om_lookpath = Inl (ErrNew ''absent''), om_pipe = None, om_stdin = None, om_start = None,
        om_output = ('''', io_EOF), om_close_stdin = None, om_wait = None\<rparr>,
      be_sqlite = \<lparr>se_wd = Inr ''/'', se_stat = (\<lambda>path. Inr True), se_open = (\<lambda>dsn. None), se_ping = None,
        se_schema = Inr 1, se_version = Inr ''3.50'', se_close = None\<rparr>,
      be_open = \<lparr>en_wd = Inr ''/'', en_parent = Inr True, en_stat = None, en_create = None, en_close = None,
        en_remove = True, en_windows = False, en_sqlopen = None\<rparr>,
      be_open_driver = (\<lambda>k. None),
      be_show = \<lparr>en_wd = Inr ''/'', en_parent = Inr True, en_stat = None, en_create = None, en_close = None,
        en_remove = True, en_windows = False, en_sqlopen = None\<rparr>,
      be_show_driver = (\<lambda>k. None), be_driver = (\<lambda>k. None), be_newID = sample_newID, be_now = sample_time\<rparr>"

lemma deployment_decodes:
  "decodes_fields deployment_library (be_config deployment_env) (be_store_document deployment_env)"
proof (rule decodes_fieldsI)
  show "root = deployment_root \<and> cfg = deployment_config"
    if "y_kind root = MappingNode" "Decode deployment_library (be_config deployment_env) root = Inr cfg" for root cfg
    using that by (auto simp: Decode_def rbind_eq_Inr fail_if_eq_Inr deployment_library_def deployment_env_def
        split: if_splits decoded.splits)
  show "mappingValue deployment_root ''version'' = Some (leaf ''1'')" "mappingValue deployment_root ''store'' = Some (leaf ''s'')"
    by (simp_all add: deployment_root_def leaf_def mappingValue_def)
qed (simp_all add: deployment_root_def leaf_def mappingCount_def Decode_def projection_def deployment_library_def
    deployment_env_def deployment_config_def scalarNode_def fail_if_def)

definition deployment_document :: Document where
  "deployment_document = \<lparr>dc_path = filepath_Clean ''/c'', dc_dir = filepath_Dir (filepath_Clean ''/c''),
     dc_config = deployment_config\<lparr>cf_policy := \<lparr>pr_actions = Some [], pr_protected_paths = Some []\<rparr>\<rparr>\<rparr>"

lemma deployment_read:
  "readRoot sample_files deployment_library ''/c'' True =
     Inr (filepath_Clean ''/c'', filepath_Dir (filepath_Clean ''/c''), deployment_root)"
  by (simp add: readRoot_def sample_files_def filepath_Abs_def filepath_IsAbs_def decodeSingleDocument_def
      deployment_library_def deployment_root_def leaf_def fail_if_def maxConfigurationSize_def)

lemma deployment_plain: "plain_document sample_files deployment_library ''/c''"
  by (simp add: plain_document_def deployment_read plain_keys_def deployment_root_def leaf_def)

lemma deployment_loads:
  "Load sample_files deployment_library (be_config deployment_env) ''/c'' = Inr deployment_document"
proof -
  note deployment_read
  moreover have "\<not> containsEnvironmentInterpolation deployment_root"
    by (auto simp: containsEnvironmentInterpolation_iff deployment_root_def leaf_def dest!: interpolation_dollar)
  moreover have "Decode deployment_library (be_config deployment_env) deployment_root = Inr deployment_config"
    by (simp add: Decode_def deployment_library_def deployment_env_def deployment_root_def fail_if_def)
  moreover have "validate_config deployment_root deployment_config =
      Inr (deployment_config\<lparr>cf_policy := \<lparr>pr_actions = Some [], pr_protected_paths = Some []\<rparr>\<rparr>)"
    by (auto simp: validate_config_Inr config_acceptable_def deployment_config_def deployment_root_def leaf_def
        mappingValue_def deployment_store_def deployment_instances_def instances_valid_def names_def entry_def
        instance_name_def byte_def NormalizeRequest_def resource_valid_def ResourceKindRepository_def section_node_def)
  ultimately show ?thesis by (simp add: Load_def fail_if_def deployment_document_def)
qed

definition deployment_plan :: submission where
  "deployment_plan = \<lparr>sb_app = \<lparr>gc_app_id = 7, gc_private_key_file = ''key.pem''\<rparr>,
     sb_repository = \<lparr>rcf_external_ref = ''owner/repo''\<rparr>, sb_store = ''/srv/state.db'', sb_connector = ''github'',
     sb_policy = \<lparr>pr_actions = Some [], pr_protected_paths = Some []\<rparr>, sb_dir = filepath_Dir (filepath_Clean ''/c'')\<rparr>"

lemma deployment_fields:
  "be_files deployment_env = sample_files" "be_yaml deployment_env = deployment_library"
  "be_driver deployment_env = (\<lambda>k. None)" "be_show_driver deployment_env = (\<lambda>k. None)"
  "be_open_driver deployment_env = (\<lambda>k. None)" "be_newID deployment_env = sample_newID"
  "be_now deployment_env = sample_time" "undisturbed (be_open deployment_env) (be_show deployment_env)"
  "sound_environment (be_open deployment_env)"
  by (simp_all add: deployment_env_def undisturbed_def sound_environment_def)

lemma deployment_planned: "plan_submission deployment_env ''/c'' ''core'' = Inr deployment_plan"
proof -
  have node: "Decode deployment_library typed (section_node name) =
      (case typed (CHR ''@'' # name) of Value x \<Rightarrow> Inr x | EOF \<Rightarrow> Inl io_EOF | Failure e \<Rightarrow> Inl e)" for typed name
    by (simp add: Decode_def section_node_def deployment_library_def deployment_root_def projection_def fail_if_def
        split: decoded.split)
  show ?thesis
    by (simp add: plan_submission_def deployment_fields deployment_loads Let_def)
      (simp add: deployment_document_def deployment_config_def deployment_instances_def deployment_store_def node
        fail_if_def ResourceKindRepository_def deployment_plan_def, simp add: deployment_env_def)
qed

lemma build_draft_operator:
  "NormalizeRequest op = NormalizeRequest op' \<Longrightarrow>
   build_draft newID now rn cn input op material = build_draft newID now rn cn input op' material"
  by (simp add: build_draft_def)

text \<open>The source that the program makes for this configuration, and what it returns.\<close>

lemma deployment_source:
  "\<exists>source. default_newRepositorySource deployment_env (sb_app deployment_plan) (sb_repository deployment_plan)
     (sb_dir deployment_plan) = Inr source \<and> source None = Inr sample_material"
proof -
  let ?sv = "be_repository deployment_env" and ?env = "be_github deployment_env"
  have "owner_name ''owner''" by (simp add: owner_name_def in_class_def alnum_class_def byte_def)
  moreover have "repo_name ''repo''"
    by (simp add: repo_name_def in_class_def alnum_class_def byte_def suffix_def lower_def)
  ultimately have "is_ok (NewRepositorySource (ge_now ?env) (sb_app deployment_plan) (sb_repository deployment_plan) (sb_dir deployment_plan))"
    using parseExternalRef_Inr [of "''owner/repo''" "''owner''" "''repo''"]
    by (simp add: NewRepositorySource_def newRepositorySource_def deployment_plan_def)
  then obtain s where s: "NewRepositorySource (ge_now ?env) (sb_app deployment_plan) (sb_repository deployment_plan)
      (sb_dir deployment_plan) = Inr s" by (auto simp: is_ok_iff)
  then have fields: "so_app s = sb_app deployment_plan" "so_resource s = sb_repository deployment_plan"
    "ro_now (so_options s) = Some (\<lambda>k. sample_time)"
    by (auto simp: NewRepositorySource_def newRepositorySource_def rbind_eq_Inr deployment_env_def)
  have "online ?env ?sv s"
    using fields(2,3)
    by (simp add: online_def source_now_def endpoint_def deployment_env_def deployment_plan_def)
  then have snap: "fst (snapshot_with_jwt ?env ?sv s None jwt []) = Inr sample_material" for jwt
    using online_snapshot [of ?env ?sv s None jwt] by auto
  have "loadPrivateKey ?env (so_app s) (so_dir s) = Inr ()"
    by (simp add: loadPrivateKey_def fields(1) deployment_plan_def deployment_env_def parseRSAKey_def maxPrivateKeySize_def map_err_def)
  moreover have "is_ok (appJWT ?env () (gc_app_id (so_app s)) (source_now s 0))"
    by (simp add: appJWT_def deployment_env_def Let_def)
  ultimately have "fst (Snapshot ?env ?sv s None) = Inr sample_material"
    using snap by (auto simp: Snapshot_def contextError_def is_ok_iff)
  with s show ?thesis by (simp add: default_newRepositorySource_def)
qed

lemma deployment_submitted:
  "\<exists>file'. SubmitTask deployment_env None None ''/c'' ''core'' sample_input None =
     (Inr (task_of sample_draft (bound_id sample_draft (sqlite_abs empty_database))), file')"
proof -
  obtain f where f: "sqlite_Open (be_open deployment_env) (\<lambda>k. None) ''/srv/state.db'' (sb_dir deployment_plan) None =
      (Inr Writable, Some f)" "df_data (pf_db f) = empty_database"
    using sqlite_Open_fresh [OF deployment_fields(9), of "''/srv/state.db''" "sb_dir deployment_plan"] by auto
  have norm: "NormalizeRequest (sb_policy deployment_plan) = NormalizeRequest sample_operator"
    by (simp add: deployment_plan_def sample_operator_def NormalizeRequest_def)
  have built: "build_draft sample_newID sample_time ''core'' ''github'' sample_input (sb_policy deployment_plan) sample_material =
      Inr sample_draft"
    using build_draft_operator [OF norm] sample_built by simp
  have "SubmitManualRepository (Some sqlite_create) sample_newID sample_time None ''core'' ''github'' sample_input
      (sb_policy deployment_plan) (Some (Inr sample_material)) empty_database =
    (Inr (task_of sample_draft (bound_id sample_draft (sqlite_abs empty_database))), sqlite_created sample_draft empty_database)"
    by (simp add: SubmitManualRepository_def contextError_def built sample_sqlite_created)
  moreover have "sb_store deployment_plan = ''/srv/state.db''" "sb_connector deployment_plan = ''github''"
    by (simp_all add: deployment_plan_def)
  moreover obtain source where "default_newRepositorySource deployment_env (sb_app deployment_plan)
      (sb_repository deployment_plan) (sb_dir deployment_plan) = Inr source" "source None = Inr sample_material"
    using deployment_source by blast
  ultimately show ?thesis
    using f store_create_writable [OF deployment_fields(3)]
    by (simp add: SubmitTask_def submitTask_def deployment_planned defaultTaskOptions_def or_default_def default_openStore_def
        deployment_fields Let_def)
qed

end
