(* ===== verification/Command_Properties.thy ===== *)
theory Command_Properties
  imports Command_Line Bootstrap_Sample
begin

text \<open>
  What the commands promise before they reach the parts behind them: exit codes and usage errors, and the
  inputs a submission accepts.
\<close>

section \<open>Output\<close>

lemma println_simps [simp]:
  "co_err (println w t c) = co_err c"
  by (simp add: println_def print_def write_out_def split: option.splits)

lemma println_grows: "prefix (co_out c) (co_out (println w t c))"
  by (auto simp: println_def print_def write_out_def split: option.splits)

lemma write_out_facts:
  "co_err (snd (write_out w t c)) = co_err c" "prefix (co_out c) (co_out (snd (write_out w t c)))"
  by (auto simp: write_out_def split: option.splits)

text \<open>A result of a command that did not fail on its arguments: only standard output grows.\<close>

definition completes :: "console \<Rightarrow> int \<times> console \<Rightarrow> bool" where
  "completes c r \<longleftrightarrow> fst r \<in> {0, 1} \<and> co_err (snd r) = co_err c \<and> prefix (co_out c) (co_out (snd r))"

lemma completes_println [simp]: "code \<in> {0, 1} \<Longrightarrow> completes c (code, println w t c)"
  by (simp add: completes_def println_grows)

lemma completes_then: "completes c (x, c') \<Longrightarrow> completes c' r \<Longrightarrow> completes c r"
  unfolding completes_def by (auto intro: prefix_order.trans)

lemma completes_fold: "completes c (0, fold (\<lambda>r. println w (f r)) rs c)"
proof (induction rs arbitrary: c)
  case (Cons r rs)
  have "completes c (0, println w (f r) c)" by simp
  from completes_then [OF this Cons] show ?case by simp
qed (simp add: completes_def)

lemma completes_report: "completes c (print_report w v rs c)"
proof -
  let ?c = "println w (''PASS config: schema version '' @ dec_int v) c"
  let ?d = "fold (\<lambda>r. println w (result_line r)) rs ?c"
  have "completes c (0, ?c)" by simp
  moreover have "completes ?c (0, ?d)" by (rule completes_fold)
  ultimately have "completes c (0, ?d)" by (rule completes_then)
  then show ?thesis unfolding print_report_def Let_def by (auto intro: completes_then)
qed

lemma completes_failure: "completes c (writeTaskFailure w e c)"
  by (simp add: writeTaskFailure_def)

lemma completes_finish: "completes c (finish_JSON w json c)"
proof (cases "writeJSON w json c")
  case (Pair e c')
  have "co_err c' = co_err c \<and> prefix (co_out c) (co_out c')"
    using write_out_facts Pair by (cases json) (auto simp: writeJSON_def, (metis snd_conv)+)
  then have "completes c (0, c')" by (simp add: completes_def)
  then show ?thesis using completes_then [OF _ completes_failure] by (auto simp: finish_JSON_def Pair split: option.split)
qed

section \<open>Usage errors\<close>

definition usages :: "string list" where
  "usages = [rootUsage, doctorUsage, taskUsage, taskSubmitUsage, taskShowUsage]"

text \<open>Either the arguments are refused, whatever the functions behind the command, or the command ran.\<close>

definition refused :: "console \<Rightarrow> int \<times> console \<Rightarrow> bool" where
  "refused c r \<longleftrightarrow> fst r = 2 \<and> (\<exists>u \<in> set usages. snd r = c\<lparr>co_err := co_err c @ u @ [LF]\<rparr>)"

lemma refused_usage [simp]:
  "refused c (2, writeDoctorUsage c)" "refused c (2, writeTaskSubmitUsage c)" "refused c (2, writeTaskShowUsage c)"
  "refused c (2, writeTaskUsage c)" "refused c (2, writeRootUsage c)"
  by (simp_all add: refused_def usages_def writeDoctorUsage_def writeTaskSubmitUsage_def writeTaskShowUsage_def
      writeTaskUsage_def writeRootUsage_def write_usage_def)

definition uniform :: "console \<Rightarrow> ('d \<Rightarrow> (int \<times> console) \<times> 's) \<Rightarrow> ('d \<Rightarrow> 's) \<Rightarrow> bool" where
  "uniform c run st \<longleftrightarrow>
     (\<exists>r. refused c r \<and> (\<forall>d. run d = (r, st d))) \<or> (\<forall>d. completes c (fst (run d)))"

lemma uniformE:
  assumes "uniform c run st"
  obtains r where "refused c r" "\<And>d. run d = (r, st d)" | "\<And>d. completes c (fst (run d))"
  using assms unfolding uniform_def by blast

lemma uniform_refused: "refused c r \<Longrightarrow> uniform c (\<lambda>d. (r, st d)) st"
  unfolding uniform_def by blast

lemma uniform_completes: "(\<And>d. completes c (fst (run d))) \<Longrightarrow> uniform c run st"
  by (simp add: uniform_def)

lemma uniform_println: "uniform c (\<lambda>d. ((0, println w t c), st d)) st"
  by (rule uniform_completes) simp

lemma runDoctor_uniform: "uniform c (\<lambda>d. (runDoctor env args (load d) c, st d)) st"
proof (cases "parse_flags (value_flags [''config'', ''timeout'']) args []")
  case None
  then show ?thesis by (simp add: runDoctor_def uniform_refused)
next
  case (Some p)
  obtain given extra where p: "p = (given, extra)" by (cases p)
  consider (asked) "wants_help given"
    | (wrong) "\<not> wants_help given" "flag_string ''config'' '''' given = '''' \<or> extra \<noteq> [] \<or>
        (case ParseDuration (flag_string ''timeout'' ''10s'' given) of None \<Rightarrow> True | Some t \<Rightarrow> t \<le> 0)"
    | (ok) t where "\<not> wants_help given" "flag_string ''config'' '''' given \<noteq> ''''" "extra = []"
        "ParseDuration (flag_string ''timeout'' ''10s'' given) = Some t" "0 < t"
    by (fastforce split: option.splits)
  then show ?thesis
  proof cases
    case asked
    then show ?thesis by (intro uniform_completes) (simp add: runDoctor_def Let_def Some p)
  next
    case wrong
    then have "runDoctor env args load c = (2, writeDoctorUsage c)" for load
      by (auto simp: runDoctor_def Let_def Some p split: option.splits)
    then show ?thesis by (simp add: uniform_refused)
  next
    case ok
    then show ?thesis
      by (intro uniform_completes) (simp add: runDoctor_def Let_def Some p completes_report split: option.split sum.split prod.split)
  qed
qed

lemma runTaskShow_uniform: "uniform c (\<lambda>d. (runTaskShow env args (f d) c (st d), st d)) st"
proof (cases "parse_flags (value_flags [''config'']) args []")
  case None
  then show ?thesis by (simp add: runTaskShow_def uniform_refused)
next
  case (Some p)
  obtain given extra where p: "p = (given, extra)" by (cases p)
  consider (asked) "wants_help given"
    | (wrong) "\<not> wants_help given" "flag_string ''config'' '''' given = '''' \<or> length extra \<noteq> 1 \<or> \<not> is_ok (ParseTaskID (hd extra))"
    | (ok) i where "\<not> wants_help given" "flag_string ''config'' '''' given \<noteq> ''''" "length extra = 1"
        "ParseTaskID (hd extra) = Inr i"
    by (auto simp: is_ok_iff)
  then show ?thesis
  proof cases
    case asked
    then show ?thesis by (intro uniform_completes) (simp add: runTaskShow_def Let_def Some p)
  next
    case wrong
    then have "runTaskShow env args (f d) c (st d) = (2, writeTaskShowUsage c)" for d
      by (auto simp: runTaskShow_def Let_def Some p split: sum.splits)
    then show ?thesis by (simp add: uniform_refused)
  next
    case ok
    then show ?thesis
      by (intro uniform_completes)
        (simp add: runTaskShow_def Let_def Some p completes_failure completes_finish split: option.split sum.split)
  qed
qed

lemma runTaskSubmit_uniform: "uniform c (\<lambda>d. runTaskSubmit env args (f d) c (st d)) st"
proof (cases "parse_flags (value_flags [''config'', ''resource'', ''input'', ''input-file'']) args []")
  case None
  then show ?thesis by (simp add: runTaskSubmit_def uniform_refused)
next
  case (Some p)
  obtain given extra where p: "p = (given, extra)" by (cases p)
  define wrong where "wrong \<longleftrightarrow> flag_string ''config'' '''' given = '''' \<or> flag_string ''resource'' '''' given = '''' \<or>
    extra \<noteq> [] \<or> length (assignments ''input'' given) + length (assignments ''input-file'' given) \<noteq> 1"
  have "runTaskSubmit env args (f d) c (st d) = ((2, writeTaskSubmitUsage c), st d)" if "\<not> wants_help given" "wrong" for d
    using that by (simp add: runTaskSubmit_def Let_def Some p wrong_def)
  moreover have "completes c (fst (runTaskSubmit env args (f d) c (st d)))" if "wants_help given \<or> \<not> wrong" for d
    using that
    by (auto simp: runTaskSubmit_def Let_def Some p wrong_def completes_failure completes_finish
        split: option.split sum.split prod.split)
  ultimately show ?thesis
    by (cases "\<not> wants_help given \<and> wrong") (auto intro: uniform_completes simp: uniform_refused)
qed

lemma run_command_uniform:
  "uniform c (\<lambda>d. run_command env args (fst d) c (snd d)) snd"
proof (cases args)
  case Nil
  then show ?thesis by (simp add: run_command_def uniform_refused)
next
  case (Cons command args')
  have task: "uniform c (\<lambda>d. runTask env args' (fst d) c (snd d)) snd"
  proof (cases args')
    case Nil
    then show ?thesis by (simp add: runTask_def uniform_refused)
  next
    case (Cons sub args'')
    show ?thesis
      unfolding runTask_def Cons
      by (cases "sub = ''--help'' \<or> sub = ''-h''"; cases "sub = ''submit''"; cases "sub = ''show''")
        (auto simp: uniform_refused runTaskSubmit_uniform runTaskShow_uniform uniform_println)
  qed
  show ?thesis
    unfolding run_command_def Cons
    using task
    by (cases "command = ''doctor''"; cases "command = ''task''") (simp_all add: uniform_refused runDoctor_uniform)
qed

text \<open>
  C22.  Exit codes.  Every command line ends with code 0, 1 or 2.  Code 2 means that the arguments were
  refused: one usage text on standard error, nothing on standard output, no state changed, and the same
  result whatever the loader, the submission and the lookup would do, because none of them is called.
  With code 0 and 1 standard error stays as it was and standard output only grows.
\<close>

theorem command_exit_codes:
  fixes s :: 's
  shows "case run_command env args deps c s of ((code, c'), s') \<Rightarrow>
     if code = 2 then
       c' = c\<lparr>co_err := co_err c'\<rparr> \<and> (\<exists>u. u \<in> set usages \<and> co_err c' = co_err c @ u @ [LF]) \<and>
       (\<forall>deps' (t :: 's). run_command env args deps' c t = ((2, c'), t)) \<and> s' = s
     else code \<in> {0, 1} \<and> co_err c' = co_err c \<and> prefix (co_out c) (co_out c')"
proof -
  obtain code c' s' where r: "run_command env args deps c s = ((code, c'), s')" by (metis prod.collapse)
  show ?thesis
  proof (rule uniformE [OF run_command_uniform [of c env args]])
    fix q :: "int \<times> console"
    assume q: "refused c q" "\<And>d :: 's commandDependencies \<times> 's. run_command env args (fst d) c (snd d) = (q, snd d)"
    have all: "run_command env args x c y = (q, y)" for x and y :: 's using q(2) [of "(x, y)"] by simp
    then have "q = (code, c')" "s' = s" using r by auto
    then show ?thesis using q(1) all by (auto simp: r refused_def)
  next
    assume "\<And>d :: 's commandDependencies \<times> 's. completes c (fst (run_command env args (fst d) c (snd d)))"
    from this [of "(deps, s)"] show ?thesis by (auto simp: r completes_def)
  qed
qed

section \<open>Task input\<close>

text \<open>What the chosen source delivers without any error, and when it is too large.\<close>

definition input_data :: "input_sources \<Rightarrow> gctx \<Rightarrow> string \<Rightarrow> string \<Rightarrow> string \<Rightarrow> bool" where
  "input_data src ctx inlineValue fileValue raw \<longleftrightarrow>
     (if fileValue = '''' then raw = inlineValue
      else if fileValue = ''-'' then contextError ctx 0 = None \<and> is_stdin src = Some (raw, None)
      else (\<exists>n. is_stat src fileValue = Inr (True, n) \<and> n \<le> maxTaskInputSize) \<and> is_open src fileValue = None \<and>
           is_read src fileValue = (raw, None) \<and> is_close src fileValue = None)"

definition input_oversized :: "input_sources \<Rightarrow> gctx \<Rightarrow> string \<Rightarrow> string \<Rightarrow> bool" where
  "input_oversized src ctx inlineValue fileValue \<longleftrightarrow>
     (if fileValue = '''' then maxTaskInputSize < length inlineValue
      else if fileValue = ''-'' then
        contextError ctx 0 = None \<and> (\<exists>r. is_stdin src = Some r \<and> maxTaskInputSize < length (fst r))
      else \<exists>n. is_stat src fileValue = Inr (True, n) \<and>
           (maxTaskInputSize < n \<or>
            is_open src fileValue = None \<and> maxTaskInputSize < length (fst (is_read src fileValue)) \<and>
            is_close src fileValue = None))"

definition input_reasons :: "string list" where
  "input_reasons = [''task input is unreadable'', ''task input exceeds 1 MiB'', ''task input is invalid'', ''task cancelled'']"

lemma sizes_agree: "maxTaskInputSize = maxManualInputSize"
  by (simp add: maxTaskInputSize_def maxManualInputSize_def)

lemma read_task_input_Inr:
  "read_task_input r = Inr raw \<and> length raw \<le> maxTaskInputSize \<longleftrightarrow> r = (raw, None) \<and> length raw \<le> maxTaskInputSize"
  by (cases r) (auto simp: read_task_input_def split: option.splits)

lemma read_task_input_large:
  "read_task_input r = Inr raw \<Longrightarrow> maxTaskInputSize < length raw \<longleftrightarrow> maxTaskInputSize < length (fst r)"
  by (cases r) (auto simp: read_task_input_def split: option.splits if_splits)

lemma read_task_input_Inl: "read_task_input r = Inl e \<Longrightarrow> length (fst r) \<le> maxTaskInputSize \<and> snd r = Some e"
  by (cases r) (auto simp: read_task_input_def split: option.splits if_splits)

definition raw_input :: "input_sources \<Rightarrow> gctx \<Rightarrow> string \<Rightarrow> string \<Rightarrow> gerr + string" where
  "raw_input src ctx inlineValue fileValue =
     (if fileValue = '''' then Inr inlineValue
      else if fileValue = ''-'' then read_stdin ctx (is_stdin src) else read_file src fileValue)"

definition raw_failure :: "input_sources \<Rightarrow> gctx \<Rightarrow> string \<Rightarrow> string \<Rightarrow> gerr \<Rightarrow> bool" where
  "raw_failure src ctx inlineValue fileValue e \<longleftrightarrow>
     (\<exists>r c. e = ControlFailure r c \<and> r \<in> set input_reasons \<and> r \<noteq> '''' \<and>
        (r = ''task input exceeds 1 MiB'' \<longleftrightarrow> input_oversized src ctx inlineValue fileValue)) \<and>
     (\<nexists>raw. input_data src ctx inlineValue fileValue raw \<and> length raw \<le> maxTaskInputSize)"

lemma stdin_raw:
  "case read_stdin ctx (is_stdin src) of
     Inr raw \<Rightarrow> input_data src ctx inlineValue ''-'' raw \<and> length raw \<le> maxTaskInputSize \<and>
       \<not> input_oversized src ctx inlineValue ''-''
   | Inl e \<Rightarrow> raw_failure src ctx inlineValue ''-'' e"
proof (cases "is_stdin src")
  case None
  then show ?thesis
    by (simp add: read_stdin_def raw_failure_def input_oversized_def input_data_def unreadable_def NewFailure_def input_reasons_def)
next
  case (Some r)
  show ?thesis
  proof (cases "contextError ctx 0")
    case (Some c)
    then show ?thesis using \<open>is_stdin src = _\<close>
      by (simp add: read_stdin_def raw_failure_def input_oversized_def input_data_def NewFailure_def input_reasons_def)
  next
    case None
    show ?thesis
    proof (cases "read_task_input r")
      case (Inl e)
      then show ?thesis using None Some read_task_input_Inl [OF Inl]
        by (auto simp: read_stdin_def raw_failure_def input_oversized_def input_data_def unreadable_def NewFailure_def
            input_reasons_def)
    next
      case (Inr raw)
      then show ?thesis using None Some read_task_input_large [OF Inr] read_task_input_Inr [of r raw]
        by (auto simp: read_stdin_def raw_failure_def input_oversized_def input_data_def input_too_large_def
            input_reasons_def fail_if_def)
    qed
  qed
qed


lemma file_raw:
  assumes "path \<noteq> ''''" "path \<noteq> ''-''"
  shows "case read_file src path of
     Inr raw \<Rightarrow> input_data src ctx inlineValue path raw \<and> length raw \<le> maxTaskInputSize \<and>
       \<not> input_oversized src ctx inlineValue path
   | Inl e \<Rightarrow> raw_failure src ctx inlineValue path e"
proof -
  note defs = raw_failure_def input_oversized_def input_data_def unreadable_def input_too_large_def NewFailure_def
    input_reasons_def
  show ?thesis
  proof (cases "is_stat src path")
    case (Inl e)
    then show ?thesis using assms by (simp add: read_file_def defs)
  next
    case (Inr p)
    obtain regular n where p: "p = (regular, n)" by (cases p)
    consider (stat) "\<not> regular \<or> maxTaskInputSize < n" | (unopened) e where "regular" "n \<le> maxTaskInputSize" "is_open src path = Some e"
      | (opened) "regular" "n \<le> maxTaskInputSize" "is_open src path = None"
      by fastforce
    then show ?thesis
    proof cases
      case stat
      then show ?thesis using assms Inr p by (auto simp: read_file_def defs)
    next
      case unopened
      then show ?thesis using assms Inr p by (simp add: read_file_def defs)
    next
      case opened
      show ?thesis
      proof (cases "read_task_input (is_read src path)")
        case (Inl e)
        then show ?thesis using assms Inr p opened read_task_input_Inl [OF Inl] by (auto simp: read_file_def defs)
      next
        case raw: (Inr raw)
        then show ?thesis
          using assms Inr p opened read_task_input_large [OF raw] read_task_input_Inr [of "is_read src path" raw]
          by (auto simp: read_file_def defs split: option.split)
      qed
    qed
  qed
qed

lemma normalized_within: "NormalizeManualInput raw = Inr i \<Longrightarrow> length raw \<le> maxTaskInputSize"
  by (simp add: NormalizeManualInput_ok sizes_agree)

lemma raw_input_correct:
  "case raw_input src ctx inlineValue fileValue of
     Inr raw \<Rightarrow> input_data src ctx inlineValue fileValue raw \<and>
       (input_oversized src ctx inlineValue fileValue \<longleftrightarrow> maxTaskInputSize < length raw)
   | Inl e \<Rightarrow> raw_failure src ctx inlineValue fileValue e"
proof -
  consider (inline) "fileValue = ''''" | (stdin) "fileValue = ''-''" | (path) "fileValue \<noteq> ''''" "fileValue \<noteq> ''-''" by blast
  then show ?thesis
  proof cases
    case inline
    then show ?thesis by (simp add: raw_input_def input_data_def input_oversized_def)
  next
    case stdin
    then show ?thesis using stdin_raw [of src ctx inlineValue] by (auto simp: raw_input_def split: sum.splits)
  next
    case path
    then show ?thesis using file_raw [OF path, of src ctx inlineValue] by (auto simp: raw_input_def split: sum.splits)
  qed
qed

lemma input_reason_normalize:
  assumes "NormalizeManualInput raw = Inl e"
  shows "input_reason e = (if maxTaskInputSize < length raw then ''task input exceeds 1 MiB'' else ''task input is invalid'')"
proof -
  have "contains ''manual input exceeds 1 MiB'' ''exceeds''" "\<not> contains ''manual input is invalid'' ''exceeds''"
    "\<not> contains ''manual input is empty'' ''exceeds''"
    by (simp_all add: contains_def)
  moreover have "e = ErrNew ''manual input exceeds 1 MiB'' \<longleftrightarrow> maxManualInputSize < length raw"
    "e \<in> {ErrNew ''manual input exceeds 1 MiB'', ErrNew ''manual input is invalid'', ErrNew ''manual input is empty''}"
    using assms join_strip_length [of "[LF]" "split_on LF (newlines raw)"] newlines_facts(3) [of raw]
    by (auto simp: NormalizeManualInput_def Let_def split: if_splits)
  ultimately show ?thesis by (auto simp: input_reason_def sizes_agree)
qed

text \<open>
  C23.  Which task inputs a submission accepts.  From the argument, standard input or a file, exactly the
  data that the source delivered completely and without an error, at most 1 MiB of it, and that the
  normaliser accepts; a file must be regular and no larger when it is opened.  Anything else is a failure
  with one of four fixed reasons, and the one that names the limit appears exactly when the source is too
  large; a read that was cancelled is reported as such and never submitted.
\<close>

theorem readTaskInput_correct:
  "case readTaskInput src ctx inlineValue fileValue of
     Inr i \<Rightarrow> normal_instructions (ti_instructions i) \<and>
       (\<exists>raw. input_data src ctx inlineValue fileValue raw \<and> length raw \<le> maxTaskInputSize \<and> NormalizeManualInput raw = Inr i)
   | Inl e \<Rightarrow> is_failure e \<and> SafeReason (Some e) \<in> set input_reasons \<and>
       (SafeReason (Some e) = ''task input exceeds 1 MiB'' \<longleftrightarrow> input_oversized src ctx inlineValue fileValue) \<and>
       (\<nexists>raw i. input_data src ctx inlineValue fileValue raw \<and> length raw \<le> maxTaskInputSize \<and> NormalizeManualInput raw = Inr i)"
proof -
  have read: "readTaskInput src ctx inlineValue fileValue =
      rbind (raw_input src ctx inlineValue fileValue) (\<lambda>raw. map_err (\<lambda>err. NewFailure (input_reason err) err) (NormalizeManualInput raw))"
    by (simp add: readTaskInput_def raw_input_def)
  note raw = raw_input_correct [of src ctx inlineValue fileValue]
  show ?thesis
  proof (cases "raw_input src ctx inlineValue fileValue")
    case (Inl e)
    then show ?thesis using raw by (auto simp: read raw_failure_def Failure_Error_def)
  next
    case (Inr r)
    have only: "s = r" if "input_data src ctx inlineValue fileValue s" for s
      using that raw Inr by (auto simp: input_data_def split: if_splits)
    show ?thesis
    proof (cases "NormalizeManualInput r")
      case (Inl e)
      have failed: "readTaskInput src ctx inlineValue fileValue = Inl (ControlFailure (input_reason e) (Some e))"
        by (simp add: read Inr Inl NewFailure_def)
      have "input_oversized src ctx inlineValue fileValue \<longleftrightarrow> maxTaskInputSize < length r" using raw Inr by simp
      moreover have "Failure_Error (input_reason e) = input_reason e" using input_reason_normalize [OF Inl]
        by (simp add: Failure_Error_def)
      moreover have "NormalizeManualInput s \<noteq> Inr i" if "input_data src ctx inlineValue fileValue s" for s i
        using only [OF that] Inl by simp
      ultimately show ?thesis using input_reason_normalize [OF Inl] unfolding failed
        by (auto simp: input_reasons_def)
    next
      case norm: (Inr i)
      then show ?thesis using raw Inr NormalizeManualInput_normal [OF norm] normalized_within [OF norm]
        by (auto simp: read)
    qed
  qed
qed


end
