(* ===== verification/Command_Runs.thy ===== *)
theory Command_Runs
  imports Command_Properties
begin

text \<open>
  The commands of \<open>main\<close> run on the parts behind them: the report of \<open>delegatd doctor\<close>, and \<open>delegatd task
  submit\<close> followed by \<open>delegatd task show\<close>.
\<close>

section \<open>The doctor command\<close>

text \<open>The text of the report when standard output takes every write.\<close>

definition unlines :: "string list \<Rightarrow> string" where
  "unlines ls = concat (map (\<lambda>l. l @ [LF]) ls)"

definition report_lines :: "int \<Rightarrow> report \<Rightarrow> string list" where
  "report_lines version report =
     (''PASS config: schema version '' @ dec_int version) # map result_line report @
     [if Report_OK report then ''PASS doctor: '' @ dec_nat (length report) @ '' checks passed''
      else ''FAIL doctor: '' @ dec_nat (length (filter (\<lambda>r. re_failure r \<noteq> None) report)) @ '' of '' @
        dec_nat (length report) @ '' checks failed'']"

lemma println_out: "println (\<lambda>_. None) t c = c\<lparr>co_out := co_out c @ t @ [LF], co_writes := Suc (co_writes c)\<rparr>"
  by (simp add: println_def print_def write_out_def)

lemma fold_println:
  "fold (\<lambda>r. println (\<lambda>_. None) (f r)) rs c =
     c\<lparr>co_out := co_out c @ unlines (map f rs), co_writes := co_writes c + length rs\<rparr>"
  by (induction rs arbitrary: c) (simp_all add: unlines_def println_out)

lemma print_report_out:
  "print_report (\<lambda>_. None) version report c =
     (if Report_OK report then 0 else 1,
      c\<lparr>co_out := co_out c @ unlines (report_lines version report), co_writes := co_writes c + length report + 2\<rparr>)"
proof -
  have "Report_OK report \<longleftrightarrow> filter (\<lambda>r. re_failure r \<noteq> None) report = []"
    by (auto simp: Report_OK_def list_all_iff filter_empty_conv)
  then show ?thesis
    by (simp add: print_report_def Let_def fold_println println_out report_lines_def unlines_def)
qed

lemma pair_args_simps:
  "pair_args [] = []" "pair_args ((n, v) # ps) = (''--'' @ n) # v # pair_args ps"
  by (simp_all add: pair_args_def)

lemma check_failure: "ck_probe c \<noteq> None \<Longrightarrow> re_failure (check_result ctx c) = snd (the (ck_probe c) ctx)"
  by (auto simp: check_result_def write_outcome_def write_id_def split: option.split prod.split)

lemma parse_pairs:
  assumes "list_all (\<lambda>(n, v). plain_name n \<and> formal n = Some False) ps"
  shows "parse_flags formal (pair_args ps) [] = Some (ps, [])"
  using parse_flags_pairs [OF assms, of "[]"] by (simp add: flag_arg_def)

text \<open>
  C24.  The report of \<open>delegatd doctor\<close>.  With a configuration path and a positive timeout it loads the
  configuration once, changes nothing and ends with code 0 exactly when every check of the configuration
  passes: when the configuration cannot be loaded two lines say so and the code is 1; otherwise the report
  starts with schema version 1, has one line for every configured connector, workspace provider, agent
  runtime and the store, in the order of their identifiers, and a last line that counts the failures.
\<close>

theorem doctor_command_correct:
  assumes "ce_writer env = (\<lambda>_. None)" and "path \<noteq> ''''" and "ParseDuration t = Some d" "0 < d"
  shows "case main benv sctx env (''doctor'' # pair_args [(''config'', path), (''timeout'', t)]) file of
    ((code, c), file') \<Rightarrow> file' = file \<and> co_err c = '''' \<and>
     (case LoadDoctor benv path of
        Inl f \<Rightarrow> code = 1 \<and> co_out c = unlines [''FAIL config: '' @ safeReason (Some f), ''FAIL doctor: configuration invalid'']
      | Inr (document, checks) \<Rightarrow>
          (\<exists>report. report = Run (ce_timeout env d (ce_ctx env)) checks \<and>
             code = (if list_all (\<lambda>c. snd (the (ck_probe c) (ce_timeout env d (ce_ctx env))) = None) checks then 0 else 1) \<and>
             map re_id report = check_ids (dc_config document) \<and> co_out c = unlines (report_lines 1 report)))"
proof -
  let ?ctx = "ce_timeout env d (ce_ctx env)"
  have parsed: "parse_flags (value_flags [''config'', ''timeout'']) (pair_args [(''config'', path), (''timeout'', t)]) [] =
      Some ([(''config'', path), (''timeout'', t)], [])"
    by (rule parse_pairs) (simp add: plain_name_def value_flags_def)
  have run: "main benv sctx env (''doctor'' # pair_args [(''config'', path), (''timeout'', t)]) file =
      (runDoctor env (pair_args [(''config'', path), (''timeout'', t)]) (Some (LoadDoctor benv)) silent, file)"
    by (simp add: main_def run_command_def main_dependencies_def)
  have doctor: "runDoctor env (pair_args [(''config'', path), (''timeout'', t)]) (Some (LoadDoctor benv)) silent =
      (case LoadDoctor benv path of
         Inl f \<Rightarrow> (1, println (\<lambda>_. None) (''FAIL config: '' @ safeReason (Some f) @ [LF] @ ''FAIL doctor: configuration invalid'') silent)
       | Inr (document, checks) \<Rightarrow> print_report (\<lambda>_. None) (cf_version (dc_config document)) (Run ?ctx checks) silent)"
    using assms by (simp add: runDoctor_def parsed Let_def wants_help_def flag_bool_def flag_string_def)
  show ?thesis
  proof (cases "LoadDoctor benv path")
    case (Inl f)
    then show ?thesis unfolding run doctor by (simp add: println_out silent_def unlines_def)
  next
    case (Inr p)
    obtain document checks where p: "p = (document, checks)" by (cases p)
    then have load: "Load (be_files benv) (be_yaml benv) (be_config benv) path = Inr document"
      and checks: "checks = document_checks benv document"
      using Inr by (auto simp: LoadDoctor_def split: sum.splits)
    have version: "cf_version (dc_config document) = 1" using Load_valid [OF load] by (simp add: config_valid_def)
    have ids: "map ck_id checks = check_ids (dc_config document)" "list_all (\<lambda>c. ck_probe c \<noteq> None) checks"
      using document_checks_ids checks by blast+
    have "map re_id (Run ?ctx checks) = map ck_id checks"
      by (simp add: Run_def check_result_def write_outcome_def write_id_def split: option.split prod.split)
    moreover have "Report_OK (Run ?ctx checks) \<longleftrightarrow> list_all (\<lambda>c. snd (the (ck_probe c) ?ctx) = None) checks"
      using ids(2) check_failure by (auto simp: Report_OK_def Run_def list_all_iff)
    ultimately show ?thesis
      unfolding run doctor Inr p by (simp add: print_report_out version ids(1) silent_def)
  qed
qed


section \<open>The task commands\<close>

text \<open>The commands over chosen seams of \<open>taskOptions\<close>; \<open>main\<close> is the case of the defaults.\<close>

definition task_dependencies :: "'k boot_env \<Rightarrow> gctx \<Rightarrow> taskOptions \<Rightarrow> path_file option commandDependencies" where
  "task_dependencies benv sctx options =
     \<lparr>cd_loadDoctor = Some (LoadDoctor benv),
      cd_submitTask = Some (\<lambda>ctx configPath resourceName input. submitTask benv ctx sctx configPath resourceName input options),
      cd_showTask = Some (\<lambda>ctx configPath i. showTask benv ctx configPath i options)\<rparr>"

lemma main_task_dependencies: "main_dependencies benv sctx = task_dependencies benv sctx (defaultTaskOptions benv)"
  by (simp add: main_dependencies_def task_dependencies_def fun_eq_iff SubmitTask_def ShowTask_def)

definition submit_args :: "string \<Rightarrow> string \<Rightarrow> string \<Rightarrow> string list" where
  "submit_args path rn text = [''task'', ''submit''] @ pair_args [(''config'', path), (''resource'', rn), (''input'', text)]"

definition show_args :: "string \<Rightarrow> task_id \<Rightarrow> string list" where
  "show_args path i = [''task'', ''show''] @ pair_args [(''config'', path)] @ [i]"

definition id_line :: "task_id \<Rightarrow> string" where
  "id_line i = enc False (JObj [(''task_id'', JStr i)]) @ [LF]"

lemma readTaskInput_inline: "readTaskInput src ctx text '''' = map_err (\<lambda>err. NewFailure (input_reason err) err) (NormalizeManualInput text)"
  by (simp add: readTaskInput_def)

lemma submit_command:
  assumes "ce_writer env = (\<lambda>_. None)" "path \<noteq> ''''" "rn \<noteq> ''''"
  shows "run_command env (submit_args path rn text) (task_dependencies benv sctx options) silent file =
    (case NormalizeManualInput text of
       Inl e \<Rightarrow> (writeTaskFailure (\<lambda>_. None) (NewFailure (input_reason e) e) silent, file)
     | Inr input \<Rightarrow>
         (case submitTask benv (ctx_from 1 (ce_ctx env)) sctx path rn input options file of
            (Inl e, file') \<Rightarrow> (writeTaskFailure (\<lambda>_. None) e silent, file')
          | (Inr t, file') \<Rightarrow> ((0, println (\<lambda>_. None) (enc False (JObj [(''task_id'', JStr (tk_id t))])) silent), file')))"
proof -
  have parsed: "parse_flags (value_flags [''config'', ''resource'', ''input'', ''input-file''])
      (pair_args [(''config'', path), (''resource'', rn), (''input'', text)]) [] =
      Some ([(''config'', path), (''resource'', rn), (''input'', text)], [])"
    by (rule parse_pairs) (simp add: plain_name_def value_flags_def)
  have written: "finish_JSON (\<lambda>_. None) (encode_task_id i) c = (0, println (\<lambda>_. None) (enc False (JObj [(''task_id'', JStr i)])) c)" for i c
    by (simp add: finish_JSON_def writeJSON_def encode_task_id_def println_out write_out_def)
  show ?thesis
    using assms
    by (simp add: submit_args_def run_command_def runTask_def runTaskSubmit_def task_dependencies_def parsed Let_def wants_help_def
        flag_bool_def flag_string_def readTaskInput_inline written split: sum.split prod.split)
qed

lemma flag_arg_id: "ParseTaskID i = Inr j \<Longrightarrow> flag_arg [i] = Rest [i] \<and> j = i"
  by (auto simp: result_simps flag_arg_def)


lemma show_command:
  assumes "ce_writer env = (\<lambda>_. None)" "path \<noteq> ''''" "is_ok (ParseTaskID i)"
  shows "run_command env (show_args path i) (task_dependencies benv sctx options) silent file =
    (case showTask benv (ce_ctx env) path i options file of
       Inl e \<Rightarrow> (writeTaskFailure (\<lambda>_. None) e silent, file)
     | Inr t \<Rightarrow> (finish_JSON (\<lambda>_. None) (encode_Task (ce_local env) t) silent, file))"
proof -
  have i: "ParseTaskID i = Inr i" using assms(3) by (auto simp: is_ok_iff result_simps)
  have parsed: "parse_flags (value_flags [''config'']) (pair_args [(''config'', path)] @ [i]) [] = Some ([(''config'', path)], [i])"
    using parse_flags_pairs [of "value_flags [''config'']" "[(''config'', path)]" "[i]" "[i]" "[]"] flag_arg_id [OF i]
    by (simp add: plain_name_def value_flags_def)
  show ?thesis
    using assms(1,2) i
    by (simp add: show_args_def run_command_def runTask_def runTaskShow_def task_dependencies_def parsed Let_def wants_help_def
        flag_bool_def flag_string_def split: sum.split)
qed

text \<open>What a submission does, seen from the command: the identifier it prints and the task behind it.\<close>

lemma submit_command_ok:
  assumes "ce_writer env = (\<lambda>_. None)" "path \<noteq> ''''" "rn \<noteq> ''''"
    and "main benv sctx env (submit_args path rn text) file = ((0, c), file')"
  obtains input t where "NormalizeManualInput text = Inr input"
    "SubmitTask benv (ctx_from 1 (ce_ctx env)) sctx path rn input file = (Inr t, file')" "co_out c = id_line (tk_id t)"
  using assms(4) unfolding main_def main_task_dependencies submit_command [OF assms(1-3)] SubmitTask_def
  by (auto simp: writeTaskFailure_def println_out silent_def id_line_def split: sum.splits prod.splits)

lemma unsupported_store_line:
  "writeTaskFailure (\<lambda>_. None) unsupported_store silent =
     (1, println (\<lambda>_. None) ''FAIL task: state store is unavailable'' silent)"
  unfolding writeTaskFailure_def unsupported_store_def NewFailure_def SafeReason_def as_failure_def
  by (subst chain.simps) (simp add: Failure_Error_def)



section \<open>A deployment\<close>

definition deployment_console :: command_env where
  "deployment_console =
     \<lparr>ce_ctx = None, ce_timeout = (\<lambda>timeout ctx. ctx),
      ce_input = \<lparr>is_stdin = None, is_stat = (\<lambda>path. Inl (ErrNew ''absent'')), is_open = (\<lambda>path. None),
        is_read = (\<lambda>path. ('''', None)), is_close = (\<lambda>path. None)\<rparr>,
      ce_writer = (\<lambda>k. None), ce_local = (\<lambda>sec. 0)\<rparr>"

lemma doctor_command_witness:
  "snd (main deployment_env None deployment_console [''doctor'', ''--config'', ''/c'', ''--timeout'', ''1m0s''] None) = None"
proof -
  have digits: "digit 0 = CHR ''0''" "digit 1 = CHR ''1''" by code_simp+
  have zeros: "digits_msb k 0 = replicate k (CHR ''0'')" for k by (induction k) (simp_all add: digits)
  have "fmtFrac 9 0 = ''''" by (simp add: fmtFrac_def trim_zeros_def zeros)
  then have "Duration_String 60000000000 = ''1m0s''" by (simp add: Duration_String_def dec_nat.simps digits [unfolded One_nat_def])
  then have "ParseDuration ''1m0s'' = Some 60000000000"
    using ParseDuration_String [of 60000000000] by (simp add: int64_def)
  with doctor_command_correct [of deployment_console "''/c''" "''1m0s''" 60000000000 None deployment_env None]
  show ?thesis by (simp add: deployment_console_def pair_args_simps split: prod.splits)
qed

lemma deployment_text: "normal_instructions ''do it''"
proof -
  have "strip_one space_runes ''do it'' = None"
    unfolding strip_one_None_iff
  proof (intro ballI impI notI)
    fix p assume p: "p \<in> set space_runes" "p \<noteq> []" "prefix p ''do it''"
    have "hd p = CHR ''d''" using p(2,3) by (cases p) auto
    with space_runes_heads [OF p(1)] show False by (simp add: byte_def)
  qed
  moreover have "strip_one (map rev space_runes) (rev ''do it'') = None"
    unfolding strip_one_None_iff
  proof (intro ballI impI notI)
    fix q assume q: "q \<in> set (map rev space_runes)" "q \<noteq> []" "prefix q (rev ''do it'')"
    then obtain p where p: "p \<in> set space_runes" "q = rev p" by auto
    then have "last p = CHR ''t''" using q(2,3) by (cases p rule: rev_cases) auto
    with space_runes_heads [OF p(1)] show False by (simp add: byte_def)
  qed
  ultimately have "\<not> blank_line ''do it''"
    by (simp add: blank_line_def trim_space_def trim_left_def trim_right_def strip_all_fixed)
  then show ?thesis by (simp add: normal_instructions_def maxManualInputSize_def NUL_def CR_def LF_def byte_def)
qed


end
