(* ===== verification/Release_Files.thy ===== *)
theory Release_Files
  imports Go_Path "HOL-Library.Char_ord" "HOL-Library.List_Lexorder"
begin

text \<open>
  The file system the release tool works on, and \<open>writeAtomic\<close> of \<open>internal/releasetool/main.go\<close>.  A disk maps
  absolute clean paths to files; relative paths are resolved lexically from the working directory (symbolic links
  are not modelled).  Every system call the tool makes can fail: the operating system's record gives, per call,
  the text of an unconditional failure.  Errors are their texts, since the tool only prints them.
\<close>

section \<open>Disks\<close>

text \<open>A special file is a device or a pipe, with the bytes that reading it gives.\<close>

datatype node = Regular string nat | Directory | Special string

type_synonym disk = "(string \<times> node) list"

type_synonym 'a fallible = "string + 'a"

text \<open>
  \<open>os_room\<close> is the number of bytes that can still be written and the error of the write that exceeds it;
  \<open>os_read\<close> the number of bytes that can be read from a file and the error that follows them;
  \<open>os_random\<close> the random numbers of the temporary names.
\<close>

record os =
  os_cwd :: string
  os_getwd :: "string option"
  os_open :: "string \<Rightarrow> string option"
  os_stat :: "string \<Rightarrow> string option"
  os_info :: "string \<Rightarrow> string option"
  os_readdir :: "string \<Rightarrow> string option"
  os_read :: "string \<Rightarrow> (nat \<times> string) option"
  os_close :: "string \<Rightarrow> string option"
  os_create :: "string \<Rightarrow> string option"
  os_room :: "(nat \<times> string) option"
  os_sync :: "string \<Rightarrow> string option"
  os_chmod :: "string \<Rightarrow> string option"
  os_rename :: "string \<Rightarrow> string option"
  os_remove :: "string \<Rightarrow> string option"
  os_random :: "nat \<Rightarrow> nat"

definition resolve :: "os \<Rightarrow> string \<Rightarrow> string" where
  "resolve os p = filepath_Clean (if filepath_IsAbs p then p else os_cwd os @ ''/'' @ p)"

definition Abs_path :: "os \<Rightarrow> string \<Rightarrow> string fallible" where
  "Abs_path os p = filepath_Abs (case os_getwd os of Some e \<Rightarrow> Inl e | None \<Rightarrow> Inr (os_cwd os)) p"

definition node_at :: "os \<Rightarrow> disk \<Rightarrow> string \<Rightarrow> node option" where
  "node_at os d p = (if p = [] then None else map_of d (resolve os p))"

text \<open>A path error; a path through something that is no directory has an error of its own.\<close>

definition path_error :: "string \<Rightarrow> string \<Rightarrow> string \<Rightarrow> string" where
  "path_error op p e = op @ '' '' @ p @ '': '' @ e"

definition through_file :: "os \<Rightarrow> disk \<Rightarrow> string \<Rightarrow> bool" where
  "through_file os d p \<longleftrightarrow>
     p \<noteq> [] \<and> list_ex (\<lambda>(q, n). n \<noteq> Directory \<and> prefix (q @ ''/'') (resolve os p)) d"

definition missing :: "os \<Rightarrow> disk \<Rightarrow> string \<Rightarrow> string" where
  "missing os d p =
     path_error ''open'' p (if through_file os d p then ''not a directory'' else ''no such file or directory'')"

section \<open>Reading\<close>

definition Open :: "os \<Rightarrow> disk \<Rightarrow> string \<Rightarrow> node fallible" where
  "Open os d p =
     (case os_open os p of Some e \<Rightarrow> Inl e
      | None \<Rightarrow> (case node_at os d p of None \<Rightarrow> Inl (missing os d p) | Some n \<Rightarrow> Inr n))"

text \<open>The bytes an open file gives, and the error that ends them if they do not end with the file.\<close>

definition contents :: "os \<Rightarrow> string \<Rightarrow> node \<Rightarrow> string \<times> string option" where
  "contents os p n =
     (case n of Directory \<Rightarrow> ([], Some (path_error ''read'' p ''is a directory''))
      | Regular c m \<Rightarrow> (case os_read os p of Some (k, e) \<Rightarrow> (take k c, Some e) | None \<Rightarrow> (c, None))
      | Special c \<Rightarrow> (case os_read os p of Some (k, e) \<Rightarrow> (take k c, Some e) | None \<Rightarrow> (c, None)))"

definition is_regular :: "node \<Rightarrow> bool" where
  "is_regular n = (case n of Regular c m \<Rightarrow> True | _ \<Rightarrow> False)"

text \<open>\<open>FileInfo.Size\<close> of a regular file.\<close>

definition node_size :: "node \<Rightarrow> nat" where
  "node_size n = (case n of Regular c m \<Rightarrow> length c | _ \<Rightarrow> 0)"

text \<open>\<open>os.ReadDir\<close>: the names in a directory, sorted.\<close>

definition children :: "disk \<Rightarrow> string \<Rightarrow> string list" where
  "children d q = sort (map (\<lambda>(k, n). filepath_Base k) (filter (\<lambda>(k, n). k \<noteq> q \<and> filepath_Dir k = q) d))"

definition ReadDir :: "os \<Rightarrow> disk \<Rightarrow> string \<Rightarrow> string list fallible" where
  "ReadDir os d p =
     (case os_readdir os p of Some e \<Rightarrow> Inl e
      | None \<Rightarrow>
        (case node_at os d p of None \<Rightarrow> Inl (missing os d p)
         | Some n \<Rightarrow>
           if n = Directory then Inr (children d (resolve os p)) else Inl (path_error ''open'' p ''not a directory'')))"

section \<open>Temporary files\<close>

text \<open>
  \<open>os.CreateTemp\<close>: names are tried until one is free, ten thousand at most; the file is created empty, readable by
  its owner only.  \<open>n\<close> is the number of attempts left and \<open>i\<close> the number made.
\<close>

fun try_names :: "os \<Rightarrow> disk \<Rightarrow> string \<Rightarrow> nat \<Rightarrow> nat \<Rightarrow> (string \<times> disk) fallible" where
  "try_names os d pre 0 i = Inl (path_error ''createtemp'' (pre @ ''*'') ''file already exists'')"
| "try_names os d pre (Suc n) i =
     (let p = pre @ dec_nat (os_random os i mod 2 ^ 32); q = resolve os p in
      case os_create os p of Some e \<Rightarrow> Inl e
      | None \<Rightarrow>
        if map_of d (filepath_Dir q) \<noteq> Some Directory then Inl (missing os d p)
        else if map_of d q \<noteq> None then try_names os d pre n (Suc i)
        else Inr (p, AList.update q (Regular [] 0x180) d))"

definition max_attempts :: nat where "max_attempts = 10000"

definition CreateTemp :: "os \<Rightarrow> disk \<Rightarrow> string \<Rightarrow> string \<Rightarrow> (string \<times> disk) fallible" where
  "CreateTemp os d dir stem =
     (if CHR ''/'' \<in> set stem
      then Inl (path_error ''createtemp'' (stem @ ''*'') ''pattern contains path separator'')
      else try_names os d (if prefix ''/'' (rev dir) then dir @ stem else dir @ ''/'' @ stem) max_attempts 0)"

section \<open>Writing\<close>

text \<open>A body gives the bytes it writes, in order, and the error it returns after them; it may read the disk.\<close>

type_synonym body = "disk \<Rightarrow> string \<times> string option"

definition write_body :: "os \<Rightarrow> string \<times> string option \<Rightarrow> string \<times> string option" where
  "write_body os r =
     (case os_room os of None \<Rightarrow> r
      | Some (k, e) \<Rightarrow> if k < length (fst r) then (take k (fst r), Some e) else r)"

text \<open>The mode of a file, in octal 600 and 644 as the source writes them.\<close>

definition put :: "os \<Rightarrow> string \<Rightarrow> string \<Rightarrow> nat \<Rightarrow> disk \<Rightarrow> disk" where
  "put os p c m d = AList.update (resolve os p) (Regular c m) d"

definition Remove :: "os \<Rightarrow> string \<Rightarrow> disk \<Rightarrow> disk" where
  "Remove os p d = (case os_remove os p of Some e \<Rightarrow> d | None \<Rightarrow> AList.delete (resolve os p) d)"

definition Rename :: "os \<Rightarrow> string \<Rightarrow> string \<Rightarrow> disk \<Rightarrow> disk fallible" where
  "Rename os p q d =
     (case os_rename os q of Some e \<Rightarrow> Inl e
      | None \<Rightarrow>
        (case map_of d (resolve os p) of None \<Rightarrow> Inl (path_error ''rename'' (p @ '' '' @ q) ''no such file or directory'')
         | Some n \<Rightarrow>
           if map_of d (resolve os q) = Some Directory
           then Inl (path_error ''rename'' (p @ '' '' @ q) ''file exists'')
           else Inr (AList.update (resolve os q) n (AList.delete (resolve os p) d))))"

text \<open>The steps after the temporary file exists, each with the error it returns.\<close>

definition fill_temporary :: "os \<Rightarrow> string \<Rightarrow> string \<Rightarrow> body \<Rightarrow> disk \<Rightarrow> string option \<times> disk" where
  "fill_temporary os tmp path body d =
     (case write_body os (body d) of (c, err) \<Rightarrow>
        let d1 = put os tmp c 0x180 d in
        case err of Some e \<Rightarrow> (Some (''write output: '' @ e), d1)
        | None \<Rightarrow>
          case os_sync os tmp of Some e \<Rightarrow> (Some (''sync output: '' @ e), d1)
          | None \<Rightarrow>
            case os_close os tmp of Some e \<Rightarrow> (Some (''close output: '' @ e), d1)
            | None \<Rightarrow>
              case os_chmod os tmp of Some e \<Rightarrow> (Some (''set output mode: '' @ e), d1)
              | None \<Rightarrow>
                let d2 = put os tmp c 0x1A4 d1 in
                case Rename os tmp path d2 of Inl e \<Rightarrow> (Some (''replace output: '' @ e), d2)
                | Inr d3 \<Rightarrow> (None, d3))"

definition writeAtomic :: "os \<Rightarrow> disk \<Rightarrow> string \<Rightarrow> body \<Rightarrow> unit fallible \<times> disk" where
  "writeAtomic os d path body =
     (if path = [] then (Inl ''output path is required'', d)
      else
        case CreateTemp os d (filepath_Dir path) (''.'' @ filepath_Base path @ ''.tmp-'') of
          Inl e \<Rightarrow> (Inl (''create temporary output: '' @ e), d)
        | Inr (tmp, d1) \<Rightarrow>
          (case fill_temporary os tmp path body d1 of
             (Some e, d2) \<Rightarrow> (Inl e, Remove os tmp d2)
           | (None, d2) \<Rightarrow> (Inr (), d2)))"

section \<open>All or nothing\<close>

lemma map_of_delete [simp]: "map_of (AList.delete k m) = (map_of m)(k := None)"
  by (rule delete_conv')

lemma try_names_fresh:
  assumes "try_names os d pre n i = Inr (tmp, d1)"
  shows "map_of d (resolve os tmp) = None" and "d1 = AList.update (resolve os tmp) (Regular [] 0x180) d"
    and "map_of d (filepath_Dir (resolve os tmp)) = Some Directory" and "\<exists>k. tmp = pre @ dec_nat k"
  using assms
  by (induction os d pre n i rule: try_names.induct) (auto simp: Let_def split: option.splits if_splits)

lemma CreateTemp_fresh:
  assumes "CreateTemp os d dir stem = Inr (tmp, d1)"
  shows "map_of d (resolve os tmp) = None" and "d1 = AList.update (resolve os tmp) (Regular [] 0x180) d"
  using assms try_names_fresh [of os d _ max_attempts 0 tmp d1]
  by (auto simp: CreateTemp_def split: if_splits)

text \<open>The temporary file may change as it likes: every step leaves the other files alone until the renaming.\<close>

definition same_but :: "string \<Rightarrow> disk \<Rightarrow> disk \<Rightarrow> bool" where
  "same_but q d d' \<longleftrightarrow> (map_of d')(q := None) = (map_of d)(q := None)"

lemma same_but_put: "same_but (resolve os p) d (put os p c m d') \<longleftrightarrow> same_but (resolve os p) d d'"
  by (simp add: same_but_def put_def map_of_update)

lemma fill_temporary_failed:
  assumes "fill_temporary os tmp path body d = (Some e, d')"
  shows "same_but (resolve os tmp) d d'"
  using assms
  by (auto simp: fill_temporary_def Let_def same_but_put split: prod.splits option.splits sum.splits)
    (simp_all add: same_but_def)

lemma fill_temporary_done:
  assumes "fill_temporary os tmp path body d = (None, d')"
  obtains c where "body d = (c, None)"
    and "map_of d' = (map_of d)(resolve os tmp := None, resolve os path \<mapsto> Regular c 0x1A4)"
proof -
  obtain c err where b: "body d = (c, err)" by (cases "body d")
  have "write_body os (body d) = (c, None) \<and> err = None \<and>
      map_of d' = (map_of d)(resolve os tmp := None, resolve os path \<mapsto> Regular c 0x1A4)"
    using assms
    by (auto simp: fill_temporary_def b write_body_def Let_def Rename_def put_def map_of_update
        split: option.splits sum.splits if_splits prod.splits)
  with b that show ?thesis by simp
qed

text \<open>What every output of the tool is written through: a disk changes as a whole or not at all.\<close>

definition keeps :: "disk \<Rightarrow> disk \<Rightarrow> bool" where
  "keeps d d' \<longleftrightarrow> map_of d \<subseteq>\<^sub>m map_of d'"

lemma writeAtomic_failed:
  assumes "writeAtomic os d path body = (Inl e, d')"
  shows "keeps d d'" and "(\<And>p. os_remove os p = None) \<Longrightarrow> map_of d' = map_of d"
proof -
  have "keeps d d' \<and> ((\<forall>p. os_remove os p = None) \<longrightarrow> map_of d' = map_of d)"
  proof (cases "d' = d")
    case False
    with assms obtain tmp d1 d2 where t: "CreateTemp os d (filepath_Dir path) (''.'' @ filepath_Base path @ ''.tmp-'') = Inr (tmp, d1)"
      "fill_temporary os tmp path body d1 = (Some e, d2)" "d' = Remove os tmp d2"
      by (auto simp: writeAtomic_def split: if_splits sum.splits prod.splits option.splits)
    note fresh = CreateTemp_fresh [OF t(1)]
    have "same_but (resolve os tmp) d1 d2" by (rule fill_temporary_failed [OF t(2)])
    then have "(map_of d2)(resolve os tmp := None) = map_of d"
      using fresh by (auto simp: same_but_def map_of_update)
    moreover from this have "map_of d \<subseteq>\<^sub>m map_of d2" by (metis upd_None_map_le)
    ultimately show ?thesis using t(3) by (auto simp: Remove_def keeps_def split: option.split)
  qed (simp add: keeps_def)
  then show "keeps d d'" "(\<And>p. os_remove os p = None) \<Longrightarrow> map_of d' = map_of d" by simp_all
qed

lemma writeAtomic_done:
  assumes "writeAtomic os d path body = (Inr u, d')"
  obtains d1 c where "keeps d d1" "body d1 = (c, None)"
    "map_of d' = (map_of d)(resolve os path \<mapsto> Regular c 0x1A4)"
proof -
  from assms obtain tmp d1 where t: "CreateTemp os d (filepath_Dir path) (''.'' @ filepath_Base path @ ''.tmp-'') = Inr (tmp, d1)"
    "fill_temporary os tmp path body d1 = (None, d')"
    by (auto simp: writeAtomic_def split: if_splits sum.splits prod.splits option.splits)
  note fresh = CreateTemp_fresh [OF t(1)]
  from t(2) obtain c where c: "body d1 = (c, None)"
    "map_of d' = (map_of d1)(resolve os tmp := None, resolve os path \<mapsto> Regular c 0x1A4)"
    by (rule fill_temporary_done)
  have "keeps d d1" using fresh by (auto simp: keeps_def map_le_def map_of_update)
  moreover have "(map_of d1)(resolve os tmp := None) = map_of d" using fresh by (auto simp: map_of_update)
  ultimately show ?thesis using that c by metis
qed

section \<open>When nothing fails\<close>

definition healthy :: "os \<Rightarrow> bool" where
  "healthy os \<longleftrightarrow>
     filepath_IsAbs (os_cwd os) \<and> os_getwd os = None \<and> os_open os = (\<lambda>p. None) \<and> os_stat os = (\<lambda>p. None) \<and> os_info os = (\<lambda>p. None) \<and>
     os_readdir os = (\<lambda>p. None) \<and> os_read os = (\<lambda>p. None) \<and> os_close os = (\<lambda>p. None) \<and>
     os_room os = None \<and> os_sync os = (\<lambda>p. None) \<and> os_chmod os = (\<lambda>p. None) \<and> os_rename os = (\<lambda>p. None)"

text \<open>A path the tool can write: a temporary file can be created beside it, and it is no directory.\<close>

definition writable :: "os \<Rightarrow> disk \<Rightarrow> string \<Rightarrow> bool" where
  "writable os d path \<longleftrightarrow>
     path \<noteq> [] \<and> is_ok (CreateTemp os d (filepath_Dir path) (''.'' @ filepath_Base path @ ''.tmp-'')) \<and>
     map_of d (resolve os path) \<noteq> Some Directory"

definition temporary_stem :: "string \<Rightarrow> string" where
  "temporary_stem path =
     (let dir = filepath_Dir path; stem = ''.'' @ filepath_Base path @ ''.tmp-''
      in if prefix ''/'' (rev dir) then dir @ stem else dir @ ''/'' @ stem)"

lemma writableI:
  assumes "path \<noteq> []" and "CHR ''/'' \<notin> set (filepath_Base path)" and "os_create os = (\<lambda>p. None)"
    and "resolve os (temporary_stem path @ dec_nat (os_random os 0 mod 2 ^ 32)) = q"
    and "map_of d (filepath_Dir q) = Some Directory" and "map_of d q = None"
    and "map_of d (resolve os path) \<noteq> Some Directory"
  shows "writable os d path"
proof -
  obtain n where n: "max_attempts = Suc n" by (cases max_attempts) (simp_all add: max_attempts_def)
  have "is_ok (try_names os d (temporary_stem path) max_attempts 0)"
    unfolding n try_names.simps Let_def using assms(3-6) by simp
  then show ?thesis
    using assms(1,2,7) by (auto simp: writable_def CreateTemp_def temporary_stem_def Let_def)
qed

lemma writeAtomic_succeeds:
  assumes "healthy os" and "writable os d path" and "\<And>d1. keeps d d1 \<Longrightarrow> body d1 = (c, None)"
  shows "\<exists>d'. writeAtomic os d path body = (Inr (), d') \<and> map_of d' = (map_of d)(resolve os path \<mapsto> Regular c 0x1A4)"
proof -
  obtain tmp d1 where t: "CreateTemp os d (filepath_Dir path) (''.'' @ filepath_Base path @ ''.tmp-'') = Inr (tmp, d1)"
    using assms(2) by (auto simp: writable_def is_ok_iff)
  note fresh = CreateTemp_fresh [OF t]
  have "keeps d d1" using fresh by (auto simp: keeps_def map_le_def map_of_update)
  then have body: "body d1 = (c, None)" by (rule assms(3))
  let ?d2 = "put os tmp c 0x1A4 (put os tmp c 0x180 d1)"
  have "map_of ?d2 (resolve os path) \<noteq> Some Directory"
    using assms(2) fresh by (simp add: put_def map_of_update writable_def)
  then obtain d3 where r: "Rename os tmp path ?d2 = Inr d3"
    using assms(1) by (simp add: Rename_def healthy_def put_def map_of_update)
  have "writeAtomic os d path body = (Inr (), d3)"
    using assms(1,2) t body r
    by (simp add: writeAtomic_def writable_def fill_temporary_def write_body_def healthy_def Let_def)
  moreover from writeAtomic_done [OF this] body
  have "map_of d3 = (map_of d)(resolve os path \<mapsto> Regular c 0x1A4)"
    by (metis assms(3) prod.inject)
  ultimately show ?thesis by blast
qed

lemma Open_healthy: "healthy os \<Longrightarrow> Open os d p = Inr n \<longleftrightarrow> node_at os d p = Some n"
  by (simp add: Open_def healthy_def split: option.split)

lemma contents_healthy: "healthy os \<Longrightarrow> contents os p (Regular c m) = (c, None)"
  by (simp add: contents_def healthy_def)

lemma Abs_path_healthy:
  assumes "healthy os"
  shows "Abs_path os p = Inr (resolve os p)"
proof -
  have "os_cwd os \<noteq> []" using assms by (auto simp: healthy_def filepath_IsAbs_def)
  then show ?thesis using assms by (simp add: Abs_path_def filepath_Abs_def resolve_def healthy_def)
qed

lemma node_at_keeps: "keeps d d' \<Longrightarrow> node_at os d p = Some n \<Longrightarrow> node_at os d' p = Some n"
  by (auto simp: node_at_def keeps_def map_le_def dom_def split: if_splits)

end
