(* ===== verification/Archive_Format.thy ===== *)
theory Archive_Format
  imports Go_Instant Utf8_Text "HOL-Library.Word"
begin

text \<open>
  What the release tool uses of \<open>archive/tar\<close>, \<open>compress/gzip\<close> and \<open>archive/zip\<close>: the bytes of a USTAR
  archive with one regular file, of the gzip frame around a deflated stream, and of a zip archive with one stored
  file.  The deflate encoder is a parameter, and so is the decoder of the readers, which inverts it
  (\<open>inverts\<close>).  For each container a reader, and the theorem that it finds in the written bytes what was put there.
\<close>

section \<open>Unix times\<close>

definition wrap64 :: "int \<Rightarrow> int" where
  "wrap64 i = (i + 2 ^ 63) mod 2 ^ 64 - 2 ^ 63"

text \<open>\<open>time.Unix(sec, 0).UTC()\<close>: the seconds since year 1 are an \<open>int64\<close> that wraps.\<close>

definition unix_epoch :: int where "unix_epoch = 62135596800"

definition unix_time :: "int \<Rightarrow> gotime" where
  "unix_time sec = \<lparr>t_sec = wrap64 (sec + unix_epoch), t_nsec = 0, t_loc = UTC, t_mono = None\<rparr>"

definition Unix_sec :: "gotime \<Rightarrow> int" where
  "Unix_sec t = wrap64 (t_sec t - unix_epoch)"

text \<open>
  The calendar fields are computed from the unsigned count of seconds since the package's absolute year zero,
  \<open>292277022400\<close> years before year 0 and starting in March; \<open>civil_time\<close> is the instant they describe.
\<close>

definition absolute_offset :: int where
  "absolute_offset = unix_epoch + (292277022400 * 3652425 div 10000 + 306) * 86400"

definition civil_time :: "gotime \<Rightarrow> gotime" where
  "civil_time t =
     t\<lparr>t_sec := (Unix_sec t + absolute_offset) mod 2 ^ 64 - absolute_offset + unix_epoch\<rparr>"

section \<open>Bytes\<close>

text \<open>The \<open>k\<close> low bytes of a number, least significant first.\<close>

fun le_bytes :: "nat \<Rightarrow> nat \<Rightarrow> string" where
  "le_bytes 0 n = []"
| "le_bytes (Suc k) n = char_of (n mod 256) # le_bytes k (n div 256)"

fun le_val :: "string \<Rightarrow> nat" where
  "le_val [] = 0"
| "le_val (c # s) = byte c + 256 * le_val s"

definition int_bytes :: "nat \<Rightarrow> int \<Rightarrow> string" where
  "int_bytes k i = le_bytes k (nat (i mod 256 ^ k))"

text \<open>A NUL-padded field of \<open>k\<close> bytes.\<close>

definition field :: "nat \<Rightarrow> string \<Rightarrow> string" where
  "field k s = take k s @ replicate (k - length s) NUL"

text \<open>CRC-32 with the IEEE polynomial, one bit at a time.\<close>

definition crc_bit :: "32 word \<Rightarrow> 32 word" where
  "crc_bit c = (if bit c 0 then xor (drop_bit 1 c) 0xEDB88320 else drop_bit 1 c)"

definition crc_byte :: "32 word \<Rightarrow> char \<Rightarrow> 32 word" where
  "crc_byte c b = (crc_bit ^^ 8) (xor c (word_of_nat (byte b)))"

definition crc32 :: "string \<Rightarrow> nat" where
  "crc32 s = unat (not (foldl crc_byte (not 0) s))"

section \<open>USTAR\<close>

record tar_header =
  th_name :: string
  th_mode :: nat
  th_uid :: nat
  th_gid :: nat
  th_size :: nat
  th_mtime :: gotime
  th_type :: char
  th_uname :: string
  th_gname :: string

text \<open>A number in octal: \<open>k - 1\<close> digits and a NUL.\<close>

fun octal_digits :: "nat \<Rightarrow> nat \<Rightarrow> string" where
  "octal_digits 0 n = []"
| "octal_digits (Suc k) n = octal_digits k (n div 8) @ [digit (n mod 8)]"

definition octal_field :: "nat \<Rightarrow> nat \<Rightarrow> string" where
  "octal_field k n = octal_digits (k - 1) n @ [NUL]"

text \<open>The zero time is written as the Unix epoch.\<close>

definition tar_mtime :: "tar_header \<Rightarrow> int" where
  "tar_mtime h = (if time_IsZero (th_mtime h) then 0 else Unix_sec (th_mtime h))"

text \<open>
  \<open>allowedFormats\<close> for \<open>FormatUSTAR\<close>: the strings are ASCII without NUL and fit their fields (a name without a
  slash cannot be split into prefix and suffix), and the numbers fit their octal fields.
\<close>

definition tar_text :: "nat \<Rightarrow> string \<Rightarrow> bool" where
  "tar_text k s \<longleftrightarrow> list_all (\<lambda>c. 0 < byte c \<and> byte c < 128) s \<and> length s \<le> k"

definition ustar_ok :: "tar_header \<Rightarrow> bool" where
  "ustar_ok h \<longleftrightarrow>
     tar_text 100 (th_name h) \<and> tar_text 32 (th_uname h) \<and> tar_text 32 (th_gname h) \<and>
     th_mode h < 8 ^ 7 \<and> th_uid h < 8 ^ 7 \<and> th_gid h < 8 ^ 7 \<and> th_size h < 8 ^ 11 \<and>
     0 \<le> tar_mtime h \<and> tar_mtime h < 8 ^ 11"

text \<open>The header block around its checksum field; the checksum counts that field as eight spaces.\<close>

definition tar_before :: "tar_header \<Rightarrow> string" where
  "tar_before h =
     field 100 (th_name h) @ octal_field 8 (th_mode h) @ octal_field 8 (th_uid h) @ octal_field 8 (th_gid h) @
     octal_field 12 (th_size h) @ octal_field 12 (nat (tar_mtime h))"

definition tar_after :: "tar_header \<Rightarrow> string" where
  "tar_after h =
     [th_type h] @ field 100 [] @ ''ustar'' @ [NUL] @ ''00'' @ field 32 (th_uname h) @ field 32 (th_gname h) @
     octal_field 8 0 @ octal_field 8 0 @ field 155 [] @ field 12 []"

definition byte_sum :: "string \<Rightarrow> nat" where
  "byte_sum s = sum_list (map byte s)"

definition tar_block :: "tar_header \<Rightarrow> string" where
  "tar_block h =
     tar_before h @ octal_field 7 (byte_sum (tar_before h) + 8 * 32 + byte_sum (tar_after h)) @ '' '' @ tar_after h"

definition tar_padding :: "nat \<Rightarrow> string" where
  "tar_padding n = replicate ((512 - n mod 512) mod 512) NUL"

text \<open>
  \<open>WriteHeader\<close>, \<open>io.Copy\<close> from a reader that gives \<open>data\<close> and then ends or fails, and \<open>Close\<close>: the bytes
  written and the error.  \<open>refusal\<close> is the text of the error of a header USTAR cannot hold.
\<close>

definition tar_write :: "(tar_header \<Rightarrow> string) \<Rightarrow> tar_header \<Rightarrow> string \<Rightarrow> string option \<Rightarrow> string \<times> string option"
where
  "tar_write refusal h data fault =
     (if \<not> ustar_ok h then ([], Some (refusal h))
      else if th_size h < length data then (tar_block h @ take (th_size h) data, Some ''archive/tar: write too long'')
      else case fault of Some e \<Rightarrow> (tar_block h @ data, Some e)
      | None \<Rightarrow>
        if length data < th_size h
        then (tar_block h @ data,
              Some (''archive/tar: missed writing '' @ dec_nat (th_size h - length data) @ '' bytes''))
        else (tar_block h @ data @ tar_padding (th_size h) @ replicate 1024 NUL, None))"

section \<open>Gzip\<close>

text \<open>
  The frame with no name, comment or extra field.  The time is written when it is after the Unix epoch.
\<close>

definition gzip_header :: "gotime \<Rightarrow> nat \<Rightarrow> string" where
  "gzip_header t os =
     [char_of (0x1F :: nat), char_of (0x8B :: nat), char_of (8 :: nat), NUL] @
     int_bytes 4 (if time_After t (unix_time 0) then Unix_sec t else 0) @ [NUL, char_of os]"

definition gzip_frame :: "(string \<Rightarrow> string) \<Rightarrow> gotime \<Rightarrow> nat \<Rightarrow> string \<Rightarrow> string" where
  "gzip_frame deflate t os data =
     gzip_header t os @ deflate data @ le_bytes 4 (crc32 data) @ le_bytes 4 (length data mod 2 ^ 32)"

section \<open>Zip\<close>

record zip_header =
  zh_name :: string
  zh_modified :: gotime
  zh_creator :: nat
  zh_reader :: nat
  zh_flags :: nat
  zh_external :: nat

text \<open>Bit 11 marks a name that is UTF-8 and not plain enough for every code page.\<close>

definition zip_utf8 :: "string \<Rightarrow> bool" where
  "zip_utf8 s \<longleftrightarrow> utf8_valid s \<and> list_ex (\<lambda>c. byte c < 0x20 \<or> 0x7D < byte c \<or> byte c = 0x5C) s"

text \<open>\<open>timeToMsDosTime\<close>.\<close>

definition dos_date :: "gotime \<Rightarrow> int" where
  "dos_date t = (case date_of_days (t_sec (civil_time t) div 86400) of (y, m, d) \<Rightarrow> d + int m * 32 + (y - 1980) * 512)"

definition dos_time :: "gotime \<Rightarrow> int" where
  "dos_time t =
     (let secs = t_sec (civil_time t) mod 86400
      in secs mod 60 div 2 + secs div 60 mod 60 * 32 + secs div 3600 * 2048)"

definition zip_stamp :: "gotime \<Rightarrow> string" where
  "zip_stamp t =
     (if time_IsZero t then le_bytes 4 0 else int_bytes 2 (dos_time t) @ int_bytes 2 (dos_date t))"

text \<open>The extended timestamp.\<close>

definition zip_extra :: "gotime \<Rightarrow> string" where
  "zip_extra t =
     (if time_IsZero t then [] else le_bytes 2 0x5455 @ le_bytes 2 5 @ le_bytes 1 1 @ int_bytes 4 (Unix_sec t))"

text \<open>
  \<open>CreateHeader\<close> for a stored file whose name does not end in a slash: it sets the flags, and both headers
  start with the same fields.
\<close>

definition zip_flags :: "zip_header \<Rightarrow> nat" where
  "zip_flags h = zh_flags h + (if zip_utf8 (zh_name h) then 0x800 else 0) + 8"

definition zip_local :: "zip_header \<Rightarrow> string" where
  "zip_local h =
     le_bytes 4 0x04034b50 @ le_bytes 2 (zh_reader h) @ le_bytes 2 (zip_flags h) @ le_bytes 2 0 @
     zip_stamp (zh_modified h) @ le_bytes 12 0 @ le_bytes 2 (length (zh_name h)) @
     le_bytes 2 (length (zip_extra (zh_modified h))) @ zh_name h @ zip_extra (zh_modified h)"

definition u32max :: nat where "u32max = 2 ^ 32 - 1"

text \<open>The descriptor after the data; sizes of 8 bytes from 4 GiB - 1 on.\<close>

definition zip_descriptor :: "string \<Rightarrow> string" where
  "zip_descriptor data =
     (let w = (if u32max \<le> length data then 8 else 4)
      in le_bytes 4 0x08074b50 @ le_bytes 4 (crc32 data) @ le_bytes w (length data) @ le_bytes w (length data))"

text \<open>The directory entry, at offset 0 of the archive; a large file has its sizes in an extra field.\<close>

definition zip_entry :: "zip_header \<Rightarrow> string \<Rightarrow> string" where
  "zip_entry h data =
     (let n = length data; large = u32max \<le> n;
          extra = zip_extra (zh_modified h) @
            (if large then le_bytes 2 1 @ le_bytes 2 24 @ le_bytes 8 n @ le_bytes 8 n @ le_bytes 8 0 else [])
      in le_bytes 4 0x02014b50 @ le_bytes 2 (zh_creator h) @ le_bytes 2 (if large then 45 else zh_reader h) @
         le_bytes 2 (zip_flags h) @ le_bytes 2 0 @ zip_stamp (zh_modified h) @ le_bytes 4 (crc32 data) @
         le_bytes 4 (min n u32max) @ le_bytes 4 (min n u32max) @ le_bytes 2 (length (zh_name h)) @
         le_bytes 2 (length extra) @ le_bytes 2 0 @ le_bytes 4 0 @ le_bytes 4 (zh_external h) @ le_bytes 4 0 @
         zh_name h @ extra)"

text \<open>The end of the directory, preceded by its 64-bit form and locator when a field does not fit.\<close>

definition zip_end :: "nat \<Rightarrow> nat \<Rightarrow> string" where
  "zip_end len offset =
     (if u32max \<le> len \<or> u32max \<le> offset
      then le_bytes 4 0x06064b50 @ le_bytes 8 44 @ le_bytes 2 45 @ le_bytes 2 45 @ le_bytes 4 0 @ le_bytes 4 0 @
           le_bytes 8 1 @ le_bytes 8 1 @ le_bytes 8 len @ le_bytes 8 offset @
           le_bytes 4 0x07064b50 @ le_bytes 4 0 @ le_bytes 8 (offset + len) @ le_bytes 4 1 @
           le_bytes 4 0x06054b50 @ le_bytes 4 0 @ le_bytes 2 0xFFFF @ le_bytes 2 0xFFFF @
           le_bytes 4 u32max @ le_bytes 4 u32max @ le_bytes 2 0
      else le_bytes 4 0x06054b50 @ le_bytes 4 0 @ le_bytes 2 1 @ le_bytes 2 1 @ le_bytes 4 len @ le_bytes 4 offset @
           le_bytes 2 0)"

text \<open>\<open>CreateHeader\<close>, \<open>io.Copy\<close> and \<open>Close\<close>.\<close>

definition zip_write :: "zip_header \<Rightarrow> string \<Rightarrow> string option \<Rightarrow> string \<times> string option" where
  "zip_write h data fault =
     (if 2 ^ 16 - 1 < length (zh_name h) then ([], Some ''zip: FileHeader.Name too long'')
      else case fault of Some e \<Rightarrow> (zip_local h @ data, Some e)
      | None \<Rightarrow>
        (let body = zip_local h @ data @ zip_descriptor data; entry = zip_entry h data
         in (body @ entry @ zip_end (length entry) (length body), None)))"

section \<open>Reading the containers\<close>

definition bytes_at :: "nat \<Rightarrow> nat \<Rightarrow> string \<Rightarrow> string" where
  "bytes_at a k s = take k (drop a s)"

lemma bytes_at_skip: "length u \<le> a \<Longrightarrow> bytes_at a k (u @ s) = bytes_at (a - length u) k s"
  by (simp add: bytes_at_def)

lemma bytes_at_here: "length u = k \<Longrightarrow> bytes_at 0 k (u @ s) = u"
  by (simp add: bytes_at_def)

lemma bytes_at_Cons [simp]: "bytes_at (Suc a) k (c # s) = bytes_at a k s"
  by (simp add: bytes_at_def)

lemma length_le_bytes [simp]: "length (le_bytes k n) = k"
  by (induction k n rule: le_bytes.induct) simp_all

lemma le_val_bytes: "le_val (le_bytes k n) = n mod 256 ^ k"
proof (induction k n rule: le_bytes.induct)
  case (2 k n)
  have "byte (char_of (n mod 256)) = n mod 256" by (simp add: byte_def)
  then show ?case using 2 by (simp add: mod_mult2_eq mult.commute)
qed simp

lemma le_val_small: "n < 256 ^ k \<Longrightarrow> le_val (le_bytes k n) = n"
  by (simp add: le_val_bytes)

lemma length_int_bytes [simp]: "length (int_bytes k i) = k"
  by (simp add: int_bytes_def)

lemma length_field [simp]: "length s \<le> k \<Longrightarrow> length (field k s) = k"
  by (simp add: field_def)

lemma takeWhile_neq_NUL: "NUL \<notin> set s \<Longrightarrow> takeWhile (\<lambda>c. c \<noteq> NUL) (s @ t) = s @ takeWhile (\<lambda>c. c \<noteq> NUL) t"
  by (induction s) auto

lemma field_text: "NUL \<notin> set s \<Longrightarrow> length s \<le> k \<Longrightarrow> takeWhile (\<lambda>c. c \<noteq> NUL) (field k s) = s"
  by (cases "k - length s") (auto simp: field_def takeWhile_neq_NUL)

subsection \<open>Tar\<close>

definition octal_val :: "string \<Rightarrow> nat" where
  "octal_val s = foldl (\<lambda>a c. a * 8 + (byte c - 48)) 0 s"

lemma length_octal [simp]: "length (octal_digits k n) = k"
  by (induction k n rule: octal_digits.induct) simp_all

lemma length_octal_field [simp]: "0 < k \<Longrightarrow> length (octal_field k n) = k"
  by (simp add: octal_field_def)

lemma octal_val_digits: "octal_val (octal_digits k n) = n mod 8 ^ k"
proof (induction k n rule: octal_digits.induct)
  case (2 k n)
  have "byte (digit (n mod 8)) = 48 + n mod 8" by (rule byte_digit) simp
  then show ?case using 2 by (simp add: octal_val_def mod_mult2_eq mult.commute)
qed (simp add: octal_val_def)

lemma bytes_at_octal: "0 < k \<Longrightarrow> n < 8 ^ (k - 1) \<Longrightarrow> octal_val (bytes_at 0 (k - 1) (octal_field k n @ s)) = n"
  using octal_val_digits [of "k - 1" n] by (simp add: bytes_at_def octal_field_def)

text \<open>
  The archive a reader sees: the header's checksum must match, and the result is name, mode, size, time, type,
  the data and what follows it.
\<close>

definition read_tar :: "string \<Rightarrow> (string \<times> nat \<times> nat \<times> nat \<times> char \<times> string \<times> string) option" where
  "read_tar s =
     (let n = octal_val (bytes_at 124 11 s)
      in if bytes_at 257 8 s = ''ustar'' @ [NUL] @ ''00'' \<and>
            octal_val (bytes_at 148 6 s) = byte_sum (take 148 s) + 8 * 32 + byte_sum (bytes_at 156 356 s)
         then Some (takeWhile (\<lambda>c. c \<noteq> NUL) (take 100 s), octal_val (bytes_at 100 7 s), n,
           octal_val (bytes_at 136 11 s), s ! 156, bytes_at 512 n s, drop (512 + n) s)
         else None)"

lemma byte_sum_bound: "byte_sum s \<le> 255 * length s"
proof (induction s)
  case (Cons c s)
  then show ?case using byte_less [of c] by (simp add: byte_sum_def)
qed (simp add: byte_sum_def)

lemma length_tar_before [simp]: "ustar_ok h \<Longrightarrow> length (tar_before h) = 148"
  by (simp add: tar_before_def ustar_ok_def tar_text_def)

lemma length_tar_after [simp]: "ustar_ok h \<Longrightarrow> length (tar_after h) = 356"
  by (simp add: tar_after_def ustar_ok_def tar_text_def)

lemma length_tar_block: "ustar_ok h \<Longrightarrow> length (tar_block h) = 512"
  by (simp add: tar_block_def)

lemma tar_text_field: "tar_text k s \<Longrightarrow> takeWhile (\<lambda>c. c \<noteq> NUL) (field k s) = s"
  by (rule field_text) (auto simp: tar_text_def list_all_iff NUL_def byte_def)

theorem read_tar_block:
  assumes "ustar_ok h"
  shows "read_tar (tar_block h @ s) =
    Some (th_name h, th_mode h, th_size h, nat (tar_mtime h), th_type h, take (th_size h) s, drop (th_size h) s)"
proof -
  have l: "length (field 100 (th_name h)) = 100" "length (field 32 (th_uname h)) = 32"
    "length (field 32 (th_gname h)) = 32" "length (field 100 []) = 100"
    using assms by (simp_all add: ustar_ok_def tar_text_def)
  let ?sum = "byte_sum (tar_before h) + 8 * 32 + byte_sum (tar_after h)"
  have sum: "?sum < 8 ^ 6" using byte_sum_bound [of "tar_before h"] byte_sum_bound [of "tar_after h"] assms by simp
  note b = tar_block_def tar_before_def
  have before: "take 148 (tar_block h @ s) = tar_before h" using assms by (simp add: tar_block_def)
  have after: "bytes_at 156 356 (tar_block h @ s) = tar_after h"
    using assms by (simp add: tar_block_def bytes_at_skip bytes_at_here)
  have chk: "octal_val (bytes_at 148 6 (tar_block h @ s)) = ?sum"
    using assms bytes_at_octal [of 7 ?sum] sum by (simp add: tar_block_def bytes_at_skip)
  have magic: "bytes_at 257 8 (tar_block h @ s) = ''ustar'' @ [NUL] @ ''00''"
    using assms l by (simp add: tar_block_def tar_after_def bytes_at_skip bytes_at_def)
  have nm: "takeWhile (\<lambda>c. c \<noteq> NUL) (take 100 (tar_block h @ s)) = th_name h"
    using assms l tar_text_field [of 100 "th_name h"] by (simp add: b ustar_ok_def)
  have mode: "octal_val (bytes_at 100 7 (tar_block h @ s)) = th_mode h"
    using assms l bytes_at_octal [of 8 "th_mode h"] by (simp add: b bytes_at_skip ustar_ok_def)
  have len: "octal_val (bytes_at 124 11 (tar_block h @ s)) = th_size h"
    using assms l bytes_at_octal [of 12 "th_size h"] by (simp add: b bytes_at_skip ustar_ok_def)
  have "nat (tar_mtime h) < 8 ^ 11" using assms by (auto simp: ustar_ok_def nat_less_iff)
  then have mtime: "octal_val (bytes_at 136 11 (tar_block h @ s)) = nat (tar_mtime h)"
    using assms l bytes_at_octal [of 12 "nat (tar_mtime h)"] by (simp add: b bytes_at_skip ustar_ok_def)
  have type: "(tar_block h @ s) ! 156 = th_type h"
    using assms by (simp add: tar_block_def tar_after_def nth_append)
  show ?thesis
    unfolding read_tar_def before after chk magic nm mode len mtime type Let_def
    using length_tar_block [OF assms] by (simp add: bytes_at_def)
qed


subsection \<open>Gzip\<close>

lemma bytes_at_add: "bytes_at (length u + a) k (u @ s) = bytes_at a k s"
  by (simp add: bytes_at_def)

definition le_at :: "nat \<Rightarrow> nat \<Rightarrow> string \<Rightarrow> nat" where
  "le_at a k s = le_val (bytes_at a k s)"

lemma le_at_skip: "length u \<le> a \<Longrightarrow> le_at a k (u @ s) = le_at (a - length u) k s"
  by (simp add: le_at_def bytes_at_skip)

lemma le_at_add: "le_at (length u + a) k (u @ s) = le_at a k s"
  by (simp add: le_at_def bytes_at_add)

lemma le_at_here: "n < 256 ^ k \<Longrightarrow> le_at 0 k (le_bytes k n @ s) = n"
  by (simp add: le_at_def bytes_at_here le_val_small)

lemma le_at_Cons [simp]: "le_at (Suc a) k (c # s) = le_at a k s"
  by (simp add: le_at_def)

lemma le_at_int: "le_at 0 k (int_bytes k i @ s) = nat (i mod 256 ^ k)"
proof -
  have "0 \<le> i mod 256 ^ k" "i mod 256 ^ k < 256 ^ k" by simp_all
  then have "nat (i mod 256 ^ k) < 256 ^ k" by (simp add: nat_less_iff)
  then show ?thesis unfolding int_bytes_def by (rule le_at_here)
qed

lemma crc32_bound: "crc32 s < 256 ^ 4"
  unfolding crc32_def by (rule order_less_le_trans [OF unsigned_less]) simp

text \<open>
  A decoder of deflated streams, which end by themselves: it gives the data of the stream at the start of its
  argument and what follows the stream.  \<open>inverts\<close> is what the two halves of \<open>compress/flate\<close> promise.
\<close>

definition inverts :: "(string \<Rightarrow> (string \<times> string) option) \<Rightarrow> (string \<Rightarrow> string) \<Rightarrow> bool" where
  "inverts inflate deflate \<longleftrightarrow> (\<forall>data rest. inflate (deflate data @ rest) = Some (data, rest))"

text \<open>
  A reader of the frame: magic number, method and flags; the time; the stream up to the trailer, whose checksum and
  length must be those of the data.  The result is the time and the data.
\<close>

definition read_gzip :: "(string \<Rightarrow> (string \<times> string) option) \<Rightarrow> string \<Rightarrow> (nat \<times> string) option" where
  "read_gzip inflate s =
     (if le_at 0 2 s = 0x8B1F \<and> le_at 2 1 s = 8 \<and> le_at 3 1 s = 0
      then case inflate (drop 10 s) of None \<Rightarrow> None
      | Some (data, trailer) \<Rightarrow>
          if length trailer = 8 \<and> le_at 0 4 trailer = crc32 data \<and> le_at 4 4 trailer = length data mod 2 ^ 32
          then Some (le_at 4 4 s, data) else None
      else None)"

theorem read_gzip_frame:
  assumes "inverts inflate deflate"
  shows "read_gzip inflate (gzip_frame deflate t os data) =
    Some (nat ((if time_After t (unix_time 0) then Unix_sec t else 0) mod 2 ^ 32), data)"
proof -
  let ?m = "if time_After t (unix_time 0) then Unix_sec t else 0"
  let ?trailer = "le_bytes 4 (crc32 data) @ le_bytes 4 (length data mod 2 ^ 32)"
  let ?rest = "[NUL, char_of os] @ deflate data @ ?trailer"
  let ?magic = "[char_of (0x1F :: nat), char_of (0x8B :: nat), char_of (8 :: nat), NUL]"
  have frame: "gzip_frame deflate t os data = ?magic @ int_bytes 4 ?m @ ?rest"
    by (simp only: gzip_frame_def gzip_header_def append_assoc)
  have magic: "le_at 0 2 (?magic @ u) = 0x8B1F" "le_at 2 1 (?magic @ u) = 8" "le_at 3 1 (?magic @ u) = 0" for u
    by (simp_all add: le_at_def bytes_at_def byte_def NUL_def numeral_2_eq_2 numeral_3_eq_3)
  have time: "le_at 4 4 (?magic @ int_bytes 4 ?m @ ?rest) = nat (?m mod 2 ^ 32)"
    using le_at_skip [of ?magic 4 4 "int_bytes 4 ?m @ ?rest"] le_at_int [of 4 ?m ?rest] by simp
  have stream: "drop 10 (?magic @ int_bytes 4 ?m @ ?rest) = deflate data @ ?trailer" by simp
  have "length ?trailer = 8" "le_at 0 4 ?trailer = crc32 data"
    using le_at_here [of "crc32 data" 4 "le_bytes 4 (length data mod 2 ^ 32)"] crc32_bound by simp_all
  moreover have "le_at 4 4 ?trailer = length data mod 2 ^ 32"
    using le_at_skip [of "le_bytes 4 (crc32 data)" 4 4 "le_bytes 4 (length data mod 2 ^ 32)"]
      le_at_here [of "length data mod 2 ^ 32" 4 "[]"] by simp
  moreover have "inflate (deflate data @ ?trailer) = Some (data, ?trailer)" using assms unfolding inverts_def by blast
  ultimately show ?thesis unfolding frame read_gzip_def magic time stream by simp
qed

subsection \<open>Zip\<close>

text \<open>
  A reader of archives with one stored file and no comment: the end record gives the directory, the directory
  entry the sizes, the checksum, the time and the local header, which is followed by the data.  The time is the
  extended timestamp, in Unix seconds, where the entry starts its extra fields with one.
\<close>

definition zip_time :: "string \<Rightarrow> nat option" where
  "zip_time extra =
     (if 9 \<le> length extra \<and> le_at 0 2 extra = 0x5455 \<and> le_at 4 1 extra = 1 then Some (le_at 5 4 extra) else None)"

definition read_zip :: "string \<Rightarrow> (string \<times> nat \<times> nat option \<times> string) option" where
  "read_zip s =
     (let e = length s - 22; d = le_at (e + 16) 4 s; n = le_at (d + 24) 4 s; k = le_at (d + 28) 2 s;
          lh = le_at (d + 42) 4 s; b = lh + 30 + le_at (lh + 26) 2 s + le_at (lh + 28) 2 s; data = bytes_at b n s
      in if le_at e 4 s = 0x06054b50 \<and> le_at (e + 8) 2 s = 1 \<and> le_at d 4 s = 0x02014b50 \<and>
            le_at (d + 10) 2 s = 0 \<and> le_at (d + 20) 4 s = n \<and> le_at lh 4 s = 0x04034b50 \<and>
            bytes_at (lh + 30) k s = bytes_at (d + 46) k s \<and> le_at (d + 16) 4 s = crc32 data
         then Some (bytes_at (d + 46) k s, le_at (d + 38) 4 s, zip_time (bytes_at (d + 46 + k) (le_at (d + 30) 2 s) s), data)
         else None)"

lemma zip_time_extra:
  "zip_time (zip_extra t) = (if time_IsZero t then None else Some (nat (Unix_sec t mod 2 ^ 32)))"
proof (cases "time_IsZero t")
  case False
  have "le_at 5 4 (le_bytes 2 0x5455 @ le_bytes 2 5 @ le_bytes 1 1 @ int_bytes 4 (Unix_sec t)) = nat (Unix_sec t mod 2 ^ 32)"
    using le_at_int [of 4 "Unix_sec t" "[]"] by (simp add: le_at_skip)
  moreover have "le_at 0 2 (le_bytes 2 0x5455 @ u) = 0x5455" "le_at 4 1 (le_bytes 2 0x5455 @ le_bytes 2 5 @ le_bytes 1 1 @ u) = 1" for u
    by (simp_all add: le_at_skip le_at_here) (simp add: le_at_def bytes_at_def byte_def)
  ultimately show ?thesis using False by (simp add: zip_time_def zip_extra_def)
qed (simp add: zip_time_def zip_extra_def)

lemma zip_extra_length: "length (zip_extra t) \<le> 9"
  by (simp add: zip_extra_def)

lemma length_zip_stamp [simp]: "length (zip_stamp t) = 4"
  by (simp add: zip_stamp_def)

lemma length_zip_local: "length (zip_local h) = 30 + length (zh_name h) + length (zip_extra (zh_modified h))"
  by (simp add: zip_local_def)

lemma zip_local_fields:
  assumes "length (zh_name h) < 2 ^ 16"
  shows "le_at 0 4 (zip_local h @ s) = 0x04034b50"
    and "le_at 26 2 (zip_local h @ s) = length (zh_name h)"
    and "le_at 28 2 (zip_local h @ s) = length (zip_extra (zh_modified h))"
    and "bytes_at 30 (length (zh_name h)) (zip_local h @ s) = zh_name h"
  using assms zip_extra_length [of "zh_modified h"]
  by (simp_all add: zip_local_def le_at_skip le_at_here bytes_at_skip bytes_at_here)

lemma zip_entry_fields:
  assumes "length (zh_name h) < 2 ^ 16" and "length data < u32max" and "zh_external h < 2 ^ 32"
  shows "le_at 0 4 (zip_entry h data @ s) = 0x02014b50"
    and "le_at 10 2 (zip_entry h data @ s) = 0"
    and "le_at 16 4 (zip_entry h data @ s) = crc32 data"
    and "le_at 20 4 (zip_entry h data @ s) = length data"
    and "le_at 24 4 (zip_entry h data @ s) = length data"
    and "le_at 28 2 (zip_entry h data @ s) = length (zh_name h)"
    and "le_at 38 4 (zip_entry h data @ s) = zh_external h"
    and "le_at 42 4 (zip_entry h data @ s) = 0"
    and "bytes_at 46 (length (zh_name h)) (zip_entry h data @ s) = zh_name h"
    and "le_at 30 2 (zip_entry h data @ s) = length (zip_extra (zh_modified h))"
    and "bytes_at (46 + length (zh_name h)) (length (zip_extra (zh_modified h))) (zip_entry h data @ s) = zip_extra (zh_modified h)"
  using assms crc32_bound [of data] zip_extra_length [of "zh_modified h"]
  by (simp_all add: zip_entry_def Let_def le_at_skip le_at_here bytes_at_skip bytes_at_here u32max_def)

lemma zip_end_fields:
  assumes "n < u32max" and "offset < u32max"
  shows "length (zip_end n offset) = 22" and "le_at 0 4 (zip_end n offset) = 0x06054b50"
    and "le_at 8 2 (zip_end n offset) = 1" and "le_at 16 4 (zip_end n offset) = offset"
  using assms by (simp_all add: zip_end_def le_at_skip le_at_here u32max_def)

theorem read_zip_write:
  assumes "length (zh_name h) < 2 ^ 16" and "zh_external h < 2 ^ 32"
    and "zip_write h data None = (s, None)" and "length s < u32max"
  shows "read_zip s = Some (zh_name h, zh_external h,
    if time_IsZero (zh_modified h) then None else Some (nat (Unix_sec (zh_modified h) mod 2 ^ 32)), data)"
proof -
  let ?body = "zip_local h @ data @ zip_descriptor data"
  let ?entry = "zip_entry h data"
  let ?tail = "zip_end (length ?entry) (length ?body)"
  have s: "s = ?body @ ?entry @ ?tail" using assms(1,3) by (simp add: zip_write_def Let_def split: if_splits)
  have n: "length data < u32max" "length ?entry < u32max" "length ?body < u32max"
    using assms(4) by (simp_all add: s)
  note E = zip_entry_fields [OF assms(1) n(1) assms(2), of ?tail]
  note Z = zip_end_fields [OF n(2,3)]
  have e: "length s - 22 = length (?body @ ?entry)" using Z(1) by (simp add: s)
  have at_end: "le_at (length s - 22 + a) k s = le_at a k ?tail" for a k
    using le_at_add [of "?body @ ?entry" a k ?tail] unfolding e by (simp add: s)
  have at_entry: "le_at (length ?body + a) k s = le_at a k (?entry @ ?tail)" for a k
    unfolding s by (rule le_at_add)
  have name_entry: "bytes_at (length ?body + a) k s = bytes_at a k (?entry @ ?tail)" for a k
    unfolding s by (rule bytes_at_add)
  have local: "s = zip_local h @ (data @ zip_descriptor data @ ?entry @ ?tail)" by (simp add: s)
  note L = zip_local_fields [OF assms(1), of "data @ zip_descriptor data @ ?entry @ ?tail", folded local]
  have data: "bytes_at (30 + length (zh_name h) + length (zip_extra (zh_modified h))) (length data) s = data"
    using bytes_at_add [of "zip_local h" 0 "length data" "data @ zip_descriptor data @ ?entry @ ?tail"]
    by (simp add: local length_zip_local bytes_at_here)
  show ?thesis
    unfolding read_zip_def Let_def at_end Z at_end [of 0, unfolded add_0_right] at_entry at_entry [of 0, unfolded add_0_right]
      add.assoc [of "length ?body" 46] name_entry E zip_time_extra
    using L data by simp
qed

subsection \<open>Stored streams\<close>

text \<open>
  The uncompressed blocks of RFC 1951, at most 65535 bytes each, and a decoder for them: an encoder and a decoder
  for which \<open>inverts\<close> holds.
\<close>

definition stored_block :: "char \<Rightarrow> string \<Rightarrow> string" where
  "stored_block final s = final # le_bytes 2 (length s) @ le_bytes 2 (65535 - length s) @ s"

function stored_deflate :: "string \<Rightarrow> string" where
  "stored_deflate s =
     (if length s \<le> 65535 then stored_block CHR 0x01 s
      else stored_block CHR 0x00 (take 65535 s) @ stored_deflate (drop 65535 s))"
  by pat_completeness auto
termination by (relation "measure length") auto

declare stored_deflate.simps [simp del]

fun stored_blocks :: "nat \<Rightarrow> string \<Rightarrow> (string \<times> string) option" where
  "stored_blocks (Suc n) (final # s) =
     (let k = le_at 0 2 s; data = bytes_at 4 k s; rest = drop (4 + k) s
      in if length s < 4 + k \<or> k + le_at 2 2 s \<noteq> 65535 then None
         else if final = CHR 0x01 then Some (data, rest)
         else if final = CHR 0x00 then map_option (\<lambda>(more, r). (data @ more, r)) (stored_blocks n rest)
         else None)"
| "stored_blocks n s = None"

definition stored_inflate :: "string \<Rightarrow> (string \<times> string) option" where
  "stored_inflate s = stored_blocks (length s) s"

lemma stored_blocks_step:
  assumes "length s \<le> 65535"
  shows "stored_blocks (Suc n) (stored_block final s @ u) =
    (if final = CHR 0x01 then Some (s, u)
     else if final = CHR 0x00 then map_option (\<lambda>(more, r). (s @ more, r)) (stored_blocks n u) else None)"
proof -
  let ?t = "le_bytes 2 (length s) @ le_bytes 2 (65535 - length s) @ s @ u"
  have "le_at 0 2 ?t = length s" "le_at 2 2 ?t = 65535 - length s"
    using assms by (simp_all add: le_at_skip le_at_here)
  moreover have "bytes_at 4 (length s) ?t = s" "drop (4 + length s) ?t = u" "length ?t = 4 + length s + length u"
    by (simp_all add: bytes_at_skip bytes_at_here)
  moreover have "stored_block final s @ u = final # ?t" by (simp add: stored_block_def)
  ultimately show ?thesis using assms by (simp only: stored_blocks.simps Let_def) simp
qed

lemma stored_blocks_deflate: "length data < n \<Longrightarrow> stored_blocks n (stored_deflate data @ rest) = Some (data, rest)"
proof (induction data arbitrary: n rest rule: stored_deflate.induct)
  case (1 s)
  then obtain m where n: "n = Suc m" by (cases n) auto
  show ?case
  proof (cases "length s \<le> 65535")
    case True
    then show ?thesis unfolding n stored_deflate.simps [of s] by (simp add: stored_blocks_step)
  next
    case False
    then have "length (drop 65535 s) < m" using 1(2) n by simp
    from 1(1) [OF False this] False show ?thesis
      unfolding n stored_deflate.simps [of s] by (simp add: stored_blocks_step)
  qed
qed

theorem stored_inverts: "inverts stored_inflate stored_deflate"
proof -
  have "length data < length (stored_deflate data)" for data
  proof (induction data rule: stored_deflate.induct)
    case (1 s)
    then show ?case by (cases "length s \<le> 65535") (simp_all add: stored_deflate.simps [of s] stored_block_def)
  qed
  then show ?thesis by (auto simp: inverts_def stored_inflate_def intro!: stored_blocks_deflate trans_less_add1)
qed

end
