(* ===== verification/Json_Indent.thy ===== *)
theory Json_Indent
  imports Json_Roundtrip
begin

text \<open>
  \<open>json.Encoder\<close> with \<open>SetIndent\<close> of an empty prefix and two spaces, as the release tool writes its documents, and
  the theorem that a written document is read back (\<open>decode_indented\<close>).
\<close>

section \<open>The indented writer\<close>

definition newline :: "nat \<Rightarrow> string" where
  "newline k = LF # replicate (2 * k) (CHR '' '')"

fun enc_indent :: "bool \<Rightarrow> nat \<Rightarrow> json \<Rightarrow> string" where
  "enc_indent h k (JArr vs) =
     (if vs = [] then ''[]''
      else CHR ''['' # newline (k + 1) @ join_with (CHR '','' # newline (k + 1)) (map (enc_indent h (k + 1)) vs)
             @ newline k @ '']'')"
| "enc_indent h k (JObj kvs) =
     (if kvs = [] then ''{}''
      else CHR ''{'' # newline (k + 1)
             @ join_with (CHR '','' # newline (k + 1))
                 (map (\<lambda>(key, v). dquote # esc h key @ dquote # '': '' @ enc_indent h (k + 1) v) kvs)
             @ newline k @ ''}'')"
| "enc_indent h k v = enc h v"

section \<open>Reading it back\<close>

lemma newline_blank [simp]: "blank (newline k)"
  by (simp add: newline_def is_ws_def LF_def byte_def list_all_iff)

lemma indent_head:
  assumes "nums_ok v"
  shows "\<exists>c s. enc_indent h k v = c # s \<and> \<not> is_ws c \<and> c \<noteq> CHR '']'' \<and> c \<noteq> CHR ''}''"
  using enc_head [OF assms, of h] by (cases v) (auto simp: enc_obj)

definition indent_member :: "bool \<Rightarrow> nat \<Rightarrow> string \<times> json \<Rightarrow> string" where
  "indent_member h i = written_member h '' '' (enc_indent h i)"

lemma space_ws [simp]: "is_ws (CHR '' '')"
  by (simp add: is_ws_def byte_def)

lemma indent_obj:
  "kvs \<noteq> [] \<Longrightarrow> enc_indent h k (JObj kvs) =
     CHR ''{'' # newline (k + 1) @ join_with (CHR '','' # newline (k + 1)) (map (indent_member h (k + 1)) kvs)
       @ newline k @ ''}''"
  by (simp add: indent_member_def written_member_def)

declare enc_indent.simps(2) [simp del]

theorem parse_indent:
  "nums_ok v \<Longrightarrow> json_depth v \<le> d \<Longrightarrow> delim t \<Longrightarrow> 2 * length (enc_indent h k v @ t) + 1 \<le> n \<Longrightarrow>
     parse_value n d (enc_indent h k v @ t) = Some (jfix v, t)"
proof (induction v arbitrary: n d t k)
  case (JArr vs)
  from JArr.prems(2) have d: "0 < d" "\<forall>v \<in> set vs. json_depth v \<le> d - 1" by (simp_all add: json_depth_le)
  have "\<forall>v \<in> set vs. reads (d - 1) (enc_indent h (k + 1)) v" using JArr.IH JArr.prems(1) d(2) by (simp add: reads_def)
  moreover have "\<forall>v \<in> set vs. \<exists>c s. enc_indent h (k + 1) v = c # s \<and> \<not> is_ws c \<and> c \<noteq> CHR '']''"
    using indent_head [of _ h "k + 1"] JArr.prems(1) by fastforce
  ultimately show ?case
    using parse_array_written [of d vs "enc_indent h (k + 1)" "newline (k + 1)" "newline k" t n]
      parse_array_written [of d vs "enc_indent h (k + 1)" "[]" "[]" t n] JArr.prems(4) d(1) by (auto split: if_splits)
next
  case (JObj kvs)
  from JObj.prems(2) have d: "0 < d" "\<forall>(k, v) \<in> set kvs. json_depth v \<le> d - 1" by (simp_all add: json_depth_le)
  have "reads (d - 1) (enc_indent h (k + 1)) v" if "(l, v) \<in> set kvs" for l v
    using JObj.IH [OF that, of v] JObj.prems(1) d(2) that by (force simp: reads_def snds.simps)
  then have m: "\<forall>(l, v) \<in> set kvs. reads (d - 1) (enc_indent h (k + 1)) v" by blast
  show ?case
  proof (cases "kvs = []")
    case True
    with JObj.prems(4) d(1) show ?thesis
      using parse_object_written [of d kvs "enc_indent h k" "[]" "[]" "[]" h t n] by (simp add: enc_indent.simps(2))
  next
    case False
    with JObj.prems(4) d(1) m show ?thesis
      using parse_object_written [of d kvs "enc_indent h (k + 1)" "newline (k + 1)" "newline k" "'' ''" h t n]
      by (simp add: indent_obj indent_member_def)
  qed
next
  case JNull
  then show ?case unfolding enc_indent.simps by (rule parse_enc)
next
  case (JBool b)
  then show ?case unfolding enc_indent.simps by (rule parse_enc)
next
  case (JNum m)
  then show ?case unfolding enc_indent.simps by (rule parse_enc)
next
  case (JStr s)
  then show ?case unfolding enc_indent.simps by (rule parse_enc)
qed

text \<open>A well-formed value within the nesting limit is read back exactly from its indented text.\<close>

theorem decode_indented:
  assumes "json_wf v" and "json_depth v \<le> max_depth" and "delim t"
  shows "decode_one (enc_indent h k v @ t) = Some (v, t)"
  unfolding decode_one_def
  using parse_indent [OF json_wf_nums [OF assms(1)] assms(2,3), of h k "json_fuel (enc_indent h k v @ t)"]
    json_wf_fix [OF assms(1)]
  by (simp add: json_fuel_def del: parse_value.simps)

end
