(* ===== verification/Release_Tool.thy ===== *)
theory Release_Tool
  imports Release_Files Archive_Format Json_Indent Go_Numbers
begin

text \<open>
  \<open>internal/releasetool/main.go\<close>: the three commands that archive a binary, canonicalise an SPDX document and list
  checksums.  Each validates its options, prepares the bytes of its output and writes them through \<open>writeAtomic\<close>.
\<close>

section \<open>What the tool takes from its libraries\<close>

text \<open>
  \<open>rt_quote\<close> is \<open>%q\<close>; \<open>rt_json_error\<close> the error of a JSON decoder whose input is these bytes and then ends or fails;
  \<open>rt_json_type\<close> the error of decoding a value that is no object into a map; \<open>rt_tar_refusal\<close> the error of a tar
  header USTAR cannot hold; \<open>rt_deflate\<close> the deflate encoder at the default level, and \<open>rt_flushed\<close> and
  \<open>rt_zip_flushed\<close> the bytes that have reached the output when a stream is abandoned; \<open>rt_sha256\<close> the digest.
\<close>

record libraries =
  rt_quote :: "string \<Rightarrow> string"
  rt_json_error :: "string \<Rightarrow> string option \<Rightarrow> string"
  rt_json_type :: "json \<Rightarrow> string"
  rt_tar_refusal :: "tar_header \<Rightarrow> string"
  rt_deflate :: "string \<Rightarrow> string"
  rt_flushed :: "string \<Rightarrow> string"
  rt_zip_flushed :: "string \<Rightarrow> string"
  rt_sha256 :: "string \<Rightarrow> string"

section \<open>Options\<close>

type_synonym options = "(string \<times> string) list"

text \<open>The loop over pairs; a name without a value cannot be reached behind the parity check.\<close>

fun take_options :: "libraries \<Rightarrow> string list \<Rightarrow> options \<Rightarrow> string list \<Rightarrow> options fallible" where
  "take_options lib required opts (k # v # args) =
     (if k \<notin> set required then Inl (''unknown option '' @ rt_quote lib k)
      else if map_of opts k \<noteq> None then Inl (''duplicate option '' @ rt_quote lib k)
      else take_options lib required ((k, v) # opts) args)"
| "take_options lib required opts args = Inr opts"

definition parseOptions :: "libraries \<Rightarrow> string list \<Rightarrow> string list \<Rightarrow> options fallible" where
  "parseOptions lib args required =
     (if length args mod 2 \<noteq> 0 then Inl ''every option requires one value''
      else rbind (take_options lib required [] args) (\<lambda>opts.
        case filter (\<lambda>k. map_of opts k = None) required of
          k # ks \<Rightarrow> Inl (''missing option '' @ rt_quote lib k)
        | [] \<Rightarrow> Inr opts))"

text \<open>Reading an option from the map: the empty string when it is absent.\<close>

definition opt :: "options \<Rightarrow> string \<Rightarrow> string" where
  "opt opts k = (case map_of opts k of Some v \<Rightarrow> v | None \<Rightarrow> [])"

text \<open>\<open>strconv.ParseUint\<close> stops at the first digit that overflows, before it looks at what follows.\<close>

datatype num_error = Bad_Syntax | Out_Of_Range

fun scan_uint :: "nat \<Rightarrow> string \<Rightarrow> num_error + nat" where
  "scan_uint n [] = Inr n"
| "scan_uint n (c # s) =
     (if \<not> is_dec c then Inl Bad_Syntax
      else if 2 ^ 64 \<le> 10 * n + (byte c - 48) then Inl Out_Of_Range
      else scan_uint (10 * n + (byte c - 48)) s)"

definition scan_int :: "string \<Rightarrow> num_error + int" where
  "scan_int s =
     (case signed s of (neg, ds) \<Rightarrow>
        if ds = [] then Inl Bad_Syntax
        else rbind (scan_uint 0 ds) (\<lambda>n.
          let i = (if neg then - int n else int n) in if int64 i then Inr i else Inl Out_Of_Range))"

definition num_error_text :: "num_error \<Rightarrow> string" where
  "num_error_text e = (case e of Bad_Syntax \<Rightarrow> ''invalid syntax'' | Out_Of_Range \<Rightarrow> ''value out of range'')"

definition parseEpoch :: "libraries \<Rightarrow> string \<Rightarrow> int fallible" where
  "parseEpoch lib s =
     map_err (\<lambda>e. ''epoch must be a signed decimal integer: strconv.ParseInt: parsing '' @ rt_quote lib s @ '': '' @
                num_error_text e) (scan_int s)"

definition validateArchiveEntry :: "string \<Rightarrow> unit fallible" where
  "validateArchiveEntry e =
     fail_if (e = [] \<or> e = ''.'' \<or> e = ''..'' \<or> contains_any e [CHR ''/'', backslash, NUL])
       ''entry must be one non-empty root name''"

section \<open>Archives\<close>

text \<open>The input of an archive: the bytes read and the error that ended them.\<close>

definition tar_header_of :: "nat \<Rightarrow> string \<Rightarrow> int \<Rightarrow> tar_header" where
  "tar_header_of n entry epoch =
     \<lparr>th_name = entry, th_mode = 0x1ED, th_uid = 0, th_gid = 0, th_size = n, th_mtime = unix_time epoch,
      th_type = CHR ''0'', th_uname = [], th_gname = []\<rparr>"

definition writeTarGz :: "libraries \<Rightarrow> string \<times> string option \<Rightarrow> nat \<Rightarrow> string \<Rightarrow> int \<Rightarrow> string \<times> string option" where
  "writeTarGz lib input n entry epoch =
     (case tar_write (rt_tar_refusal lib) (tar_header_of n entry epoch) (fst input) (snd input) of
        (s, None) \<Rightarrow> (gzip_frame (rt_deflate lib) (unix_time epoch) 255 s, None)
      | (s, Some e) \<Rightarrow> (if s = [] then [] else gzip_header (unix_time epoch) 255 @ rt_flushed lib s, Some e))"

definition zip_header_of :: "string \<Rightarrow> int \<Rightarrow> zip_header" where
  "zip_header_of entry epoch =
     \<lparr>zh_name = entry, zh_modified = unix_time epoch, zh_creator = 3 * 256 + 20, zh_reader = 20, zh_flags = 0,
      zh_external = 0x81ED * 2 ^ 16\<rparr>"

definition writeZip :: "libraries \<Rightarrow> string \<times> string option \<Rightarrow> string \<Rightarrow> int \<Rightarrow> string \<times> string option" where
  "writeZip lib input entry epoch =
     (case zip_write (zip_header_of entry epoch) (fst input) (snd input) of
        (s, None) \<Rightarrow> (s, None)
      | (s, Some e) \<Rightarrow> (rt_zip_flushed lib s, Some e))"

text \<open>
  A command up to its call of \<open>writeAtomic\<close>: the output path and the body, or the error before any output.
\<close>

type_synonym prepared = "(string \<times> body) fallible"

definition tagged :: "string \<Rightarrow> 'a fallible \<Rightarrow> 'a fallible" where
  "tagged tag r = map_err (\<lambda>e. tag @ '': '' @ e) r"

definition archive_body :: "libraries \<Rightarrow> options \<Rightarrow> int \<Rightarrow> string \<times> string option \<Rightarrow> nat \<Rightarrow> string \<times> string option" where
  "archive_body lib opts epoch input n =
     (if opt opts ''--format'' = ''tar.gz'' then writeTarGz lib input n (opt opts ''--entry'') epoch
      else if opt opts ''--format'' = ''zip'' then writeZip lib input (opt opts ''--entry'') epoch
      else ([], Some ''unsupported archive format''))"

definition prepareArchive :: "libraries \<Rightarrow> os \<Rightarrow> disk \<Rightarrow> string list \<Rightarrow> prepared" where
  "prepareArchive lib os d args =
     rbind (tagged ''archive'' (parseOptions lib args [''--input'', ''--output'', ''--entry'', ''--format'', ''--epoch''])) (\<lambda>opts.
     rbind (tagged ''archive'' (parseEpoch lib (opt opts ''--epoch''))) (\<lambda>epoch.
     rbind (fail_if (opt opts ''--format'' \<noteq> ''tar.gz'' \<and> opt opts ''--format'' \<noteq> ''zip'')
              (''archive: unsupported format '' @ rt_quote lib (opt opts ''--format''))) (\<lambda>_.
     rbind (tagged ''archive'' (validateArchiveEntry (opt opts ''--entry''))) (\<lambda>_.
     rbind (tagged ''archive: open input'' (Open os d (opt opts ''--input''))) (\<lambda>n.
     rbind (case os_stat os (opt opts ''--input'') of Some e \<Rightarrow> Inl (''archive: stat input: '' @ e) | None \<Rightarrow> Inr ()) (\<lambda>_.
     rbind (fail_if (\<not> is_regular n) ''archive: input is not a regular file'') (\<lambda>_.
       Inr (opt opts ''--output'',
            \<lambda>_. archive_body lib opts epoch (contents os (opt opts ''--input'') n) (node_size n)))))))))"

section \<open>SPDX documents\<close>

text \<open>
  \<open>Decoder.Decode\<close> on bytes that then end or fail: a value that is not delimited by a bracket is complete only when
  something follows it.
\<close>

definition bracketed :: "json \<Rightarrow> bool" where
  "bracketed v = (case v of JObj m \<Rightarrow> True | JArr vs \<Rightarrow> True | _ \<Rightarrow> False)"

definition stream_value :: "string \<Rightarrow> string option \<Rightarrow> (json \<times> string) option" where
  "stream_value s fault =
     (case decode_one s of None \<Rightarrow> None
      | Some (v, r) \<Rightarrow> if r = [] \<and> fault \<noteq> None \<and> \<not> bracketed v then None else Some (v, r))"

definition decode_document :: "libraries \<Rightarrow> string \<times> string option \<Rightarrow> json fallible" where
  "decode_document lib input =
     (case input of (s, fault) \<Rightarrow>
        case stream_value s fault of None \<Rightarrow> Inl (''canonicalize-spdx: decode input: '' @ rt_json_error lib s fault)
        | Some (v, r) \<Rightarrow>
          if (case v of JObj m \<Rightarrow> False | JNull \<Rightarrow> False | _ \<Rightarrow> True)
          then Inl (''canonicalize-spdx: decode input: '' @ rt_json_type lib v)
          else if skip_ws r = [] \<and> fault = None then Inr v
          else if skip_ws r \<noteq> [] \<and> stream_value r fault \<noteq> None
          then Inl ''canonicalize-spdx: input contains more than one JSON value''
          else Inl (''canonicalize-spdx: decode trailing input: '' @ rt_json_error lib r fault))"

text \<open>The three replaced members; the document and \<open>creationInfo\<close> are maps.\<close>

definition created_text :: "int \<Rightarrow> string" where
  "created_text epoch = formatTime (civil_time (unix_time epoch))"

definition canonical_document :: "string \<Rightarrow> string \<Rightarrow> int \<Rightarrow> json \<Rightarrow> json fallible" where
  "canonical_document name namespace epoch v =
     (case jnorm v of
        JObj m \<Rightarrow>
          (case map_of m ''creationInfo'' of
             Some (JObj info) \<Rightarrow>
               Inr (JObj (put_sorted ''creationInfo'' (JObj (put_sorted ''created'' (JStr (created_text epoch)) info))
                      (put_sorted ''documentNamespace'' (JStr namespace) (put_sorted ''name'' (JStr name) m))))
           | _ \<Rightarrow> Inl ''canonicalize-spdx: creationInfo must be an object'')
      | _ \<Rightarrow> Inl ''canonicalize-spdx: creationInfo must be an object'')"

definition prepareSPDX :: "libraries \<Rightarrow> os \<Rightarrow> disk \<Rightarrow> string list \<Rightarrow> prepared" where
  "prepareSPDX lib os d args =
     rbind (tagged ''canonicalize-spdx''
              (parseOptions lib args [''--input'', ''--output'', ''--name'', ''--namespace'', ''--epoch''])) (\<lambda>opts.
     rbind (tagged ''canonicalize-spdx'' (parseEpoch lib (opt opts ''--epoch''))) (\<lambda>epoch.
     rbind (tagged ''canonicalize-spdx: open input'' (Open os d (opt opts ''--input''))) (\<lambda>n.
     rbind (decode_document lib (contents os (opt opts ''--input'') n)) (\<lambda>v.
     rbind (canonical_document (opt opts ''--name'') (opt opts ''--namespace'') epoch v) (\<lambda>doc.
       Inr (opt opts ''--output'', \<lambda>_. (enc_indent False 0 doc @ [LF], None)))))))"

section \<open>Checksums\<close>

definition isChecksumInput :: "string \<Rightarrow> bool" where
  "isChecksumInput name \<longleftrightarrow> suffix ''.tar.gz'' name \<or> suffix ''.zip'' name \<or> suffix ''.spdx.json'' name"

fun checksum_files :: "os \<Rightarrow> disk \<Rightarrow> string \<Rightarrow> string \<Rightarrow> string list \<Rightarrow> string list fallible" where
  "checksum_files os d dir output [] = Inr []"
| "checksum_files os d dir output (name # names) =
     (if name = ''SHA256SUMS'' \<or> \<not> isChecksumInput name then checksum_files os d dir output names
      else
        rbind (tagged (''checksums: resolve '' @ name) (Abs_path os (filepath_Join [dir, name]))) (\<lambda>path.
          if path = output then checksum_files os d dir output names
          else
            case os_info os name of Some e \<Rightarrow> Inl (''checksums: stat '' @ name @ '': '' @ e)
            | None \<Rightarrow>
              rbind (checksum_files os d dir output names) (\<lambda>files.
                Inr (if (case node_at os d (filepath_Join [dir, name]) of Some n \<Rightarrow> is_regular n | None \<Rightarrow> False)
                     then name # files else files))))"

definition hex_bytes :: "string \<Rightarrow> string" where
  "hex_bytes s = concat (map (\<lambda>c. [hex_digit (byte c div 16), hex_digit (byte c mod 16)]) s)"

definition checksum_line :: "libraries \<Rightarrow> string \<Rightarrow> string \<Rightarrow> string" where
  "checksum_line lib name data = hex_bytes (rt_sha256 lib data) @ ''  '' @ name @ [LF]"

fun checksum_lines :: "libraries \<Rightarrow> os \<Rightarrow> string \<Rightarrow> string list \<Rightarrow> body" where
  "checksum_lines lib os dir [] d = ([], None)"
| "checksum_lines lib os dir (name # names) d =
     (let path = filepath_Join [dir, name] in
      case Open os d path of Inl e \<Rightarrow> ([], Some (''open '' @ name @ '': '' @ e))
      | Inr n \<Rightarrow>
        case contents os path n of (data, Some e) \<Rightarrow> ([], Some (''hash '' @ name @ '': '' @ e))
        | (data, None) \<Rightarrow>
          case os_close os path of Some e \<Rightarrow> ([], Some (''close '' @ name @ '': '' @ e))
          | None \<Rightarrow>
            case checksum_lines lib os dir names d of (s, err) \<Rightarrow> (checksum_line lib name data @ s, err))"

definition prepareChecksums :: "libraries \<Rightarrow> os \<Rightarrow> disk \<Rightarrow> string list \<Rightarrow> prepared" where
  "prepareChecksums lib os d args =
     rbind (tagged ''checksums'' (parseOptions lib args [''--dir'', ''--output''])) (\<lambda>opts.
     rbind (tagged ''checksums: read directory'' (ReadDir os d (opt opts ''--dir''))) (\<lambda>entries.
     rbind (tagged ''checksums: resolve output'' (Abs_path os (opt opts ''--output''))) (\<lambda>output.
     rbind (checksum_files os d (opt opts ''--dir'') output entries) (\<lambda>files.
       Inr (opt opts ''--output'', checksum_lines lib os (opt opts ''--dir'') (sort files))))))"

section \<open>The commands\<close>

definition deliver :: "(disk \<Rightarrow> string \<Rightarrow> body \<Rightarrow> unit fallible \<times> disk) \<Rightarrow> disk \<Rightarrow> prepared \<Rightarrow> unit fallible \<times> disk" where
  "deliver publish d r = (case r of Inl e \<Rightarrow> (Inl e, d) | Inr (path, body) \<Rightarrow> publish d path body)"

definition runArchive :: "libraries \<Rightarrow> os \<Rightarrow> disk \<Rightarrow> string list \<Rightarrow> unit fallible \<times> disk" where
  "runArchive lib os d args = deliver (writeAtomic os) d (prepareArchive lib os d args)"

definition runCanonicalizeSPDX :: "libraries \<Rightarrow> os \<Rightarrow> disk \<Rightarrow> string list \<Rightarrow> unit fallible \<times> disk" where
  "runCanonicalizeSPDX lib os d args = deliver (writeAtomic os) d (prepareSPDX lib os d args)"

definition runChecksums :: "libraries \<Rightarrow> os \<Rightarrow> disk \<Rightarrow> string list \<Rightarrow> unit fallible \<times> disk" where
  "runChecksums lib os d args = deliver (writeAtomic os) d (prepareChecksums lib os d args)"

definition execute_tool :: "libraries \<Rightarrow> os \<Rightarrow> disk \<Rightarrow> string list \<Rightarrow> unit fallible \<times> disk" where
  "execute_tool lib os d args =
     (case args of
        [] \<Rightarrow> (Inl ''usage: releasetool archive|canonicalize-spdx|checksums'', d)
      | c # rest \<Rightarrow>
        if c = ''archive'' then runArchive lib os d rest
        else if c = ''canonicalize-spdx'' then runCanonicalizeSPDX lib os d rest
        else if c = ''checksums'' then runChecksums lib os d rest
        else (Inl (''unknown command '' @ rt_quote lib c), d))"

text \<open>\<open>main\<close>: the exit status, what goes to standard error, and the disk.\<close>

definition tool_main :: "libraries \<Rightarrow> os \<Rightarrow> disk \<Rightarrow> string list \<Rightarrow> nat \<times> string \<times> disk" where
  "tool_main lib os d args =
     (case execute_tool lib os d args of (Inl e, d') \<Rightarrow> (1, e @ [LF], d') | (Inr u, d') \<Rightarrow> (0, [], d'))"

end
