(* ===== verification/Release_Properties.thy ===== *)
theory Release_Properties
  imports Release_Tool Task_Output
begin

text \<open>
  What the release tool promises: an output appears whole or not at all, whatever call fails; the options are
  exactly those required; an archive holds the input under the entry's name; the canonical SPDX document differs
  from the input in three members and is stable; the checksums list every artefact once, in order.
\<close>

section \<open>Outputs written through an atomic writer\<close>

text \<open>
  The contract the commands rely on.  \<open>place\<close> is the file a path stands for and \<open>tidy\<close> says that an abandoned
  temporary file can be removed.
\<close>

locale atomic_output =
  fixes publish :: "disk \<Rightarrow> string \<Rightarrow> body \<Rightarrow> unit fallible \<times> disk"
    and place :: "string \<Rightarrow> string"
    and tidy :: bool
  assumes published: "publish d path body = (Inr u, d') \<Longrightarrow>
      \<exists>d1 c. keeps d d1 \<and> body d1 = (c, None) \<and> map_of d' = (map_of d)(place path \<mapsto> Regular c 0x1A4)"
    and unpublished: "publish d path body = (Inl e, d') \<Longrightarrow> keeps d d'"
    and unpublished_tidy: "publish d path body = (Inl e, d') \<Longrightarrow> tidy \<Longrightarrow> map_of d' = map_of d"
begin

text \<open>A disk after a command: on failure nothing has changed, on success one file has, completely.\<close>

lemma deliver_cases:
  "case deliver publish d r of
     (Inl e, d') \<Rightarrow> keeps d d' \<and> (if tidy then map_of d' = map_of d else True)
   | (Inr u, d') \<Rightarrow> \<exists>path body d1 c. r = Inr (path, body) \<and> keeps d d1 \<and> body d1 = (c, None) \<and>
       map_of d' = (map_of d)(place path \<mapsto> Regular c 0x1A4)"
proof (cases r)
  case (Inl e)
  then show ?thesis by (simp add: deliver_def keeps_def)
next
  case (Inr p)
  obtain path body where p: "p = (path, body)" by (cases p)
  obtain res d' where out: "publish d path body = (res, d')" by (cases "publish d path body")
  show ?thesis
  proof (cases res)
    case (Inl e)
    then show ?thesis using out unpublished [of d path body e d'] unpublished_tidy [of d path body e d'] Inr p
      by (simp add: deliver_def)
  next
    case u: (Inr u)
    then show ?thesis using out published [of d path body u d'] Inr p by (simp add: deliver_def)
  qed
qed

end

interpretation ao: atomic_output "writeAtomic os" "resolve os" "\<forall>p. os_remove os p = None" for os
proof unfold_locales
  show "\<exists>d1 c. keeps d d1 \<and> body d1 = (c, None) \<and> map_of d' = (map_of d)(resolve os path \<mapsto> Regular c 0x1A4)"
    if "writeAtomic os d path body = (Inr u, d')" for d path body u d'
    using writeAtomic_done [OF that] by metis
qed (simp_all add: writeAtomic_failed)

text \<open>The command that a call of the tool runs, up to its output.\<close>

definition prepared_output :: "libraries \<Rightarrow> os \<Rightarrow> disk \<Rightarrow> string list \<Rightarrow> prepared" where
  "prepared_output lib os d args =
     (case args of
        [] \<Rightarrow> Inl ''usage: releasetool archive|canonicalize-spdx|checksums''
      | c # rest \<Rightarrow>
        if c = ''archive'' then prepareArchive lib os d rest
        else if c = ''canonicalize-spdx'' then prepareSPDX lib os d rest
        else if c = ''checksums'' then prepareChecksums lib os d rest
        else Inl (''unknown command '' @ rt_quote lib c))"

lemma execute_tool_deliver: "execute_tool lib os d args = deliver (writeAtomic os) d (prepared_output lib os d args)"
  by (cases args)
    (auto simp: execute_tool_def prepared_output_def runArchive_def runCanonicalizeSPDX_def runChecksums_def deliver_def)

text \<open>
  C37.  Whatever system call fails, the tool's output is all or nothing.  When it reports an error, every file that
  was there is there unchanged, and if its temporary file can be removed the disk is exactly what it was.  When it
  succeeds, one file has changed: the one the output path of the command names, which now holds everything the
  command's body wrote, with mode 0644.
\<close>

theorem release_all_or_nothing:
  "case execute_tool lib os d args of
     (Inl e, d') \<Rightarrow> keeps d d' \<and> (if \<forall>p. os_remove os p = None then map_of d' = map_of d else True)
   | (Inr u, d') \<Rightarrow> \<exists>path body d1 c. prepared_output lib os d args = Inr (path, body) \<and> keeps d d1 \<and>
       body d1 = (c, None) \<and> map_of d' = (map_of d)(resolve os path \<mapsto> Regular c 0x1A4)"
  unfolding execute_tool_deliver by (rule ao.deliver_cases)

section \<open>Options\<close>

fun option_args :: "(string \<times> string) list \<Rightarrow> string list" where
  "option_args [] = []"
| "option_args ((k, v) # kvs) = k # v # option_args kvs"

lemma option_args_even: "even (length (option_args kvs))"
  by (induction kvs rule: option_args.induct) simp_all

lemma option_args_Cons: "k # v # args = option_args kvs \<longleftrightarrow> (\<exists>kvs'. kvs = (k, v) # kvs' \<and> args = option_args kvs')"
  by (cases kvs rule: option_args.cases) auto

lemma option_args_ex:
  "(\<exists>kvs. k # v # args = option_args kvs \<and> P kvs) \<longleftrightarrow> (\<exists>kvs. args = option_args kvs \<and> P ((k, v) # kvs))"
  by (auto simp: option_args_Cons)

lemma option_args_Nil [simp]: "[] = option_args kvs \<longleftrightarrow> kvs = []"
  by (cases kvs rule: option_args.cases) simp_all

lemma take_options_Inr:
  "even (length args) \<Longrightarrow> distinct (map fst opts) \<Longrightarrow>
     take_options lib required opts args = Inr r \<longleftrightarrow>
       (\<exists>kvs. args = option_args kvs \<and> distinct (map fst (rev kvs @ opts)) \<and>
              fst ` set kvs \<subseteq> set required \<and> r = rev kvs @ opts)"
proof (induction lib required opts args rule: take_options.induct)
  case (1 lib required opts k v args)
  show ?case
  proof (cases "k \<in> set required \<and> map_of opts k = None")
    case True
    then have "k \<notin> fst ` set opts" by (simp add: map_of_eq_None_iff)
    then have "take_options lib required opts (k # v # args) = Inr r \<longleftrightarrow>
        (\<exists>kvs. args = option_args kvs \<and> distinct (map fst (rev kvs @ (k, v) # opts)) \<and>
               fst ` set kvs \<subseteq> set required \<and> r = rev kvs @ (k, v) # opts)"
      using 1 True by simp
    then show ?thesis unfolding option_args_ex using True by simp
  next
    case False
    then have "k \<notin> set required \<or> k \<in> fst ` set opts" by (auto simp: map_of_eq_None_iff)
    then show ?thesis using False by (auto simp: option_args_Cons)
  qed
qed auto

text \<open>
  Option parsing accepts exactly the argument lists that give every required option once, in any order, each
  with its value, and nothing else; the result maps each option to its value.
\<close>

lemma parseOptions_iff:
  "parseOptions lib args required = Inr opts \<longleftrightarrow>
     (\<exists>kvs. args = option_args kvs \<and> distinct (map fst kvs) \<and> set (map fst kvs) = set required \<and> opts = rev kvs)"
proof (cases "even (length args)")
  case True
  have missing: "filter (\<lambda>k. map_of m k = None) required = [] \<longleftrightarrow> set required \<subseteq> fst ` set m" for m :: options
    by (auto simp: filter_empty_conv map_of_eq_None_iff)
  have "parseOptions lib args required = Inr opts \<longleftrightarrow>
      take_options lib required [] args = Inr opts \<and> filter (\<lambda>k. map_of opts k = None) required = []"
    using True unfolding parseOptions_def even_iff_mod_2_eq_zero
    by (cases "take_options lib required [] args") (auto split: list.splits)
  also have "\<dots> \<longleftrightarrow> (\<exists>kvs. args = option_args kvs \<and> distinct (map fst kvs) \<and> fst ` set kvs \<subseteq> set required \<and> opts = rev kvs) \<and>
      set required \<subseteq> fst ` set opts"
    unfolding missing using take_options_Inr [OF True, of "[]" lib required opts] by (simp add: rev_map [symmetric])
  finally show ?thesis by auto
next
  case False
  then show ?thesis using option_args_even by (auto simp: parseOptions_def even_iff_mod_2_eq_zero)
qed

section \<open>Numbers and times\<close>

lemma digits_val_mono: "n \<le> digits_val n s"
proof (induction s arbitrary: n)
  case (Cons c s)
  have "n \<le> 10 * n + (byte c - 48)" by simp
  also have "\<dots> \<le> digits_val (10 * n + (byte c - 48)) s" by (rule Cons.IH)
  finally show ?case by simp
qed simp

lemma scan_uint_digits: "list_all is_dec s \<Longrightarrow> digits_val n s < 2 ^ 64 \<Longrightarrow> scan_uint n s = Inr (digits_val n s)"
proof (induction s arbitrary: n)
  case (Cons c s)
  then show ?case using digits_val_mono [of "10 * n + (byte c - 48)" s] by simp
qed simp

lemma scan_int_dec: "int64 i \<Longrightarrow> scan_int (dec_int i) = Inr i"
proof -
  assume i: "int64 i"
  then have "nat \<bar>i\<bar> < 2 ^ 64" by (auto simp: int64_def)
  moreover have "list_all is_dec (dec_nat (nat \<bar>i\<bar>))" using dec_nat_is_dec by (auto simp: list_all_iff)
  ultimately have "scan_uint 0 (dec_nat (nat \<bar>i\<bar>)) = Inr (nat \<bar>i\<bar>)" using scan_uint_digits [of _ 0] by simp
  then show ?thesis using i by (simp add: scan_int_def signed_dec_int)
qed

lemma parseEpoch_dec: "int64 i \<Longrightarrow> parseEpoch lib (dec_int i) = Inr i"
  by (simp add: parseEpoch_def scan_int_dec)

lemma wrap64_id: "int64 i \<Longrightarrow> wrap64 i = i"
  by (simp add: wrap64_def int64_def)

lemma Unix_sec_unix_time: "int64 i \<Longrightarrow> Unix_sec (unix_time i) = i"
proof -
  assume "int64 i"
  have "wrap64 (wrap64 (i + unix_epoch) - unix_epoch) = wrap64 i"
    unfolding wrap64_def using mod_diff_left_eq [of "i + unix_epoch + 2 ^ 63" "2 ^ 64 :: int" "unix_epoch"]
    by (simp add: algebra_simps)
  then show ?thesis using \<open>int64 i\<close> by (simp add: Unix_sec_def unix_time_def wrap64_id)
qed

section \<open>Commands with given options\<close>

lemma opt_given:
  assumes "distinct (map fst kvs)" and "(k, v) \<in> set kvs"
  shows "opt (rev kvs) k = v"
proof -
  have "map_of (rev kvs) k = Some v"
    using assms map_of_eq_Some_iff [of "rev kvs" k v] by (simp add: rev_map [symmetric])
  then show ?thesis by (simp add: opt_def)
qed

lemma parseOptions_given:
  "distinct (map fst kvs) \<Longrightarrow> set (map fst kvs) = set required \<Longrightarrow>
     parseOptions lib (option_args kvs) required = Inr (rev kvs)"
  by (metis parseOptions_iff)

section \<open>Archives\<close>

definition archive_options :: "string \<Rightarrow> string \<Rightarrow> string \<Rightarrow> string \<Rightarrow> int \<Rightarrow> (string \<times> string) list" where
  "archive_options input output entry format epoch =
     [(''--input'', input), (''--output'', output), (''--entry'', entry), (''--format'', format),
      (''--epoch'', dec_int epoch)]"

text \<open>An entry the container can hold: the limits of USTAR, and a zip archive below 4 GiB.\<close>

definition archive_fits :: "string \<Rightarrow> string \<Rightarrow> int \<Rightarrow> string \<Rightarrow> bool" where
  "archive_fits format entry epoch data \<longleftrightarrow>
     (if format = ''tar.gz'' then tar_text 100 entry \<and> 0 \<le> epoch \<and> epoch < 8 ^ 11 \<and> length data < 8 ^ 11
      else format = ''zip'' \<and> length data + 2 * length entry + 132 < u32max \<and> length entry < 2 ^ 16 - 1)"

text \<open>
  What the bytes \<open>c\<close> of an archive are to its readers.  A \<open>tar.gz\<close> file is a gzip file of that time whose data is a
  tar archive: the entry's name, mode 0755, the length, the epoch, the type of a regular file, the data, and after it
  the padding and two empty blocks.  A zip file has the entry with the mode of a regular file, 0755, the epoch and the data.
  The times of gzip and zip have 32 bits, and zip has none for the zero time of Go.
\<close>

definition archive_holds ::
  "(string \<Rightarrow> (string \<times> string) option) \<Rightarrow> string \<Rightarrow> string \<Rightarrow> int \<Rightarrow> string \<Rightarrow> string \<Rightarrow> bool"
where
  "archive_holds inflate format entry epoch data c \<longleftrightarrow>
     (if format = ''tar.gz''
      then case read_gzip inflate c of None \<Rightarrow> False
        | Some (time, s) \<Rightarrow> time = nat (epoch mod 2 ^ 32) \<and>
            read_tar s = Some (entry, 0x1ED, length data, nat epoch, CHR ''0'', data,
              tar_padding (length data) @ replicate 1024 NUL)
      else read_zip c = Some (entry, 0x81ED * 2 ^ 16,
        if epoch = - unix_epoch then None else Some (nat (epoch mod 2 ^ 32)), data))"

lemma zero_epoch: "int64 epoch \<Longrightarrow> time_IsZero (unix_time epoch) \<longleftrightarrow> epoch = - unix_epoch"
proof -
  assume e: "int64 epoch"
  have "w = 0" if "wrap64 w = 0" "- (2 ^ 64) < w" "w < 2 ^ 64" for w
  proof -
    have "w = 2 ^ 64 * ((w + 2 ^ 63) div 2 ^ 64)"
      using minus_mod_eq_mult_div [of "w + 2 ^ 63" "2 ^ 64 :: int"] that(1) unfolding wrap64_def by linarith
    then obtain q where "w = 2 ^ 64 * q" by blast
    then show "w = 0" using that(2,3) by simp
  qed
  moreover have "- (2 ^ 64) < epoch + unix_epoch" "epoch + unix_epoch < 2 ^ 64"
    using e by (simp_all add: int64_def unix_epoch_def)
  moreover have "wrap64 0 = 0" by (simp add: wrap64_def)
  ultimately have "wrap64 (epoch + unix_epoch) = 0 \<longleftrightarrow> epoch + unix_epoch = 0" by metis
  then show ?thesis by (auto simp: time_IsZero_def unix_time_def)
qed

lemma gzip_epoch:
  "0 \<le> epoch \<Longrightarrow> epoch < 8 ^ 11 \<Longrightarrow>
     (if time_After (unix_time epoch) (unix_time 0) then Unix_sec (unix_time epoch) else 0) = epoch"
proof -
  assume e: "0 \<le> epoch" "epoch < 8 ^ 11"
  then have "int64 epoch" "int64 (epoch + unix_epoch)" "int64 unix_epoch" by (simp_all add: int64_def unix_epoch_def)
  then show ?thesis
    using e Unix_sec_unix_time [of epoch] by (simp add: time_After_def unix_time_def wrap64_id)
qed

lemma tar_mtime_epoch: "0 \<le> epoch \<Longrightarrow> epoch < 8 ^ 11 \<Longrightarrow> tar_mtime (tar_header_of n entry epoch) = epoch"
proof -
  assume e: "0 \<le> epoch" "epoch < 8 ^ 11"
  then have "int64 epoch" "int64 (epoch + unix_epoch)" by (simp_all add: int64_def unix_epoch_def)
  then show ?thesis
    using e Unix_sec_unix_time [of epoch]
    by (simp add: tar_mtime_def tar_header_of_def time_IsZero_def unix_time_def wrap64_id unix_epoch_def)
qed

lemma tar_body:
  assumes "archive_fits ''tar.gz'' entry epoch data" and "inverts inflate (rt_deflate lib)"
  shows "\<exists>c. writeTarGz lib (data, None) (length data) entry epoch = (c, None) \<and>
    archive_holds inflate ''tar.gz'' entry epoch data c"
proof -
  let ?h = "tar_header_of (length data) entry epoch"
  have mtime: "tar_mtime ?h = epoch" using assms(1) by (simp add: archive_fits_def tar_mtime_epoch)
  have ok: "ustar_ok ?h" using assms(1) mtime by (simp add: ustar_ok_def archive_fits_def tar_header_of_def tar_text_def)
  let ?s = "tar_block ?h @ data @ tar_padding (length data) @ replicate 1024 NUL"
  have n: "th_size ?h = length data" by (simp add: tar_header_of_def)
  then have "tar_write (rt_tar_refusal lib) ?h data None = (?s, None)"
    unfolding tar_write_def using ok by simp
  then have "writeTarGz lib (data, None) (length data) entry epoch =
      (gzip_frame (rt_deflate lib) (unix_time epoch) 255 ?s, None)"
    by (simp add: writeTarGz_def)
  moreover have "read_tar ?s = Some (entry, 0x1ED, length data, nat epoch, CHR ''0'', data,
      tar_padding (length data) @ replicate 1024 NUL)"
    using read_tar_block [OF ok] mtime by (simp add: tar_header_of_def)
  moreover have "read_gzip inflate (gzip_frame (rt_deflate lib) (unix_time epoch) 255 ?s) = Some (nat (epoch mod 2 ^ 32), ?s)"
    using read_gzip_frame [OF assms(2), of "unix_time epoch" 255 ?s] gzip_epoch [of epoch] assms(1)
    by (simp add: archive_fits_def)
  ultimately show ?thesis by (simp add: archive_holds_def)
qed

lemma zip_archive_length:
  assumes "zip_write h data None = (s, None)" and "length data + 2 * length (zh_name h) + 132 < u32max"
  shows "length s < u32max"
proof -
  have "length (zip_descriptor data) = 16" "length (zip_entry h data) \<le> 55 + length (zh_name h)"
    using assms(2) zip_extra_length [of "zh_modified h"] by (simp_all add: zip_descriptor_def zip_entry_def Let_def)
  moreover have "length (zip_local h) \<le> 39 + length (zh_name h)"
    using zip_extra_length [of "zh_modified h"] by (simp add: length_zip_local)
  ultimately have "length (zip_local h @ data @ zip_descriptor data) < u32max"
    and "length (zip_entry h data) < u32max"
    and "length (zip_local h @ data @ zip_descriptor data) + length (zip_entry h data) + 22 < u32max"
    using assms(2) by simp_all
  then show ?thesis using assms(1) zip_end_fields(1) by (auto simp: zip_write_def Let_def split: if_splits)
qed

lemma zip_body:
  assumes "archive_fits ''zip'' entry epoch data" and "int64 epoch"
  shows "\<exists>c. writeZip lib (data, None) entry epoch = (c, None) \<and> archive_holds inflate ''zip'' entry epoch data c"
proof -
  let ?h = "zip_header_of entry epoch"
  have n: "length (zh_name ?h) < 2 ^ 16 - 1" "length data + 2 * length (zh_name ?h) + 132 < u32max"
    using assms(1) by (simp_all add: archive_fits_def zip_header_of_def)
  then obtain s where s: "zip_write ?h data None = (s, None)" by (simp add: zip_write_def Let_def)
  then have "writeZip lib (data, None) entry epoch = (s, None)" by (simp add: writeZip_def)
  moreover have "read_zip s = Some (zh_name ?h, zh_external ?h,
      if time_IsZero (zh_modified ?h) then None else Some (nat (Unix_sec (zh_modified ?h) mod 2 ^ 32)), data)"
  proof (rule read_zip_write [OF _ _ s zip_archive_length [OF s n(2)]])
    show "length (zh_name ?h) < 2 ^ 16" using n(1) by simp
    show "zh_external ?h < 2 ^ 32" by (simp add: zip_header_of_def)
  qed
  ultimately show ?thesis
    using assms(2) by (simp add: archive_holds_def zip_header_of_def zero_epoch Unix_sec_unix_time)
qed

text \<open>
  C39.  In a file system where no call fails, the archive command, given its five options in any order, writes an
  archive whose bytes the readers of the format, gzip and tar or zip, open to exactly one file: the requested entry,
  executable, dated at the epoch (\<open>archive_holds\<close>), with the input's bytes.  Nothing else on the disk changes.  The entry must be a
  root name the container can hold.  Of \<open>compress/flate\<close> it is assumed that the reader's decoder \<open>inflate\<close> gives
  back what the encoder was given, and finds the end of the stream (\<open>inverts\<close>); every check of the gzip frame, its
  checksum and length are the reader's own.
\<close>

theorem release_archive_correct:
  assumes "healthy os" and "writable os d output"
    and "distinct (map fst kvs)" and "set kvs = set (archive_options input output entry format epoch)"
    and "int64 epoch" and "archive_fits format entry epoch data"
    and "validateArchiveEntry entry = Inr ()" and "node_at os d input = Some (Regular data m)"
    and "inverts inflate (rt_deflate lib)"
  shows "\<exists>d' c. execute_tool lib os d (''archive'' # option_args kvs) = (Inr (), d') \<and>
    map_of d' = (map_of d)(resolve os output \<mapsto> Regular c 0x1A4) \<and> archive_holds inflate format entry epoch data c"
proof -
  have opts: "parseOptions lib (option_args kvs) [''--input'', ''--output'', ''--entry'', ''--format'', ''--epoch''] =
      Inr (rev kvs)"
    using assms(3,4) by (intro parseOptions_given) (auto simp: archive_options_def)
  have o: "opt (rev kvs) k = v" if "(k, v) \<in> set (archive_options input output entry format epoch)" for k v
    using opt_given [OF assms(3)] that assms(4) by blast
  have vals: "opt (rev kvs) ''--input'' = input" "opt (rev kvs) ''--output'' = output"
    "opt (rev kvs) ''--entry'' = entry" "opt (rev kvs) ''--format'' = format"
    "opt (rev kvs) ''--epoch'' = dec_int epoch"
    by (rule o; simp add: archive_options_def)+
  have format: "format = ''tar.gz'' \<or> format = ''zip''" using assms(6) by (auto simp: archive_fits_def split: if_splits)
  have "\<exists>c. archive_body lib (rev kvs) epoch (data, None) (length data) = (c, None) \<and>
      archive_holds inflate format entry epoch data c"
    using format tar_body [of entry epoch data inflate lib] zip_body [of entry epoch data lib inflate] assms(5,6,9)
    by (auto simp: archive_body_def vals)
  then obtain c where c: "archive_body lib (rev kvs) epoch (data, None) (length data) = (c, None)"
    "archive_holds inflate format entry epoch data c" by blast
  have "Open os d input = Inr (Regular data m)" "contents os input (Regular data m) = (data, None)"
    "os_stat os input = None"
    using assms(1,8) by (simp_all add: Open_healthy contents_healthy healthy_def)
  moreover have fmt: "fail_if (format \<noteq> ''tar.gz'' \<and> format \<noteq> ''zip'') e = Inr ()" for e :: string
    using format by auto
  ultimately have "prepareArchive lib os d (option_args kvs) = Inr (output, \<lambda>_. (c, None))"
    using c(1) assms(7) fmt
    by (simp add: prepareArchive_def opts vals parseEpoch_dec [OF assms(5)] tagged_def is_regular_def node_size_def)
  moreover obtain d' where "writeAtomic os d output (\<lambda>_. (c, None)) = (Inr (), d')"
    and d': "map_of d' = (map_of d)(resolve os output \<mapsto> Regular c 0x1A4)"
    using writeAtomic_succeeds [OF assms(1,2), of "\<lambda>_. (c, None)" c] by auto
  ultimately have "execute_tool lib os d (''archive'' # option_args kvs) = (Inr (), d')"
    by (simp add: execute_tool_def runArchive_def deliver_def)
  then show ?thesis using c(2) d' by blast
qed

text \<open>An archive of a small file.\<close>

definition tool_os :: os where
  "tool_os =
     \<lparr>os_cwd = ''/w'', os_getwd = None, os_open = \<lambda>p. None, os_stat = \<lambda>p. None, os_info = \<lambda>p. None,
      os_readdir = \<lambda>p. None, os_read = \<lambda>p. None, os_close = \<lambda>p. None, os_create = \<lambda>p. None, os_room = None,
      os_sync = \<lambda>p. None, os_chmod = \<lambda>p. None, os_rename = \<lambda>p. None, os_remove = \<lambda>p. None, os_random = \<lambda>i. i\<rparr>"

definition tool_disk :: disk where
  "tool_disk =
     [(''/'', Directory), (''/w'', Directory), (''/w/delegatd'', Regular ''run'' 0x1ED),
      (''/w/a.zip'', Regular ''z'' 0x1A4), (''/w/in.json'', Regular ''{\"creationInfo\":{}}'' 0x1A4)]"

definition tool_libraries :: libraries where
  "tool_libraries =
     \<lparr>rt_quote = \<lambda>s. s, rt_json_error = \<lambda>s e. ''invalid'', rt_json_type = \<lambda>v. ''type'', rt_tar_refusal = \<lambda>h. ''refused'',
      rt_deflate = stored_deflate, rt_flushed = \<lambda>s. s, rt_zip_flushed = \<lambda>s. s, rt_sha256 = \<lambda>s. s\<rparr>"

lemma tool_os_healthy: "healthy tool_os"
  by (simp add: healthy_def tool_os_def filepath_IsAbs_def)

lemma tool_writable: "writable tool_os tool_disk ''out''"
proof (rule writableI)
  have "temporary_stem ''out'' = ''./.out.tmp-''" by code_simp
  moreover have "dec_nat 0 = ''0''" by (subst dec_nat.simps) (simp add: digit_def char_of_def bit_0)
  ultimately have "temporary_stem ''out'' @ dec_nat (os_random tool_os 0 mod 2 ^ 32) = ''./.out.tmp-0''"
    by (simp add: tool_os_def)
  moreover have "resolve tool_os ''./.out.tmp-0'' = ''/w/.out.tmp-0''" by code_simp
  ultimately show "resolve tool_os (temporary_stem ''out'' @ dec_nat (os_random tool_os 0 mod 2 ^ 32)) = ''/w/.out.tmp-0''"
    by (simp only:)
  show "map_of tool_disk (filepath_Dir ''/w/.out.tmp-0'') = Some Directory" by code_simp
  show "map_of tool_disk ''/w/.out.tmp-0'' = None" by code_simp
  show "map_of tool_disk (resolve tool_os ''out'') \<noteq> Some Directory" by code_simp
  show "CHR ''/'' \<notin> set (filepath_Base ''out'')" by code_simp
qed (simp_all add: tool_os_def)

theorem release_archive_witness:
  "\<exists>d' c. execute_tool tool_libraries tool_os tool_disk
       (''archive'' # option_args (archive_options ''delegatd'' ''out'' ''delegatd'' ''tar.gz'' 0)) = (Inr (), d') \<and>
     map_of d' = (map_of tool_disk)(resolve tool_os ''out'' \<mapsto> Regular c 0x1A4) \<and>
     archive_holds stored_inflate ''tar.gz'' ''delegatd'' 0 ''run'' c"
proof (rule release_archive_correct [OF tool_os_healthy tool_writable _ refl])
  show "distinct (map fst (archive_options ''delegatd'' ''out'' ''delegatd'' ''tar.gz'' 0))"
    by (simp add: archive_options_def)
  show "int64 0" by (simp add: int64_def)
  show "archive_fits ''tar.gz'' ''delegatd'' 0 ''run''"
    by (simp add: archive_fits_def tar_text_def byte_def)
  show "validateArchiveEntry ''delegatd'' = Inr ()"
    by (simp add: validateArchiveEntry_def contains_any_def backslash_def NUL_def)
  show "node_at tool_os tool_disk ''delegatd'' = Some (Regular ''run'' 0x1ED)"
    by code_simp
  show "inverts stored_inflate (rt_deflate tool_libraries)" by (simp add: tool_libraries_def stored_inverts)
qed

end
