(* ===== verification/Release_Spdx.thy ===== *)
theory Release_Spdx
  imports Release_Properties
begin

text \<open>
  The canonical SPDX document: what \<open>canonicalize-spdx\<close> writes reads back to the input's document with the three
  members replaced, and canonicalising it again changes nothing.
\<close>

section \<open>Canonical values\<close>

text \<open>A value that is well formed, within the nesting limit, and in the normal form of Go's maps.\<close>

definition plain_value :: "nat \<Rightarrow> json \<Rightarrow> bool" where
  "plain_value n v \<longleftrightarrow> json_wf v \<and> json_depth v \<le> n \<and> jnorm v = v"

lemma plain_value_str [simp]: "plain_value n (JStr s) \<longleftrightarrow> utf8_valid s"
  by (simp add: plain_value_def)

lemma plain_value_obj:
  "plain_value n (JObj m) \<longleftrightarrow> 0 < n \<and> keys_sorted m \<and> (\<forall>(k, v) \<in> set m. utf8_valid k \<and> plain_value (n - 1) v)"
proof
  assume c: "plain_value n (JObj m)"
  let ?m = "map (\<lambda>(k, v). (k, jnorm v)) m"
  have m: "sort_members ?m = m" using c by (simp add: plain_value_def)
  have "jnorm v = v" if kv: "(k, v) \<in> set m" for k v
  proof -
    have "(k, v) \<in> set ?m" using kv sort_members_set [of ?m] unfolding m by blast
    then show ?thesis using jnorm_canon by auto
  qed
  then show "0 < n \<and> keys_sorted m \<and> (\<forall>(k, v) \<in> set m. utf8_valid k \<and> plain_value (n - 1) v)"
    using c sort_members_sorted [of ?m] unfolding m by (auto simp: plain_value_def json_depth_le)
next
  assume c: "0 < n \<and> keys_sorted m \<and> (\<forall>(k, v) \<in> set m. utf8_valid k \<and> plain_value (n - 1) v)"
  then have "map (\<lambda>(k, v). (k, jnorm v)) m = m" by (intro map_idI) (auto simp: plain_value_def)
  then show "plain_value n (JObj m)" using c by (auto simp: plain_value_def json_depth_le sort_members_id)
qed

lemma plain_value_member:
  assumes "plain_value n (JObj m)" and "map_of m k = Some v"
  shows "plain_value (n - 1) v"
  using assms(1) map_of_SomeD [OF assms(2)] unfolding plain_value_obj [of n m] by fast

lemma plain_value_put:
  "plain_value n (JObj m) \<Longrightarrow> utf8_valid k \<Longrightarrow> plain_value (n - 1) v \<Longrightarrow> plain_value n (JObj (put_sorted k v m))"
  using put_sorted_set [of k v m] put_sorted_sorted [of m k v] by (auto simp: plain_value_obj)

lemma plain_value_jnorm: "json_wf v \<Longrightarrow> json_depth v \<le> n \<Longrightarrow> plain_value n (jnorm v)"
  by (simp add: plain_value_def jnorm_wf jnorm_depth jnorm_canon)

lemma put_sorted_same: "keys_sorted m \<Longrightarrow> map_of m k = Some v \<Longrightarrow> put_sorted k v m = m"
proof (induction m)
  case (Cons a m)
  obtain k' v' where a: "a = (k', v')" by (cases a)
  show ?case
  proof (cases "k = k'")
    case False
    then have "(k, v) \<in> set m" using Cons.prems(2) a by (auto dest: map_of_SomeD)
    then have "k' < k" using Cons.prems(1) a by force
    then show ?thesis using Cons a False by auto
  qed (use Cons.prems a in simp)
qed simp

section \<open>The document\<close>

text \<open>What a canonical document is of the members and the \<open>creationInfo\<close> it is made from.\<close>

lemma canonical_document_facts:
  assumes "json_wf v" and "json_depth v \<le> n" and "utf8_valid name" and "utf8_valid namespace"
    and "jnorm v = JObj m" and "map_of m ''creationInfo'' = Some (JObj info)"
  obtains doc info' where "canonical_document name namespace epoch v = Inr (JObj doc)"
    and "plain_value n (JObj doc)"
    and "map_of doc = (map_of m)(''name'' \<mapsto> JStr name, ''documentNamespace'' \<mapsto> JStr namespace,
           ''creationInfo'' \<mapsto> JObj info')"
    and "map_of info' = (map_of info)(''created'' \<mapsto> JStr (created_text epoch))"
proof -
  let ?info = "put_sorted ''created'' (JStr (created_text epoch)) info"
  let ?m1 = "put_sorted ''name'' (JStr name) m"
  let ?m2 = "put_sorted ''documentNamespace'' (JStr namespace) ?m1"
  let ?doc = "put_sorted ''creationInfo'' (JObj ?info) ?m2"
  have plain: "utf8_valid k" if "k \<in> {''name'', ''documentNamespace'', ''creationInfo'', ''created''}" for k
    using that by (auto simp: byte_def)
  have m: "plain_value n (JObj m)" using plain_value_jnorm [OF assms(1,2)] assms(5) by simp
  have i: "plain_value (n - 1) (JObj info)"
    by (rule plain_value_member [OF m assms(6)])
  have i': "plain_value (n - 1) (JObj ?info)"
    by (rule plain_value_put [OF i plain]) (simp_all add: created_text_def formatTime_utf8)
  have m1: "plain_value n (JObj ?m1)" by (rule plain_value_put [OF m plain]) (simp_all add: assms(3))
  have m2: "plain_value n (JObj ?m2)" by (rule plain_value_put [OF m1 plain]) (simp_all add: assms(4))
  have doc: "plain_value n (JObj ?doc)" by (rule plain_value_put [OF m2 plain i']) simp
  have sorted: "keys_sorted m" "keys_sorted info" "keys_sorted ?m1" "keys_sorted ?m2"
    using m i m1 m2 by (auto simp: plain_value_obj)
  show ?thesis
  proof (rule that [of ?doc ?info])
    show "canonical_document name namespace epoch v = Inr (JObj ?doc)"
      by (simp add: canonical_document_def assms(5,6))
  qed (use doc sorted in \<open>simp_all add: put_sorted_map_of\<close>)
qed

lemma canonical_document_again:
  assumes "plain_value n (JObj doc)" and "map_of doc ''name'' = Some (JStr name)"
    and "map_of doc ''documentNamespace'' = Some (JStr namespace)" and "map_of doc ''creationInfo'' = Some (JObj info)"
    and "map_of info ''created'' = Some (JStr (created_text epoch))"
  shows "canonical_document name namespace epoch (JObj doc) = Inr (JObj doc)"
proof -
  have "keys_sorted doc" "plain_value (n - 1) (JObj info)"
    using assms(1) plain_value_member [OF assms(1,4)] by (simp_all add: plain_value_obj [of n doc])
  moreover from this(2) have "keys_sorted info" by (simp add: plain_value_obj)
  moreover have "jnorm (JObj doc) = JObj doc" using assms(1) by (simp add: plain_value_def)
  ultimately show ?thesis using assms(2-5) by (simp add: canonical_document_def put_sorted_same del: jnorm.simps)
qed

lemma decode_document_plain:
  "decode_one s = Some (JObj m, r) \<Longrightarrow> skip_ws r = [] \<Longrightarrow> decode_document lib (s, None) = Inr (JObj m)"
  by (simp add: decode_document_def stream_value_def)

lemma decode_written:
  assumes "plain_value max_depth (JObj doc)"
  shows "decode_one (enc_indent False 0 (JObj doc) @ [LF]) = Some (JObj doc, [LF])"
    and "decode_document lib (enc_indent False 0 (JObj doc) @ [LF], None) = Inr (JObj doc)"
proof -
  have "delim [LF]" by (simp add: delim_def is_digit_def LF_def byte_def)
  then show one: "decode_one (enc_indent False 0 (JObj doc) @ [LF]) = Some (JObj doc, [LF])"
    using assms by (intro decode_indented) (simp_all add: plain_value_def)
  show "decode_document lib (enc_indent False 0 (JObj doc) @ [LF], None) = Inr (JObj doc)"
    by (rule decode_document_plain [OF one]) (simp add: skip_ws_def is_ws_def LF_def byte_def)
qed

section \<open>The command\<close>

definition spdx_options :: "string \<Rightarrow> string \<Rightarrow> string \<Rightarrow> string \<Rightarrow> int \<Rightarrow> (string \<times> string) list" where
  "spdx_options input output name namespace epoch =
     [(''--input'', input), (''--output'', output), (''--name'', name), (''--namespace'', namespace),
      (''--epoch'', dec_int epoch)]"

lemma spdx_runs:
  assumes "healthy os" and "writable os d output"
    and "distinct (map fst kvs)" and "set kvs = set (spdx_options input output name namespace epoch)"
    and "int64 epoch" and "node_at os d input = Some (Regular s p)"
    and "decode_document lib (s, None) = Inr v" and "canonical_document name namespace epoch v = Inr doc"
  shows "\<exists>d'. execute_tool lib os d (''canonicalize-spdx'' # option_args kvs) = (Inr (), d') \<and>
    map_of d' = (map_of d)(resolve os output \<mapsto> Regular (enc_indent False 0 doc @ [LF]) 0x1A4)"
proof -
  have opts: "parseOptions lib (option_args kvs) [''--input'', ''--output'', ''--name'', ''--namespace'', ''--epoch''] =
      Inr (rev kvs)"
    using assms(3,4) by (intro parseOptions_given) (auto simp: spdx_options_def)
  have o: "opt (rev kvs) k = w" if "(k, w) \<in> set (spdx_options input output name namespace epoch)" for k w
    using opt_given [OF assms(3)] that assms(4) by blast
  have vals: "opt (rev kvs) ''--input'' = input" "opt (rev kvs) ''--output'' = output"
    "opt (rev kvs) ''--name'' = name" "opt (rev kvs) ''--namespace'' = namespace"
    "opt (rev kvs) ''--epoch'' = dec_int epoch"
    by (rule o; simp add: spdx_options_def)+
  have "Open os d input = Inr (Regular s p)" "contents os input (Regular s p) = (s, None)"
    using assms(1,6) by (simp_all add: Open_healthy contents_healthy)
  then have "prepareSPDX lib os d (option_args kvs) = Inr (output, \<lambda>_. (enc_indent False 0 doc @ [LF], None))"
    using assms(7,8) by (simp add: prepareSPDX_def opts vals parseEpoch_dec [OF assms(5)] tagged_def)
  then show ?thesis
    using writeAtomic_succeeds [OF assms(1,2), of "\<lambda>_. (enc_indent False 0 doc @ [LF], None)"]
    by (auto simp: execute_tool_def runCanonicalizeSPDX_def deliver_def)
qed

text \<open>
  C38.  Given its five options in any order and a document whose \<open>creationInfo\<close> is an object (of duplicate keys the
  last counts), the command writes a document, with keys in order, that reads back to the input's members
  with only \<open>name\<close>, \<open>documentNamespace\<close> and the creation time replaced.  The result is stable: reading it and
  canonicalising it with the same options gives the same document, hence the same bytes.
\<close>

theorem release_spdx_correct:
  assumes "healthy os" and "writable os d output"
    and "distinct (map fst kvs)" and "set kvs = set (spdx_options input output name namespace epoch)"
    and "int64 epoch" and "utf8_valid name" and "utf8_valid namespace"
    and "node_at os d input = Some (Regular s p)" and "decode_one s = Some (JObj members, r)" and "skip_ws r = []"
    and "jnorm (JObj members) = JObj m" and "map_of m ''creationInfo'' = Some (JObj info)"
  shows "\<exists>d' doc info'.
    execute_tool lib os d (''canonicalize-spdx'' # option_args kvs) = (Inr (), d') \<and>
    map_of d' = (map_of d)(resolve os output \<mapsto> Regular (enc_indent False 0 (JObj doc) @ [LF]) 0x1A4) \<and>
    keys_sorted doc \<and> decode_one (enc_indent False 0 (JObj doc) @ [LF]) = Some (JObj doc, [LF]) \<and>
    map_of doc = (map_of m)(''name'' \<mapsto> JStr name, ''documentNamespace'' \<mapsto> JStr namespace,
      ''creationInfo'' \<mapsto> JObj info') \<and>
    map_of info' = (map_of info)(''created'' \<mapsto> JStr (created_text epoch)) \<and>
    rbind (decode_document lib (enc_indent False 0 (JObj doc) @ [LF], None))
      (canonical_document name namespace epoch) = Inr (JObj doc)"
proof -
  have read: "json_wf (JObj members)" "json_depth (JObj members) \<le> max_depth"
    using reader_facts(1) [OF assms(9) [unfolded decode_one_def]] by simp_all
  obtain doc info' where doc: "canonical_document name namespace epoch (JObj members) = Inr (JObj doc)"
    "plain_value max_depth (JObj doc)"
    "map_of doc = (map_of m)(''name'' \<mapsto> JStr name, ''documentNamespace'' \<mapsto> JStr namespace,
      ''creationInfo'' \<mapsto> JObj info')"
    "map_of info' = (map_of info)(''created'' \<mapsto> JStr (created_text epoch))"
    using canonical_document_facts [OF read assms(6,7,11,12)] by metis
  have "canonical_document name namespace epoch (JObj doc) = Inr (JObj doc)"
    by (rule canonical_document_again [OF doc(2), of name namespace info']) (simp_all add: doc(3,4))
  then have "rbind (decode_document lib (enc_indent False 0 (JObj doc) @ [LF], None))
      (canonical_document name namespace epoch) = Inr (JObj doc)"
    by (simp add: decode_written(2) [OF doc(2)])
  moreover have "keys_sorted doc" using doc(2) by (simp add: plain_value_obj)
  moreover note decode_written(1) [OF doc(2)]
    spdx_runs [OF assms(1-5,8) decode_document_plain [OF assms(9,10)] doc(1), of lib] doc(3,4)
  ultimately show ?thesis by blast
qed

text \<open>The smallest document.\<close>

lemma tool_document: "enc False (JObj [(''creationInfo'', JObj [])]) = ''{\"creationInfo\":{}}''"
proof -
  have "esc False ''creationInfo'' = ''creationInfo''"
    by (rule esc_plain) (auto simp: inner_def dquote_def backslash_def byte_def)
  then show ?thesis by (simp add: enc_obj enc_member_def dquote_def)
qed

theorem release_spdx_witness:
  "\<exists>d' doc info'.
    execute_tool tool_libraries tool_os tool_disk (''canonicalize-spdx'' #
      option_args (spdx_options ''in.json'' ''out'' ''n'' ''s'' 0)) = (Inr (), d') \<and>
    map_of d' = (map_of tool_disk)(resolve tool_os ''out'' \<mapsto> Regular (enc_indent False 0 (JObj doc) @ [LF]) 0x1A4) \<and>
    keys_sorted doc \<and> decode_one (enc_indent False 0 (JObj doc) @ [LF]) = Some (JObj doc, [LF]) \<and>
    map_of doc = (map_of [(''creationInfo'', JObj [])])(''name'' \<mapsto> JStr ''n'', ''documentNamespace'' \<mapsto> JStr ''s'',
      ''creationInfo'' \<mapsto> JObj info') \<and>
    map_of info' = (map_of [])(''created'' \<mapsto> JStr (created_text 0)) \<and>
    rbind (decode_document tool_libraries (enc_indent False 0 (JObj doc) @ [LF], None))
      (canonical_document ''n'' ''s'' 0) = Inr (JObj doc)"
proof (rule release_spdx_correct [OF tool_os_healthy tool_writable _ refl])
  show "distinct (map fst (spdx_options ''in.json'' ''out'' ''n'' ''s'' 0))" by (simp add: spdx_options_def)
  show "int64 0" by (simp add: int64_def)
  show "utf8_valid ''n''" "utf8_valid ''s''" by (simp_all add: byte_def)
  show "node_at tool_os tool_disk ''in.json'' = Some (Regular ''{\"creationInfo\":{}}'' 0x1A4)" by code_simp
  have "json_wf (JObj [(''creationInfo'', JObj [])])" "json_depth (JObj [(''creationInfo'', JObj [])]) \<le> max_depth"
    by (simp_all add: byte_def json_depth_le max_depth_def)
  then show "decode_one ''{\"creationInfo\":{}}'' = Some (JObj [(''creationInfo'', JObj [])], [])"
    using decode_enc [of "JObj [(''creationInfo'', JObj [])]" "[]" False] unfolding tool_document by simp
  show "jnorm (JObj [(''creationInfo'', JObj [])]) = JObj [(''creationInfo'', JObj [])]"
    by (simp add: sort_members_def)
qed simp_all

end
