(* ===== verification/Release_Checksums.thy ===== *)
theory Release_Checksums
  imports Release_Properties "HOL-Library.Multiset"
begin

text \<open>
  The checksum file lists, in byte order, the digest and the name of every artefact of the directory and nothing else:
  not itself, not an earlier list, no other kind of file.
\<close>

definition regular_data :: "os \<Rightarrow> disk \<Rightarrow> string \<Rightarrow> string option" where
  "regular_data os d p = (case node_at os d p of Some (Regular c m) \<Rightarrow> Some c | _ \<Rightarrow> None)"

text \<open>What is listed.\<close>

definition artefact :: "os \<Rightarrow> disk \<Rightarrow> string \<Rightarrow> string \<Rightarrow> string \<Rightarrow> bool" where
  "artefact os d dir output name \<longleftrightarrow>
     isChecksumInput name \<and> name \<noteq> ''SHA256SUMS'' \<and> resolve os (filepath_Join [dir, name]) \<noteq> resolve os output \<and>
     regular_data os d (filepath_Join [dir, name]) \<noteq> None"

lemma regular_node: "(case node_at os d p of Some n \<Rightarrow> is_regular n | None \<Rightarrow> False) \<longleftrightarrow> regular_data os d p \<noteq> None"
  by (simp add: regular_data_def is_regular_def split: option.split node.split)

lemma checksum_files_healthy:
  assumes "healthy os"
  shows "checksum_files os d dir (resolve os output) names = Inr (filter (artefact os d dir output) names)"
proof (induction names)
  case (Cons name names)
  have "os_info os name = None" using assms by (simp add: healthy_def)
  then show ?case
    using Cons
    by (auto simp: artefact_def tagged_def Abs_path_healthy [OF assms] regular_node simp del: filepath_Join.simps)
qed simp

lemma checksum_lines_healthy:
  assumes "healthy os" and "keeps d d1"
    and "\<forall>name \<in> set names. regular_data os d (filepath_Join [dir, name]) \<noteq> None"
  shows "checksum_lines lib os dir names d1 =
    (concat (map (\<lambda>name. checksum_line lib name (the (regular_data os d (filepath_Join [dir, name])))) names), None)"
  using assms(3)
proof (induction names)
  case (Cons name names)
  let ?p = "filepath_Join [dir, name]"
  from Cons.prems obtain c m where n: "node_at os d ?p = Some (Regular c m)"
    by (auto simp: regular_data_def simp del: filepath_Join.simps split: option.splits node.splits)
  have "Open os d1 ?p = Inr (Regular c m)" "contents os ?p (Regular c m) = (c, None)" "os_close os ?p = None"
    using assms(1) node_at_keeps [OF assms(2) n] by (simp_all add: Open_healthy contents_healthy healthy_def)
  then show ?case using Cons n by (simp add: regular_data_def Let_def del: filepath_Join.simps)
qed simp

definition checksum_options :: "string \<Rightarrow> string \<Rightarrow> (string \<times> string) list" where
  "checksum_options dir output = [(''--dir'', dir), (''--output'', output)]"

text \<open>
  C40.  In a file system where no call fails, the checksum command writes one line per artefact of the directory: the
  hexadecimal digest of its bytes, two spaces and its name, in the byte order of the names.  An artefact is a
  regular file with one of the three suffixes other than the output itself.
\<close>

theorem release_checksums_correct:
  assumes "healthy os" and "writable os d output"
    and "distinct (map fst kvs)" and "set kvs = set (checksum_options dir output)"
    and "node_at os d dir = Some Directory"
  shows "\<exists>d' names.
    execute_tool lib os d (''checksums'' # option_args kvs) = (Inr (), d') \<and>
    map_of d' = (map_of d)(resolve os output \<mapsto>
      Regular (concat (map (\<lambda>name. checksum_line lib name (the (regular_data os d (filepath_Join [dir, name])))) names)) 0x1A4) \<and>
    sorted names \<and> mset names = filter_mset (artefact os d dir output) (mset (children d (resolve os dir)))"
proof -
  have opts: "parseOptions lib (option_args kvs) [''--dir'', ''--output''] = Inr (rev kvs)"
    using assms(3,4) by (intro parseOptions_given) (auto simp: checksum_options_def)
  have vals: "opt (rev kvs) ''--dir'' = dir" "opt (rev kvs) ''--output'' = output"
    using opt_given [OF assms(3)] assms(4) by (auto simp: checksum_options_def)
  let ?names = "filter (artefact os d dir output) (children d (resolve os dir))"
  let ?text = "concat (map (\<lambda>name. checksum_line lib name (the (regular_data os d (filepath_Join [dir, name])))) ?names)"
  have "sorted (children d (resolve os dir))" by (simp add: children_def)
  then have sorted: "sorted ?names" by (rule sorted_filter [of "\<lambda>x. x", simplified])
  have "ReadDir os d dir = Inr (children d (resolve os dir))"
    using assms(1,5) by (simp add: ReadDir_def healthy_def)
  then have prepared: "prepareChecksums lib os d (option_args kvs) = Inr (output, checksum_lines lib os dir ?names)"
    using sorted
    by (simp add: prepareChecksums_def opts vals tagged_def Abs_path_healthy [OF assms(1)]
        checksum_files_healthy [OF assms(1)] sorted_sort_id)
  have "checksum_lines lib os dir ?names d1 = (?text, None)" if "keeps d d1" for d1
    by (rule checksum_lines_healthy [OF assms(1) that]) (simp add: artefact_def)
  from writeAtomic_succeeds [OF assms(1,2), of "checksum_lines lib os dir ?names" ?text, OF this]
  obtain d' where w: "writeAtomic os d output (checksum_lines lib os dir ?names) = (Inr (), d')"
    "map_of d' = (map_of d)(resolve os output \<mapsto> Regular ?text 0x1A4)" by blast
  have "execute_tool lib os d (''checksums'' # option_args kvs) = (Inr (), d')"
    by (simp add: execute_tool_def runChecksums_def deliver_def prepared w(1))
  with w(2) sorted show ?thesis by (intro exI [of _ d'] exI [of _ ?names]) (simp add: mset_filter)
qed

theorem release_checksums_witness:
  "\<exists>d' names.
    execute_tool tool_libraries tool_os tool_disk (''checksums'' # option_args (checksum_options ''/w'' ''out'')) = (Inr (), d') \<and>
    map_of d' = (map_of tool_disk)(resolve tool_os ''out'' \<mapsto>
      Regular (concat (map (\<lambda>name. checksum_line tool_libraries name
        (the (regular_data tool_os tool_disk (filepath_Join [''/w'', name])))) names)) 0x1A4) \<and>
    sorted names \<and>
    mset names = filter_mset (artefact tool_os tool_disk ''/w'' ''out'') (mset (children tool_disk (resolve tool_os ''/w'')))"
proof (rule release_checksums_correct [OF tool_os_healthy tool_writable _ refl])
  show "distinct (map fst (checksum_options ''/w'' ''out''))" by (simp add: checksum_options_def)
  show "node_at tool_os tool_disk ''/w'' = Some Directory" by code_simp
qed

end
