(* ===== verification/Spec2Isabelle.thy ===== *)
theory Spec2Isabelle
  imports Store_Conformance Submission_Source Command_Runs Release_Spdx Release_Checksums
begin

text \<open>
  A model of delegatd, the Go program under \<open>src/\<close>: an operator submits a task for a repository, the program
  snapshots the repository's revision and configuration, resolves the policy and stores one pending
  task; it shows stored tasks; and it diagnoses a deployment.  Every function is translated as it is
  written, errors and early returns included; results of fallible functions are sums with the error on the
  left.  Texts are lists of bytes.

  How the parts interact.  \<open>cmd/delegatd\<close> parses arguments, reads the task input and calls
  \<open>internal/bootstrap\<close>, which loads the configuration (\<open>internal/config\<close>), opens the SQLite store
  (\<open>internal/store/sqlite\<close>), makes a repository source (\<open>internal/connector/github\<close>) and hands both to the
  task service (\<open>internal/control\<close>).  The service resolves the policy (\<open>internal/policy\<close>), takes canonical
  snapshots (\<open>internal/domain\<close>) and creates the task in the store; \<open>internal/store/memory\<close> is the second
  implementation of the same store.  The doctor (\<open>internal/doctor\<close>) runs one check per configured instance
  concurrently: of the connector, the store, Docker (\<open>internal/workspace/docker\<close>) and the agent runtime
  (\<open>internal/runtime/omp\<close>).

  \<^bold>\<open>The library underneath.\<close>  \<open>Prelude\<close> has results, nil-able slices and maps and strings; \<open>Utf8_Text\<close>,
  \<open>Regex\<close>, \<open>Go_Time\<close>, \<open>Go_Instant\<close>, \<open>Go_Duration\<close>, \<open>Go_Numbers\<close>, \<open>Go_Path\<close>, \<open>Go_Url\<close>, \<open>Go_Base64\<close> and
  \<open>Go_Flag\<close> are what the program uses of Go's library; \<open>Json\<close>, \<open>Json_Text\<close>, \<open>Json_Reader\<close>, \<open>Json_Roundtrip\<close>
  and \<open>Json_Struct\<close> are \<open>encoding/json\<close>, with the round trip \<open>parse_enc\<close>.

  \<^bold>\<open>The parts.\<close>
  \<^item> \<open>Domain\<close>, \<open>Snapshots\<close>, \<open>Manual_Input\<close>: \<open>domain/task.go\<close>.  Identifiers, the records, canonical JSON
    (a fixed point of \<open>canonicalJSON\<close>) and the normal form of a manual input.
  \<^item> \<open>Failures\<close>: the error types of all packages and what an operator is told (\<open>control/failure.go\<close>).
  \<^item> \<open>Policy\<close>: \<open>policy/resolve.go\<close>.  What is accepted, and that the effective policy is an intersection.
  \<^item> \<open>Task_Store\<close>: the interface \<open>TaskStore\<close> as the locale \<open>task_store\<close>, an abstract store with what
    follows from it; \<open>Task_Service\<close>: \<open>control/task.go\<close> over that contract.
  \<^item> \<open>Memory_Store\<close>: \<open>store/memory/store.go\<close>, its state three maps, and the interpretation \<open>memory\<close>.
  \<^item> \<open>Sqlite_Store\<close>, \<open>Sqlite_Contract\<close>, \<open>Sqlite_Properties\<close>: the statements and transactions of
    \<open>store/sqlite/store.go\<close> over three tables, and the interpretation \<open>sqlite\<close>; \<open>Sqlite_Schema\<close>: opening,
    \<open>migrations.go\<close> and the validation of the schema; \<open>Sqlite_Doctor\<close>: \<open>doctor.go\<close> and the data source names.
  \<^item> \<open>Yaml\<close>, \<open>Config_File\<close>, \<open>Config_Projection\<close>, \<open>Repository_Config\<close>: \<open>config/config.go\<close> and
    \<open>config/repository.go\<close>, and that the two readings of one file agree.
  \<^item> \<open>Doctor_Report\<close>: \<open>doctor/doctor.go\<close> as a step relation of interleaved goroutines; \<open>Docker_Doctor\<close> and
    \<open>Omp_Doctor\<close>: the two probes with the effects they have.
  \<^item> \<open>Github_Auth\<close>: \<open>auth.go\<close> and \<open>doctor.go\<close> of the connector; \<open>Github_Source\<close>: \<open>repository.go\<close>, whose
    state is the list of requests sent; \<open>Github_Snapshot\<close>: the plan the requests follow and what is returned.
  \<^item> \<open>Bootstrap\<close>, \<open>Bootstrap_Tasks\<close>, \<open>Bootstrap_Sample\<close>: \<open>bootstrap/doctor.go\<close> and \<open>bootstrap/task.go\<close>; the state
    is the file of the store (\<open>path_file\<close>), absent or with its schema and rows.
  \<^item> \<open>Submission_Source\<close>: the interface \<open>RepositorySource\<close> of \<open>control/task.go\<close> as the locale
    \<open>repository_source\<close>, interpreted by the GitHub source; submitted tasks are pinned to GitHub's answers (\<open>pinned\<close>).
  \<^item> \<open>Task_Output\<close>, \<open>Command_Line\<close>, \<open>Command_Properties\<close>, \<open>Command_Runs\<close>: \<open>cmd/delegatd/main.go\<close>; the
    state is the two outputs and the state of the functions the commands call.
  \<^item> \<open>Store_Conformance\<close>: \<open>storetest/task_store.go\<close>, the tests of a store as predicates; the locale
    \<open>conforming_store\<close> says which stores pass them, and both do.
  \<^item> \<open>Release_Files\<close>, \<open>Release_Tool\<close>: \<open>releasetool/main.go\<close>, its state a disk; \<open>Archive_Format\<close> and
    \<open>Json_Indent\<close> are the containers (tar, gzip, zip) and the indented writer it uses, each with a reader.
    \<open>Release_Properties\<close> (every output is all or nothing, by the locale \<open>atomic_output\<close>; archives),
    \<open>Release_Spdx\<close> and \<open>Release_Checksums\<close> are its theorems.
  \<^item> This theory: the two stores agree.

  \<^bold>\<open>Parameters.\<close>  The environment of each part is a record whose fields are the calls on code that is not
  the program's: files, processes, the clock, the database driver, HTTP, cryptography, the YAML library.
  Where calls are counted, the \<open>k\<close>-th call gets its own answer, so that any of them may fail; a context is
  the sequence of answers its \<open>Err\<close> method gives.  SQLite is modelled as tables with the keys, unique
  constraints and checks of the schema, and transactions that commit or leave the tables unchanged.
  Theorems that compare two readings of the configuration assume that its top-level keys are plain strings
  (\<open>plain_document\<close>: merge keys are what parts the readings) and that the YAML library decodes a field of a struct from
  the field's own entry, whichever struct it is in (\<open>decodes_fields\<close>).  The theorem about archives assumes that
  the decoder of deflated streams inverts the encoder (\<open>inverts\<close>).  A deployment for which all hypotheses hold, with
  GitHub's answers to a snapshot, is in \<open>Bootstrap_Sample\<close>, and an encoder and decoder of stored blocks in \<open>Archive_Format\<close>.

  \<^bold>\<open>Bounds and fuel.\<close>  The JSON reader takes fuel \<open>json_fuel\<close>, which \<open>decode_one_fuel\<close> shows to be enough.
  Everything else terminates by a measure.  Limits of the code (1 MiB of input and configuration, 16 MiB
  of a snapshot, 64 KiB of a key and of Docker's output, 1 MiB of a response and of the ready frame) are
  constants of the model.  The end-to-end theorems bound names by 512 KiB so that the JSON of a resource
  stays below the limit of a snapshot.

  \<^bold>\<open>Not modelled.\<close>  The signal handling and \<open>os.Exit\<close> of \<open>main\<close>; the goroutines that only wait for or drain
  a process; closing the store after a command.  The release tool's disk has no symbolic links, and its deflate
  encoder, its digest and the texts of library errors are parameters.
\<close>

section \<open>Properties that span components\<close>

lemma fresh_spec_empty: "memory_abs memory_New = spec_empty" "sqlite_abs empty_database = spec_empty"
  by (simp_all add: memory_abs_def memory_New_def spec_empty_def sqlite_abs_def empty_database_def)

text \<open>
  C3.  The two stores are interchangeable: any sequence of submissions to an empty memory store and
  to an empty SQLite database gives the same results in the same order (the same tasks created, the
  same submissions refused), and afterwards every identifier reads back the same task in both.  The
  drafts must be exactly representable and no candidate resource identifier used twice.
\<close>

theorem stores_agree:
  assumes "list_all memory_repr ds" and "list_all sqlite_repr ds" and "fresh_ids ds spec_empty"
  shows "fst (run_store create_checked ds memory_New) = fst (run_store sqlite_create ds empty_database) \<and>
    (\<forall>i t. memory_lookup i (snd (run_store create_checked ds memory_New)) = Inr t \<longleftrightarrow>
           sqlite_lookup i (snd (run_store sqlite_create ds empty_database)) = Inr t)"
proof -
  have m: "memory_inv (snd (run_store create_checked ds memory_New)) \<and>
      spec_run ds (memory_abs memory_New) = apsnd memory_abs (run_store create_checked ds memory_New)"
    by (rule memory.run_refines [OF memory_inv_New])
      (use assms(1,3) in \<open>auto simp: list_all_iff fresh_spec_empty\<close>)
  have q: "sqlite_inv (snd (run_store sqlite_create ds empty_database)) \<and>
      spec_run ds (sqlite_abs empty_database) = apsnd sqlite_abs (run_store sqlite_create ds empty_database)"
    by (rule sqlite.run_refines [OF sqlite_inv_empty])
      (use assms(2,3) in \<open>auto simp: list_all_iff fresh_spec_empty\<close>)
  have "apsnd memory_abs (run_store create_checked ds memory_New) =
      apsnd sqlite_abs (run_store sqlite_create ds empty_database)"
    using m q by (simp add: fresh_spec_empty)
  then have "fst (run_store create_checked ds memory_New) = fst (run_store sqlite_create ds empty_database)"
    "memory_abs (snd (run_store create_checked ds memory_New)) =
      sqlite_abs (snd (run_store sqlite_create ds empty_database))"
    by (metis fst_apsnd, metis snd_apsnd)
  then show ?thesis using m q by (simp add: memory.lookup_iff sqlite.lookup_iff)
qed

lemma stores_agree_witness:
  "fst (run_store create_checked [sample_draft] memory_New) =
   fst (run_store sqlite_create [sample_draft] empty_database)"
  using stores_agree [of "[sample_draft]"] sample_draft_repr sample_draft_sqlite
  by (simp add: fresh_ids_def spec_empty_def)

end
